(* ===== verification/Prelude.thy ===== *)
theory Prelude
  imports Main "HOL-Library.Word" "HOL-Library.AList"
begin

text \<open>
  Shared vocabulary of the development: the machine types of the Rust sources, the result of a
  \<open>Future\<close> poll, byte/string conversions, little-endian integers, and two interfaces that the
  stateful components instantiate: \<open>machine\<close> (a state with operations that keep an invariant)
  and \<open>growing_machine\<close> (operations that also only move the state upwards in a preorder).

  A Rust \<open>String\<close>, \<open>&str\<close> or \<open>PathBuf\<close> is the list of its UTF-8 bytes, one \<^typ>\<open>char\<close> (eight
  bits) per byte; \<open>Vec<u8>\<close> and \<open>&[u8]\<close> are lists of \<^typ>\<open>8 word\<close>. A \<open>usize\<close> that counts the
  elements of a \<open>Vec\<close> is a \<^typ>\<open>nat\<close>; the targets are 64-bit, so \<open>usize::MAX\<close> is \<open>2 ^ 64 - 1\<close>.
\<close>

unbundle bit_operations_syntax

section \<open>Machine types\<close>

type_synonym u8 = "8 word"
type_synonym u32 = "32 word"
type_synonym i32 = "32 word"
type_synonym u64 = "64 word"
type_synonym bytes = "u8 list"

datatype 'a poll = Pending | Ready 'a

named_theorems word_facts \<open>conversions between machine words and naturals\<close>
named_theorems codec \<open>length and round-trip facts of the byte encodings\<close>
named_theorems frame \<open>fields an operation leaves alone\<close>

definition usize_max :: nat where
  "usize_max = 2 ^ 64 - 1"

definition checked_add :: "nat \<Rightarrow> nat \<Rightarrow> nat option" where
  "checked_add a b = (if a + b \<le> usize_max then Some (a + b) else None)"

lemma checked_add_Some [simp]: "checked_add a b = Some c \<longleftrightarrow> c = a + b \<and> a + b \<le> usize_max"
  by (auto simp: checked_add_def)

lemma checked_add_None [simp]: "checked_add a b = None \<longleftrightarrow> usize_max < a + b"
  by (auto simp: checked_add_def)

lemma unat_of_nat_u64 [word_facts]: "n < 2 ^ 64 \<Longrightarrow> unat (of_nat n :: u64) = n"
  by (simp add: unat_of_nat take_bit_eq_mod)

lemma unat_of_nat_u32 [word_facts]: "n < 2 ^ 32 \<Longrightarrow> unat (of_nat n :: u32) = n"
  by (simp add: unat_of_nat take_bit_eq_mod)

lemma unat_u64_less [word_facts]: "unat (w :: u64) < 2 ^ 64"
  using unsigned_less [of w] by simp

lemma unat_u32_less [word_facts]: "unat (w :: u32) < 2 ^ 32"
  using unsigned_less [of w] by simp

section \<open>Strings and bytes\<close>

definition byte_of_char :: "char \<Rightarrow> u8" where
  "byte_of_char c = word_of_nat (of_char c)"

definition char_of_byte :: "u8 \<Rightarrow> char" where
  "char_of_byte w = char_of (unat w)"

definition into_bytes :: "string \<Rightarrow> bytes" where
  "into_bytes s = map byte_of_char s"

definition from_bytes :: "bytes \<Rightarrow> string" where
  "from_bytes bs = map char_of_byte bs"

lemma of_char_less_256 [simp]: "(of_char c :: nat) < 256"
proof -
  have "(of_char c :: nat) \<in> range of_char" by simp
  then show ?thesis by (simp only: range_nat_of_char) auto
qed

lemma char_byte_char [simp, codec]: "char_of_byte (byte_of_char c) = c"
  by (simp add: char_of_byte_def byte_of_char_def unat_of_nat take_bit_eq_mod)

lemma byte_char_byte [simp, codec]: "byte_of_char (char_of_byte w) = w"
proof -
  have "unat w < 256" using unsigned_less [of w] by simp
  then show ?thesis by (simp add: char_of_byte_def byte_of_char_def)
qed

lemma from_into_bytes [simp, codec]: "from_bytes (into_bytes s) = s"
  by (simp add: from_bytes_def into_bytes_def comp_def)

lemma into_from_bytes [simp, codec]: "into_bytes (from_bytes bs) = bs"
  by (simp add: from_bytes_def into_bytes_def comp_def)

lemma length_into_bytes [simp, codec]: "length (into_bytes s) = length s"
  by (simp add: into_bytes_def)

lemma length_from_bytes [simp, codec]: "length (from_bytes bs) = length bs"
  by (simp add: from_bytes_def)

lemma into_bytes_append [simp]: "into_bytes (s @ t) = into_bytes s @ into_bytes t"
  by (simp add: into_bytes_def)

lemma into_bytes_inject [simp]: "into_bytes s = into_bytes t \<longleftrightarrow> s = t"
  by (metis from_into_bytes)

section \<open>UTF-8\<close>

text \<open>The well-formed UTF-8 byte sequences: what \<open>str::from_utf8\<close> and \<open>OsStr::to_str\<close> accept.\<close>

definition continuation :: "nat \<Rightarrow> bool" where
  "continuation b \<longleftrightarrow> 0x80 \<le> b \<and> b \<le> 0xBF"

fun utf8_valid :: "nat list \<Rightarrow> bool" where
  "utf8_valid [] = True"
| "utf8_valid (a # bs) =
     (if a < 0x80 then utf8_valid bs
      else (case bs of
        [] \<Rightarrow> False
      | b # cs \<Rightarrow>
          if 0xC2 \<le> a \<and> a \<le> 0xDF then continuation b \<and> utf8_valid cs
          else (case cs of
            [] \<Rightarrow> False
          | c # ds \<Rightarrow>
              if 0xE0 \<le> a \<and> a \<le> 0xEF then
                (if a = 0xE0 then 0xA0 \<le> b \<and> b \<le> 0xBF
                 else if a = 0xED then 0x80 \<le> b \<and> b \<le> 0x9F
                 else continuation b) \<and> continuation c \<and> utf8_valid ds
              else (case ds of
                [] \<Rightarrow> False
              | d # es \<Rightarrow>
                  0xF0 \<le> a \<and> a \<le> 0xF4 \<and>
                  (if a = 0xF0 then 0x90 \<le> b \<and> b \<le> 0xBF
                   else if a = 0xF4 then 0x80 \<le> b \<and> b \<le> 0x8F
                   else continuation b) \<and> continuation c \<and> continuation d \<and> utf8_valid es))))"

text \<open>
  \<open>to_string_lossy\<close> of the standard library keeps well-formed characters and replaces each maximal
  beginning of a character that does not go on as one by U+FFFD. \<open>utf8_tests\<close> are the tests that the
  bytes after a first byte must pass, and \<open>utf8_follow\<close> says whether they do and how many of them did.
\<close>

definition utf8_second :: "nat \<Rightarrow> nat \<Rightarrow> bool" where
  "utf8_second a b \<longleftrightarrow>
     (if a = 0xE0 then 0xA0 \<le> b \<and> b \<le> 0xBF
      else if a = 0xED then 0x80 \<le> b \<and> b \<le> 0x9F
      else if a = 0xF0 then 0x90 \<le> b \<and> b \<le> 0xBF
      else if a = 0xF4 then 0x80 \<le> b \<and> b \<le> 0x8F
      else continuation b)"

definition utf8_tests :: "nat \<Rightarrow> (nat \<Rightarrow> bool) list option" where
  "utf8_tests a =
     (if a < 0x80 then Some []
      else if 0xC2 \<le> a \<and> a \<le> 0xDF then Some [continuation]
      else if 0xE0 \<le> a \<and> a \<le> 0xEF then Some [utf8_second a, continuation]
      else if 0xF0 \<le> a \<and> a \<le> 0xF4 then Some [utf8_second a, continuation, continuation]
      else None)"

fun utf8_follow :: "(nat \<Rightarrow> bool) list \<Rightarrow> nat list \<Rightarrow> bool \<times> nat" where
  "utf8_follow [] bs = (True, 0)"
| "utf8_follow (t # ts) [] = (False, 0)"
| "utf8_follow (t # ts) (b # bs) = (if t b then map_prod id Suc (utf8_follow ts bs) else (False, 0))"

definition utf8_char :: "nat \<Rightarrow> nat list \<Rightarrow> bool \<times> nat" where
  "utf8_char a bs = (case utf8_tests a of None \<Rightarrow> (False, 0) | Some ts \<Rightarrow> utf8_follow ts bs)"

function utf8_lossy :: "nat list \<Rightarrow> nat list" where
  "utf8_lossy [] = []"
| "utf8_lossy (a # bs) =
     (if fst (utf8_char a bs) then a # take (snd (utf8_char a bs)) bs else [0xEF, 0xBF, 0xBD]) @
     utf8_lossy (drop (snd (utf8_char a bs)) bs)"
  by pat_completeness auto
termination by (relation "measure length") auto

definition is_utf8 :: "string \<Rightarrow> bool" where
  "is_utf8 str = utf8_valid (map of_char str)"

definition to_string_lossy :: "string \<Rightarrow> string" where
  "to_string_lossy str = map char_of (utf8_lossy (map of_char str))"

lemma utf8_second_three: "0xE0 \<le> a \<Longrightarrow> a \<le> 0xEF \<Longrightarrow> utf8_second a b \<longleftrightarrow>
    (if a = 0xE0 then 0xA0 \<le> b \<and> b \<le> 0xBF else if a = 0xED then 0x80 \<le> b \<and> b \<le> 0x9F else continuation b)"
  by (simp add: utf8_second_def)

lemma utf8_second_four: "0xF0 \<le> a \<Longrightarrow> utf8_second a b \<longleftrightarrow>
    (if a = 0xF0 then 0x90 \<le> b \<and> b \<le> 0xBF else if a = 0xF4 then 0x80 \<le> b \<and> b \<le> 0x8F else continuation b)"
  by (simp add: utf8_second_def)

lemma utf8_valid_char:
  assumes "utf8_valid (a # bs)"
  shows "fst (utf8_char a bs) \<and> utf8_valid (drop (snd (utf8_char a bs)) bs)"
proof (cases "a < 0x80")
  case True
  with assms show ?thesis by (simp add: utf8_char_def utf8_tests_def)
next
  case False
  with assms obtain b cs where bs: "bs = b # cs" by (cases bs) simp_all
  show ?thesis
  proof (cases "0xC2 \<le> a \<and> a \<le> 0xDF")
    case True
    with assms False bs show ?thesis by (simp add: utf8_char_def utf8_tests_def)
  next
    case two: False
    with assms False bs obtain c ds where cs: "cs = c # ds" by (cases cs) simp_all
    show ?thesis
    proof (cases "0xE0 \<le> a \<and> a \<le> 0xEF")
      case True
      with assms False two bs cs show ?thesis
        by (simp add: utf8_char_def utf8_tests_def utf8_second_three del: One_nat_def)
    next
      case three: False
      with assms False two bs cs obtain d es where ds: "ds = d # es" by (cases ds) simp_all
      from assms False two three bs cs ds have four: "0xF0 \<le> a" "a \<le> 0xF4" by simp_all
      with assms False two three bs cs ds show ?thesis
        by (simp add: utf8_char_def utf8_tests_def utf8_second_four)
    qed
  qed
qed

lemma utf8_lossy_valid: "utf8_valid bs \<Longrightarrow> utf8_lossy bs = bs"
proof (induction bs rule: utf8_lossy.induct)
  case (2 a bs)
  with utf8_valid_char [OF "2.prems"] show ?case by (simp del: utf8_valid.simps)
qed simp

lemma to_string_lossy_utf8 [simp]: "is_utf8 str \<Longrightarrow> to_string_lossy str = str"
  by (simp add: is_utf8_def to_string_lossy_def utf8_lossy_valid comp_def)

section \<open>Splitting strings at a separator\<close>

text \<open>\<open>str::split(sep)\<close> collected: one more piece than separators, empty pieces kept.\<close>

fun split_on :: "'a \<Rightarrow> 'a list \<Rightarrow> 'a list list" where
  "split_on sep [] = [[]]"
| "split_on sep (c # cs) =
     (if c = sep then [] # split_on sep cs
      else (case split_on sep cs of
              [] \<Rightarrow> [[c]]
            | p # ps \<Rightarrow> (c # p) # ps))"

fun join_with :: "'a list \<Rightarrow> 'a list list \<Rightarrow> 'a list" where
  "join_with sep [] = []"
| "join_with sep [p] = p"
| "join_with sep (p # q # ps) = p @ sep @ join_with sep (q # ps)"

lemma split_on_not_Nil [simp]: "split_on sep s \<noteq> []"
  by (induction s) (auto split: list.splits)

lemma split_on_no_sep: "p \<in> set (split_on sep s) \<Longrightarrow> sep \<notin> set p"
  by (induction s arbitrary: p) (auto split: list.splits if_splits)

lemma split_on_piece_subset: "p \<in> set (split_on sep s) \<Longrightarrow> set p \<subseteq> set s"
proof (induction s arbitrary: p)
  case (Cons c cs)
  then show ?case by (cases "split_on sep cs") (auto split: if_splits, blast+)
qed simp

lemma split_on_append_sep:
  "split_on sep (s @ sep # t) = split_on sep s @ split_on sep t"
proof (induction s)
  case (Cons c cs)
  then show ?case by (cases "split_on sep cs") auto
qed simp

lemma split_on_id: "sep \<notin> set s \<Longrightarrow> split_on sep s = [s]"
  by (induction s) auto

lemma join_split_on: "join_with [sep] (split_on sep s) = s"
proof (induction s)
  case (Cons c cs)
  then show ?case by (cases "split_on sep cs"; cases "tl (split_on sep cs)") auto
qed simp

text \<open>\<open>str::split_once(sep)\<close>: the pieces before and after the first separator.\<close>

fun split_once :: "'a \<Rightarrow> 'a list \<Rightarrow> ('a list \<times> 'a list) option" where
  "split_once sep [] = None"
| "split_once sep (c # cs) =
     (if c = sep then Some ([], cs)
      else map_option (\<lambda>(k, v). (c # k, v)) (split_once sep cs))"

lemma split_once_Some: "sep \<notin> set k \<Longrightarrow> split_once sep (k @ sep # v) = Some (k, v)"
  by (induction k) auto

lemma split_once_SomeD:
  "split_once sep s = Some (k, v) \<Longrightarrow> s = k @ sep # v \<and> sep \<notin> set k"
  by (induction s arbitrary: k) (auto split: if_splits)

lemma split_once_None: "split_once sep s = None \<longleftrightarrow> sep \<notin> set s"
  by (induction s) auto

section \<open>The first element that matters\<close>

text \<open>\<open>until P R xs\<close>: after a prefix on which \<open>P\<close> holds comes an element \<open>y\<close> with \<open>R y rest\<close>.\<close>

definition until :: "('a \<Rightarrow> bool) \<Rightarrow> ('a \<Rightarrow> 'a list \<Rightarrow> bool) \<Rightarrow> 'a list \<Rightarrow> bool" where
  "until P R xs \<longleftrightarrow> (\<exists>ys y zs. xs = ys @ y # zs \<and> (\<forall>x\<in>set ys. P x) \<and> R y zs)"

lemma until_Nil [simp]: "\<not> until P R []"
  by (simp add: until_def)

lemma until_Cons [simp]: "until P R (x # xs) \<longleftrightarrow> R x xs \<or> P x \<and> until P R xs"
proof
  assume "until P R (x # xs)"
  then obtain ys y zs where "x # xs = ys @ y # zs" "\<forall>x\<in>set ys. P x" "R y zs"
    unfolding until_def by blast
  then show "R x xs \<or> P x \<and> until P R xs"
    by (cases ys) (auto simp: until_def)
next
  assume "R x xs \<or> P x \<and> until P R xs"
  then consider "R x xs" | ys y zs where "P x" "xs = ys @ y # zs" "\<forall>x\<in>set ys. P x" "R y zs"
    unfolding until_def by blast
  then show "until P R (x # xs)"
  proof cases
    case 1
    then show ?thesis unfolding until_def by (intro exI [of _ "[]"]) simp
  next
    case 2
    then show ?thesis unfolding until_def by (intro exI [of _ "x # ys"]) simp
  qed
qed

section \<open>Little-endian integers\<close>

text \<open>\<open>u32::to_le_bytes\<close> and \<open>u32::from_le_bytes\<close>; \<open>i32\<close> has the same bytes.\<close>

definition to_le_bytes :: "u32 \<Rightarrow> bytes" where
  "to_le_bytes w = [ucast w, ucast (drop_bit 8 w), ucast (drop_bit 16 w), ucast (drop_bit 24 w)]"

definition from_le_bytes :: "bytes \<Rightarrow> u32" where
  "from_le_bytes bs = foldr (\<lambda>b w. ucast b OR push_bit 8 w) bs 0"

lemma length_to_le_bytes [simp, codec]: "length (to_le_bytes w) = 4"
  by (simp add: to_le_bytes_def)

lemma from_to_le_bytes [simp, codec]: "from_le_bytes (to_le_bytes w) = w"
proof (rule bit_word_eqI)
  fix n assume "n < LENGTH(32)"
  then consider "n < 8" | "8 \<le> n" "n < 16" | "16 \<le> n" "n < 24" | "24 \<le> n" "n < 32"
    by fastforce
  then show "bit (from_le_bytes (to_le_bytes w)) n = bit w n"
    by cases (auto simp: from_le_bytes_def to_le_bytes_def bit_simps)
qed

lemma to_from_le_bytes_4: "to_le_bytes (from_le_bytes [a, b, c, d]) = [a, b, c, d]"
  unfolding from_le_bytes_def to_le_bytes_def list.inject foldr.simps comp_apply id_apply
    push_bit_of_0 or.right_neutral
  by (intro conjI refl; rule bit_word_eqI) (auto simp: bit_simps dest: bit_imp_le_length)

lemma to_from_le_bytes [codec]: "length bs = 4 \<Longrightarrow> to_le_bytes (from_le_bytes bs) = bs"
  by (auto simp: numeral_eq_Suc length_Suc_conv intro: to_from_le_bytes_4)

section \<open>Interfaces of stateful components\<close>

text \<open>
  A component is a state with a step for every operation. The contract \<open>machine\<close> is that every
  operation keeps the invariant; its client lemma is that every sequence of operations does.
\<close>

locale machine =
  fixes step :: "'s \<Rightarrow> 'op \<Rightarrow> 's"
    and inv :: "'s \<Rightarrow> bool"
  assumes step_inv: "inv s \<Longrightarrow> inv (step s x)"
begin

lemma run_inv: "inv s \<Longrightarrow> inv (foldl step s xs)"
  by (induction xs arbitrary: s) (simp_all add: step_inv)

end

text \<open>
  Some components also promise a direction: a limit that never changes, a flag that is never
  reset, a log that only grows. The promise is a preorder that every operation respects.
\<close>

locale growing_machine = machine step inv
  for step :: "'s \<Rightarrow> 'op \<Rightarrow> 's" and inv :: "'s \<Rightarrow> bool" +
  fixes le :: "'s \<Rightarrow> 's \<Rightarrow> bool"
  assumes le_refl: "le s s"
    and le_trans: "le s t \<Longrightarrow> le t u \<Longrightarrow> le s u"
    and step_le: "inv s \<Longrightarrow> le s (step s x)"
begin

lemma run_le: "inv s \<Longrightarrow> le s (foldl step s xs)"
proof (induction xs rule: rev_induct)
  case Nil
  show ?case by (simp add: le_refl)
next
  case (snoc x xs)
  then have "le s (foldl step s xs)" and "inv (foldl step s xs)"
    by (simp_all add: run_inv)
  then show ?case by (simp add: step_le [THEN le_trans [rotated]])
qed

end

end
