(* ===== verification/Errors.thy ===== *)
theory Errors
  imports Prelude
begin

text \<open>
  The error values of the crate. \<open>anyhow::Error\<close> is the datatype \<open>error\<close>: \<open>Msg\<close> for
  \<open>anyhow!(..)\<close>, with a named constant for every message that \<open>src/core.rs\<close> and
  \<open>src/py_api.rs\<close> raise (its text and the values it prints), and \<open>Context\<close> for \<open>.context(..)\<close> and \<open>.with_context(..)\<close>. \<open>io_error\<close> holds the \<open>std::io::Error\<close>
  values of the file implementations and \<open>fs_error\<close> the variants of \<open>virtual_fs::FsError\<close> that
  the sources name. Errors of code outside the crate are opaque (\<open>ForeignIo\<close>, \<open>ForeignFs\<close>,
  \<open>Foreign\<close>). A failed \<open>Mutex::lock\<close> is a branch of its own, taken when the mutex is poisoned.
\<close>

datatype fs_error =
    EntryNotFound
  | BaseNotDirectory
  | NotAFile
  | PermissionDenied
  | StorageFull
  | LockError
  | ForeignFs nat

datatype io_kind = Other | InvalidInput | Unsupported | PermissionDeniedKind | ForeignKind

datatype io_error =
    OutputLimit nat
  | CaptureLockFailedIo
  | StdinLockFailedIo
  | SeekBeforeStart
  | StdinNotSeekable
  | ReadOnlyMount
  | StdinNotWritable
  | ForeignIo nat

fun io_error_kind :: "io_error \<Rightarrow> io_kind" where
  "io_error_kind (OutputLimit n) = Other"
| "io_error_kind CaptureLockFailedIo = Other"
| "io_error_kind StdinLockFailedIo = Other"
| "io_error_kind SeekBeforeStart = InvalidInput"
| "io_error_kind StdinNotSeekable = Unsupported"
| "io_error_kind ReadOnlyMount = PermissionDeniedKind"
| "io_error_kind StdinNotWritable = PermissionDeniedKind"
| "io_error_kind (ForeignIo n) = ForeignKind"

datatype error =
    Msg string
  | FsErr fs_error
  | IoErr io_error
  | Context string error
  | Foreign nat

text \<open>Decimal rendering, as \<open>format!\<close> prints an unsigned integer.\<close>

fun show_nat_digits :: "nat \<Rightarrow> string \<Rightarrow> string" where
  "show_nat_digits n acc =
     (let acc' = char_of (48 + n mod 10) # acc
      in if n < 10 then acc' else show_nat_digits (n div 10) acc')"

declare show_nat_digits.simps [simp del]

definition show_nat :: "nat \<Rightarrow> string" where
  "show_nat n = show_nat_digits n []"

section \<open>Paths\<close>

definition NulInPath :: error where
  "NulInPath = Msg ''sandbox paths cannot contain NUL bytes''"

definition PathNotAbsolute :: error where
  "PathNotAbsolute = Msg ''sandbox paths must be absolute''"

definition PathEscapesRoot :: error where
  "PathEscapesRoot = Msg ''sandbox paths cannot escape root''"

definition CommandPathEscapesRoot :: error where
  "CommandPathEscapesRoot = Msg ''command paths cannot escape root''"

section \<open>Command resolution\<close>

definition ArgsEmpty :: error where
  "ArgsEmpty = Msg ''command arguments cannot be empty''"

definition CommandNul :: error where
  "CommandNul = Msg ''command cannot contain NUL bytes''"

definition CommandEmpty :: error where
  "CommandEmpty = Msg ''command cannot be empty''"

definition CommandNotFound :: "string \<Rightarrow> error" where
  "CommandNotFound command = Msg (''command not found: '' @ command)"

definition PackageNotLoaded :: "string \<Rightarrow> error" where
  "PackageNotLoaded package = Msg (''package not loaded: '' @ package)"

section \<open>Virtual executables\<close>

definition ExecPathsEmpty :: error where
  "ExecPathsEmpty = Msg ''virtual executable paths cannot be empty''"

definition ExecPathIsRoot :: error where
  "ExecPathIsRoot = Msg ''virtual executable path cannot be the sandbox root''"

definition RegistryLockFailed :: error where
  "RegistryLockFailed = Msg ''virtual executable registry lock failed''"

definition ExecPathExists :: "string \<Rightarrow> error" where
  "ExecPathExists path = Msg (''virtual executable path already exists: '' @ path)"

definition ExecPathRegistered :: "string \<Rightarrow> error" where
  "ExecPathRegistered path = Msg (''virtual executable path is already registered: '' @ path)"

definition ExecNotRegistered :: "string \<Rightarrow> error" where
  "ExecNotRegistered path = Msg (''virtual executable is not registered: '' @ path)"

definition ProcessCancelled :: error where
  "ProcessCancelled = Msg ''process cancelled''"

definition ExecWallTime :: error where
  "ExecWallTime = Msg ''virtual executable exceeded wall time limit''"

definition DispatcherClosed :: error where
  "DispatcherClosed = Msg ''virtual executable dispatcher is closed''"

definition ResponseChannelClosed :: error where
  "ResponseChannelClosed = Msg ''virtual executable response channel closed''"

definition ResponseReceiverClosed :: error where
  "ResponseReceiverClosed = Msg ''virtual process response receiver closed''"

section \<open>Wire formats\<close>

definition PayloadTooLarge :: error where
  "PayloadTooLarge = Msg ''binary payload is too large''"

definition PayloadTruncated :: error where
  "PayloadTruncated = Msg ''binary payload is truncated''"

definition InvalidMagic :: error where
  "InvalidMagic = Msg ''invalid binary payload magic''"

definition InvalidResponseHeader :: error where
  "InvalidResponseHeader = Msg ''invalid virtual executable response header''"

definition ResponseTooLarge :: error where
  "ResponseTooLarge = Msg ''virtual executable response is too large''"

definition ResponseTruncated :: error where
  "ResponseTruncated = Msg ''virtual executable response is truncated''"

section \<open>Packages\<close>

definition PackageNameEmpty :: error where
  "PackageNameEmpty = Msg ''package name cannot be empty''"

definition PackageNameNul :: error where
  "PackageNameNul = Msg ''package name cannot contain NUL bytes''"

definition PackageDuplicate :: "string \<Rightarrow> error" where
  "PackageDuplicate name = Msg (''package name configured more than once: '' @ name)"

definition Sha256Invalid :: "string \<Rightarrow> error" where
  "Sha256Invalid name = Msg (''package '' @ name @ '' content_sha256 must contain 64 hexadecimal characters'')"

definition CommandNameEmpty :: "string \<Rightarrow> error" where
  "CommandNameEmpty label = Msg (''package command '' @ label @ '' cannot be empty'')"

definition CommandNameNul :: "string \<Rightarrow> error" where
  "CommandNameNul label = Msg (''package command '' @ label @ '' cannot contain NUL bytes'')"

definition CommandNameSlash :: "string \<Rightarrow> error" where
  "CommandNameSlash label = Msg (''package command '' @ label @ '' cannot contain path separators'')"

definition CommandCollision :: "string \<Rightarrow> string \<Rightarrow> string \<Rightarrow> string \<Rightarrow> string \<Rightarrow> error" where
  "CommandCollision path command package other_command other_package = Msg (''command path collision at '' @ path @ '': '' @ command @ '' from package '' @ package @
       '' conflicts with '' @ other_command @ '' from package '' @ other_package)"

section \<open>Sandbox files, mounts and limits\<close>

definition MountTargetIsRoot :: error where
  "MountTargetIsRoot = Msg ''host mount target cannot be the sandbox root''"

definition MountTargetNotDir :: "string \<Rightarrow> error" where
  "MountTargetNotDir path = Msg (''host mount target is not a directory: '' @ path)"

definition HostSourceNul :: error where
  "HostSourceNul = Msg ''host mount source cannot contain NUL bytes''"

definition HostSourceMissing :: "string \<Rightarrow> error" where
  "HostSourceMissing path = Msg (''host mount source does not exist: '' @ path)"

definition HostSourceNotDir :: "string \<Rightarrow> error" where
  "HostSourceNotDir path = Msg (''host mount source is not a directory: '' @ path)"

definition DirMissing :: "string \<Rightarrow> string \<Rightarrow> error" where
  "DirMissing name path = Msg (name @ '' does not exist: '' @ path)"

definition DirNotDirectory :: "string \<Rightarrow> string \<Rightarrow> error" where
  "DirNotDirectory name path = Msg (name @ '' is not a directory: '' @ path)"

definition PathNotDirectory :: "string \<Rightarrow> error" where
  "PathNotDirectory path = Msg (''path is not a directory: '' @ path)"

definition WallTimeInvalid :: error where
  "WallTimeInvalid = Msg ''wall_time_seconds must be a positive finite number''"

definition OutputExceeded :: "string \<Rightarrow> nat \<Rightarrow> error" where
  "OutputExceeded stream limit = Msg (''process '' @ stream @ '' output exceeded '' @ show_nat limit @ '' bytes'')"

section \<open>Process streams\<close>

definition StdinLockFailed :: error where
  "StdinLockFailed = Msg ''process stdin lock failed''"

definition StdinClosed :: error where
  "StdinClosed = Msg ''process stdin is closed''"

definition CaptureLockFailed :: "string \<Rightarrow> error" where
  "CaptureLockFailed stream = Msg (''captured '' @ stream @ '' lock failed'')"

section \<open>The Python interface\<close>

definition StateLockFailed :: error where
  "StateLockFailed = Msg ''sandbox state lock failed''"

definition CancellationLockFailed :: error where
  "CancellationLockFailed = Msg ''process cancellation lock failed''"

definition VirtualProcessLockFailed :: error where
  "VirtualProcessLockFailed = Msg ''virtual process lock failed''"

definition VirtualProcessNotFound :: error where
  "VirtualProcessNotFound = Msg ''virtual process request not found''"

definition EventStreamClosed :: error where
  "EventStreamClosed = Msg ''sandbox event stream closed''"

definition VirtualStreamClosed :: error where
  "VirtualStreamClosed = Msg ''virtual process stream closed''"

definition WaitChannelClosed :: error where
  "WaitChannelClosed = Msg ''process wait channel closed''"

end
