(* ===== verification/Wire.thy ===== *)
theory Wire
  imports Errors
begin

text \<open>
  The two binary formats between a guest's virtual executable and the host, from \<open>src/core.rs\<close>:
  requests (magic \<open>UXV1\<close>, read with \<open>BinaryCursor\<close> by \<open>parse_guest_virtual_process_payload\<close>) and
  responses (magic \<open>UXR1\<close>, \<open>encode_virtual_process_response\<close> and
  \<open>decode_virtual_process_response\<close>). Base64, which is a crate, is the parameter \<open>b64\<close>.
\<close>

section \<open>Reading with a cursor\<close>

record binary_cursor =
  bc_data :: bytes
  bc_cursor :: nat

definition cursor_new :: "bytes \<Rightarrow> binary_cursor" where
  "cursor_new data = \<lparr>bc_data = data, bc_cursor = 0\<rparr>"

definition read_bytes :: "nat \<Rightarrow> binary_cursor \<Rightarrow> (error + bytes) \<times> binary_cursor" where
  "read_bytes len c =
     (case checked_add (bc_cursor c) len of
        None \<Rightarrow> (Inl PayloadTooLarge, c)
      | Some end' \<Rightarrow>
          if length (bc_data c) < end' then (Inl PayloadTruncated, c)
          else (Inr (take (end' - bc_cursor c) (drop (bc_cursor c) (bc_data c))), c\<lparr>bc_cursor := end'\<rparr>))"

definition expect_magic :: "bytes \<Rightarrow> binary_cursor \<Rightarrow> (error + unit) \<times> binary_cursor" where
  "expect_magic expected c =
     (case read_bytes (length expected) c of
        (Inl e, c') \<Rightarrow> (Inl e, c')
      | (Inr actual, c') \<Rightarrow> if actual = expected then (Inr (), c') else (Inl InvalidMagic, c'))"

definition read_u32 :: "binary_cursor \<Rightarrow> (error + u32) \<times> binary_cursor" where
  "read_u32 c =
     (case read_bytes 4 c of
        (Inl e, c') \<Rightarrow> (Inl e, c')
      | (Inr bytes, c') \<Rightarrow> (Inr (from_le_bytes bytes), c'))"

text \<open>\<open>String::from_utf8\<close> accepts exactly the well-formed UTF-8 byte sequences.\<close>

definition from_utf8 :: "bytes \<Rightarrow> error + string" where
  "from_utf8 bs = (if utf8_valid (map unat bs) then Inr (from_bytes bs) else Inl (Foreign 0))"

definition read_string :: "binary_cursor \<Rightarrow> (error + string) \<times> binary_cursor" where
  "read_string c =
     (case read_u32 c of
        (Inl e, c') \<Rightarrow> (Inl e, c')
      | (Inr len, c') \<Rightarrow>
          (case read_bytes (unat len) c' of
             (Inl e, c'') \<Rightarrow> (Inl e, c'')
           | (Inr bytes, c'') \<Rightarrow>
               (case from_utf8 bytes of
                  Inl e \<Rightarrow> (Inl (Context ''binary payload string is not UTF-8'' e), c'')
                | Inr s \<Rightarrow> (Inr s, c''))))"

section \<open>Requests\<close>

record guest_payload =
  gp_executable_path :: string
  gp_argv :: "string list"
  gp_cwd :: string
  gp_env :: "(string \<times> string) list"
  gp_stdin :: string

fun read_argv :: "nat \<Rightarrow> binary_cursor \<Rightarrow> (error + string list) \<times> binary_cursor" where
  "read_argv 0 c = (Inr [], c)"
| "read_argv (Suc n) c =
     (case read_string c of
        (Inl e, c') \<Rightarrow> (Inl e, c')
      | (Inr s, c') \<Rightarrow>
          (case read_argv n c' of
             (Inl e, c'') \<Rightarrow> (Inl e, c'')
           | (Inr ss, c'') \<Rightarrow> (Inr (s # ss), c'')))"

definition insert_env :: "string \<Rightarrow> (string \<times> string) list \<Rightarrow> (string \<times> string) list" where
  "insert_env item env =
     (case split_once CHR ''='' item of
        None \<Rightarrow> env
      | Some (key, value) \<Rightarrow> AList.update key value env)"

fun read_env ::
  "nat \<Rightarrow> (string \<times> string) list \<Rightarrow> binary_cursor \<Rightarrow> (error + (string \<times> string) list) \<times> binary_cursor" where
  "read_env 0 env c = (Inr env, c)"
| "read_env (Suc n) env c =
     (case read_string c of
        (Inl e, c') \<Rightarrow> (Inl e, c')
      | (Inr item, c') \<Rightarrow> read_env n (insert_env item env) c')"

definition request_magic :: bytes where
  "request_magic = into_bytes ''UXV1''"

definition parse_guest_payload :: "(bytes \<Rightarrow> string) \<Rightarrow> bytes \<Rightarrow> error + guest_payload" where
  "parse_guest_payload b64 data =
     (case expect_magic request_magic (cursor_new data) of (Inl e, _) \<Rightarrow> Inl e | (Inr _, c1) \<Rightarrow>
     (case read_string c1 of (Inl e, _) \<Rightarrow> Inl e | (Inr executable_path, c2) \<Rightarrow>
     (case read_u32 c2 of (Inl e, _) \<Rightarrow> Inl e | (Inr argc, c3) \<Rightarrow>
     (case read_u32 c3 of (Inl e, _) \<Rightarrow> Inl e | (Inr envc, c4) \<Rightarrow>
     (case read_u32 c4 of (Inl e, _) \<Rightarrow> Inl e | (Inr stdin_len, c5) \<Rightarrow>
     (case read_argv (unat argc) c5 of (Inl e, _) \<Rightarrow> Inl e | (Inr argv, c6) \<Rightarrow>
     (case read_env (unat envc) [] c6 of (Inl e, _) \<Rightarrow> Inl e | (Inr env, c7) \<Rightarrow>
     (case read_bytes (unat stdin_len) c7 of (Inl e, _) \<Rightarrow> Inl e | (Inr stdin, c8) \<Rightarrow>
        let cwd = (case map_of env ''PWD'' of None \<Rightarrow> ''/'' | Some v \<Rightarrow> v) in
        Inr \<lparr>gp_executable_path = executable_path, gp_argv = argv, gp_cwd = cwd, gp_env = env,
             gp_stdin = b64 stdin\<rparr>))))))))"

text \<open>
  The capacity that the parser reserves for \<open>argv\<close> before it has read a single argument
  (\<open>Vec::with_capacity(argc)\<close>), when it gets that far.
\<close>

definition reserved_argv :: "bytes \<Rightarrow> nat option" where
  "reserved_argv data =
     (case expect_magic request_magic (cursor_new data) of (Inl e, _) \<Rightarrow> None | (Inr _, c1) \<Rightarrow>
     (case read_string c1 of (Inl e, _) \<Rightarrow> None | (Inr executable_path, c2) \<Rightarrow>
     (case read_u32 c2 of (Inl e, _) \<Rightarrow> None | (Inr argc, c3) \<Rightarrow>
     (case read_u32 c3 of (Inl e, _) \<Rightarrow> None | (Inr envc, c4) \<Rightarrow>
     (case read_u32 c4 of (Inl e, _) \<Rightarrow> None | (Inr stdin_len, c5) \<Rightarrow> Some (unat argc))))))"

section \<open>Responses\<close>

record response_payload =
  rp_returncode :: i32
  rp_stdout :: bytes
  rp_stderr :: bytes

definition response_magic :: bytes where
  "response_magic = into_bytes ''UXR1''"

definition encode_response :: "response_payload \<Rightarrow> bytes" where
  "encode_response r =
     response_magic @ to_le_bytes (rp_returncode r) @
     to_le_bytes (of_nat (length (rp_stdout r))) @ to_le_bytes (of_nat (length (rp_stderr r))) @
     rp_stdout r @ rp_stderr r"

definition sub_slice :: "nat \<Rightarrow> nat \<Rightarrow> 'a list \<Rightarrow> 'a list" where
  "sub_slice start end' xs = take (end' - start) (drop start xs)"

definition decode_response :: "bytes \<Rightarrow> error + response_payload" where
  "decode_response data =
     (if length data < 16 \<or> take 4 data \<noteq> response_magic then Inl InvalidResponseHeader
      else
        let returncode = from_le_bytes (sub_slice 4 8 data);
            stdout_len = unat (from_le_bytes (sub_slice 8 12 data));
            stderr_len = unat (from_le_bytes (sub_slice 12 16 data))
        in case Option.bind (checked_add 16 stdout_len) (\<lambda>value. checked_add value stderr_len) of
             None \<Rightarrow> Inl ResponseTooLarge
           | Some expected_len \<Rightarrow>
               if length data < expected_len then Inl ResponseTruncated
               else
                 let stdout_start = 16;
                     stderr_start = stdout_start + stdout_len
                 in Inr \<lparr>rp_returncode = returncode,
                         rp_stdout = sub_slice stdout_start stderr_start data,
                         rp_stderr = sub_slice stderr_start expected_len data\<rparr>)"

definition error_response :: "string \<Rightarrow> bytes" where
  "error_response message =
     encode_response \<lparr>rp_returncode = 126, rp_stdout = [],
       rp_stderr = into_bytes (message @ [CHR 0x0A])\<rparr>"

section \<open>The request format\<close>

text \<open>The layout of a request: a header, then length-prefixed strings, then the input bytes.\<close>

definition string_record :: "string \<Rightarrow> bytes" where
  "string_record str = to_le_bytes (of_nat (length str)) @ into_bytes str"

definition request_layout :: "string \<Rightarrow> string list \<Rightarrow> string list \<Rightarrow> bytes \<Rightarrow> bytes" where
  "request_layout executable_path argv items stdin =
     request_magic @ string_record executable_path @
     to_le_bytes (of_nat (length argv)) @ to_le_bytes (of_nat (length items)) @
     to_le_bytes (of_nat (length stdin)) @
     concat (map string_record argv) @ concat (map string_record items) @ stdin"

definition wire_string :: "string \<Rightarrow> bool" where
  "wire_string str \<longleftrightarrow> length str < 2 ^ 32 \<and> utf8_valid (map unat (into_bytes str))"

definition env_of_items :: "string list \<Rightarrow> (string \<times> string) list" where
  "env_of_items items = fold insert_env items []"

text \<open>\<open>cursor_at rest c\<close>: the cursor is inside its data and \<open>rest\<close> is what it has not read yet.\<close>

definition cursor_at :: "bytes \<Rightarrow> binary_cursor \<Rightarrow> bool" where
  "cursor_at rest c \<longleftrightarrow>
     bc_cursor c \<le> length (bc_data c) \<and> length (bc_data c) \<le> usize_max \<and>
     drop (bc_cursor c) (bc_data c) = rest"

lemma cursor_at_new: "length data \<le> usize_max \<Longrightarrow> cursor_at data (cursor_new data)"
  by (simp add: cursor_at_def cursor_new_def)

lemma read_bytes_at:
  assumes "cursor_at (xs @ rest) c" and "length xs = n"
  shows "\<exists>c'. read_bytes n c = (Inr xs, c') \<and> cursor_at rest c'"
proof -
  have "length (drop (bc_cursor c) (bc_data c)) = n + length rest"
    using assms by (simp add: cursor_at_def)
  moreover have "drop (bc_cursor c + n) (bc_data c) = rest"
    using assms by (metis add.commute append_eq_conv_conj cursor_at_def drop_drop)
  ultimately show ?thesis
    using assms by (auto simp: cursor_at_def read_bytes_def checked_add_def)
qed

lemma read_bytes_InrD:
  assumes "cursor_at bs c" and "read_bytes n c = (Inr xs, c')"
  shows "\<exists>rest. bs = xs @ rest \<and> length xs = n \<and> cursor_at rest c'"
proof -
  from assms have le: "bc_cursor c + n \<le> length (bc_data c)" and xs: "xs = take n bs"
    and c': "c' = c\<lparr>bc_cursor := bc_cursor c + n\<rparr>"
    by (auto simp: cursor_at_def read_bytes_def split: option.splits if_splits)
  have "bs = xs @ drop n bs" using xs by simp
  moreover have "cursor_at (drop n bs) c'"
    using assms(1) le c' by (auto simp: cursor_at_def add.commute)
  moreover have "length xs = n" using xs le assms(1) by (auto simp: cursor_at_def)
  ultimately show ?thesis by blast
qed

lemma read_u32_at:
  assumes "cursor_at (to_le_bytes w @ rest) c"
  shows "\<exists>c'. read_u32 c = (Inr w, c') \<and> cursor_at rest c'"
  using read_bytes_at [OF assms] by (auto simp: read_u32_def)

lemma read_u32_InrD:
  assumes "cursor_at bs c" and "read_u32 c = (Inr w, c')"
  shows "\<exists>rest. bs = to_le_bytes w @ rest \<and> cursor_at rest c'"
proof -
  from assms(2) obtain xs where xs: "read_bytes 4 c = (Inr xs, c')" "w = from_le_bytes xs"
    by (auto simp: read_u32_def split: prod.splits sum.splits)
  from read_bytes_InrD [OF assms(1) xs(1)] show ?thesis using xs(2) by (auto simp: to_from_le_bytes)
qed

lemma read_string_at:
  assumes "cursor_at (string_record str @ rest) c" and "wire_string str"
  shows "\<exists>c'. read_string c = (Inr str, c') \<and> cursor_at rest c'"
proof -
  obtain c1 where 1: "read_u32 c = (Inr (of_nat (length str)), c1)" "cursor_at (into_bytes str @ rest) c1"
    using read_u32_at [of _ "into_bytes str @ rest"] assms(1) by (auto simp: string_record_def)
  have "unat (of_nat (length str) :: u32) = length str"
    using assms(2) by (simp add: wire_string_def unat_of_nat_u32)
  then obtain c2 where "read_bytes (unat (of_nat (length str) :: u32)) c1 = (Inr (into_bytes str), c2)"
    "cursor_at rest c2"
    using read_bytes_at [OF 1(2)] by auto
  then show ?thesis using 1(1) assms(2) by (simp add: read_string_def from_utf8_def wire_string_def)
qed

lemma read_string_InrD:
  assumes "cursor_at bs c" and "read_string c = (Inr str, c')"
  shows "\<exists>rest. bs = string_record str @ rest \<and> wire_string str \<and> cursor_at rest c'"
proof -
  from assms(2) obtain len c1 xs where 1: "read_u32 c = (Inr len, c1)"
    and 2: "read_bytes (unat len) c1 = (Inr xs, c')" and 3: "from_utf8 xs = Inr str"
    by (auto simp: read_string_def split: prod.splits sum.splits)
  from read_u32_InrD [OF assms(1) 1] obtain r1 where r1: "bs = to_le_bytes len @ r1" "cursor_at r1 c1" by auto
  from read_bytes_InrD [OF r1(2) 2] obtain r2 where r2: "r1 = xs @ r2" "length xs = unat len" "cursor_at r2 c'"
    by auto
  have str: "into_bytes str = xs" "utf8_valid (map unat xs)"
    using 3 by (auto simp: from_utf8_def split: if_splits)
  then have "of_nat (length str) = len" "length str < 2 ^ 32"
    using r2(2) unat_u32_less [of len] by (auto simp flip: length_into_bytes)
  with r1 r2 str show ?thesis by (auto simp: string_record_def wire_string_def)
qed

lemma read_argv_at:
  assumes "cursor_at (concat (map string_record strs) @ rest) c" and "list_all wire_string strs"
  shows "\<exists>c'. read_argv (length strs) c = (Inr strs, c') \<and> cursor_at rest c'"
  using assms
proof (induction strs arbitrary: c)
  case (Cons str strs)
  from Cons.prems obtain c1 where 1: "read_string c = (Inr str, c1)"
    and at1: "cursor_at (concat (map string_record strs) @ rest) c1"
    using read_string_at [of str "concat (map string_record strs) @ rest" c] by auto
  from Cons.IH [OF at1] Cons.prems(2) 1 show ?case by auto
qed simp

lemma read_argv_InrD:
  assumes "cursor_at bs c" and "read_argv n c = (Inr strs, c')"
  shows "\<exists>rest. bs = concat (map string_record strs) @ rest \<and> length strs = n \<and>
           list_all wire_string strs \<and> cursor_at rest c'"
  using assms
proof (induction n arbitrary: bs c strs)
  case (Suc n)
  from Suc.prems(2) obtain str strs' c1 where 1: "read_string c = (Inr str, c1)"
    and 2: "read_argv n c1 = (Inr strs', c')" and strs: "strs = str # strs'"
    by (auto split: prod.splits sum.splits)
  from read_string_InrD [OF Suc.prems(1) 1] obtain r where "bs = string_record str @ r" "wire_string str"
    "cursor_at r c1" by auto
  with Suc.IH [OF _ 2] strs show ?case by auto
qed simp

lemma read_env_at:
  assumes "cursor_at (concat (map string_record items) @ rest) c" and "list_all wire_string items"
  shows "\<exists>c'. read_env (length items) env c = (Inr (fold insert_env items env), c') \<and> cursor_at rest c'"
  using assms
proof (induction items arbitrary: c env)
  case (Cons item items)
  from Cons.prems obtain c1 where 1: "read_string c = (Inr item, c1)"
    and at1: "cursor_at (concat (map string_record items) @ rest) c1"
    using read_string_at [of item "concat (map string_record items) @ rest" c] by auto
  from Cons.IH [OF at1] Cons.prems(2) 1 show ?case by auto
qed simp

lemma read_env_InrD:
  assumes "cursor_at bs c" and "read_env n env c = (Inr env', c')"
  shows "\<exists>items rest. bs = concat (map string_record items) @ rest \<and> length items = n \<and>
           env' = fold insert_env items env \<and> list_all wire_string items \<and> cursor_at rest c'"
  using assms
proof (induction n arbitrary: bs c env)
  case (Suc n)
  from Suc.prems(2) obtain item c1 where 1: "read_string c = (Inr item, c1)"
    and 2: "read_env n (insert_env item env) c1 = (Inr env', c')"
    by (auto split: prod.splits sum.splits)
  from read_string_InrD [OF Suc.prems(1) 1] obtain r where r: "bs = string_record item @ r" "wire_string item"
    "cursor_at r c1" by auto
  from Suc.IH [OF r(3) 2] obtain items rest where "r = concat (map string_record items) @ rest"
    "length items = n" "env' = fold insert_env items (insert_env item env)" "list_all wire_string items"
    "cursor_at rest c'" by auto
  with r show ?case by (intro exI [of _ "item # items"] exI [of _ rest]) simp
qed auto

lemma expect_magic_at:
  assumes "cursor_at (magic @ rest) c"
  shows "\<exists>c'. expect_magic magic c = (Inr (), c') \<and> cursor_at rest c'"
  using read_bytes_at [OF assms refl] by (auto simp: expect_magic_def)

lemma expect_magic_InrD:
  assumes "cursor_at bs c" and "expect_magic magic c = (Inr u, c')"
  shows "\<exists>rest. bs = magic @ rest \<and> cursor_at rest c'"
proof -
  from assms(2) have "read_bytes (length magic) c = (Inr magic, c')"
    by (auto simp: expect_magic_def split: prod.splits sum.splits if_splits)
  from read_bytes_InrD [OF assms(1) this] show ?thesis by auto
qed

lemmas readers_at = expect_magic_at read_string_at read_u32_at read_argv_at read_env_at read_bytes_at

definition payload_of ::
  "(bytes \<Rightarrow> string) \<Rightarrow> string \<Rightarrow> string list \<Rightarrow> string list \<Rightarrow> bytes \<Rightarrow> guest_payload" where
  "payload_of b64 executable_path argv items stdin =
     \<lparr>gp_executable_path = executable_path, gp_argv = argv,
      gp_cwd = (case map_of (env_of_items items) ''PWD'' of None \<Rightarrow> ''/'' | Some v \<Rightarrow> v),
      gp_env = env_of_items items, gp_stdin = b64 stdin\<rparr>"

definition wire_request :: "string \<Rightarrow> string list \<Rightarrow> string list \<Rightarrow> bytes \<Rightarrow> bool" where
  "wire_request executable_path argv items stdin \<longleftrightarrow>
     wire_string executable_path \<and> list_all wire_string argv \<and> list_all wire_string items \<and>
     length argv < 2 ^ 32 \<and> length items < 2 ^ 32 \<and> length stdin < 2 ^ 32"

lemma parse_layout:
  assumes "wire_request path argv items stdin"
    and "length (request_layout path argv items stdin @ junk) \<le> usize_max"
  shows "parse_guest_payload b64 (request_layout path argv items stdin @ junk) =
           Inr (payload_of b64 path argv items stdin)"
proof -
  let ?data = "request_layout path argv items stdin @ junk"
  note w = assms(1) [unfolded wire_request_def]
  have lens: "unat (of_nat (length argv) :: u32) = length argv" "unat (of_nat (length items) :: u32) = length items"
    "unat (of_nat (length stdin) :: u32) = length stdin"
    using w by (simp_all add: unat_of_nat_u32)
  note cursor_at_new [OF assms(2), unfolded request_layout_def append_assoc]
  from expect_magic_at [OF this] obtain c1 where 1: "expect_magic request_magic (cursor_new ?data) = (Inr (), c1)"
    and "cursor_at (string_record path @ to_le_bytes (of_nat (length argv)) @ to_le_bytes (of_nat (length items)) @
      to_le_bytes (of_nat (length stdin)) @ concat (map string_record argv) @ concat (map string_record items) @
      stdin @ junk) c1" by (auto simp: request_layout_def)
  from read_string_at [OF this(2)] w obtain c2 where 2: "read_string c1 = (Inr path, c2)" and a2: "cursor_at (to_le_bytes (of_nat (length argv)) @
      to_le_bytes (of_nat (length items)) @ to_le_bytes (of_nat (length stdin)) @ concat (map string_record argv) @
      concat (map string_record items) @ stdin @ junk) c2" by auto
  from read_u32_at [OF a2] obtain c3 where 3: "read_u32 c2 = (Inr (of_nat (length argv)), c3)" and a3: "cursor_at (to_le_bytes (of_nat (length items)) @
      to_le_bytes (of_nat (length stdin)) @ concat (map string_record argv) @ concat (map string_record items) @ stdin @ junk) c3"
    by auto
  from read_u32_at [OF a3] obtain c4 where 4: "read_u32 c3 = (Inr (of_nat (length items)), c4)" and a4: "cursor_at (
      to_le_bytes (of_nat (length stdin)) @ concat (map string_record argv) @ concat (map string_record items) @ stdin @ junk) c4"
    by auto
  from read_u32_at [OF a4] obtain c5 where 5: "read_u32 c4 = (Inr (of_nat (length stdin)), c5)" and a5: "cursor_at (
      concat (map string_record argv) @ concat (map string_record items) @ stdin @ junk) c5" by auto
  from read_argv_at [OF a5] w obtain c6 where 6: "read_argv (length argv) c5 = (Inr argv, c6)"
    and a6: "cursor_at (concat (map string_record items) @ stdin @ junk) c6" by auto
  from read_env_at [OF a6] w obtain c7 where 7: "read_env (length items) [] c6 = (Inr (env_of_items items), c7)"
    and a7: "cursor_at (stdin @ junk) c7" by (auto simp: env_of_items_def)
  from read_bytes_at [OF a7 refl] obtain c8 where 8: "read_bytes (length stdin) c7 = (Inr stdin, c8)" by auto
  show ?thesis
    by (simp add: parse_guest_payload_def 1 2 3 4 5 6 7 8 lens payload_of_def)
qed

lemma parse_InrD:
  assumes "parse_guest_payload b64 data = Inr p" and "length data \<le> usize_max"
  shows "\<exists>path argv items stdin junk. data = request_layout path argv items stdin @ junk \<and>
           wire_request path argv items stdin \<and> p = payload_of b64 path argv items stdin"
proof -
  from assms(1) obtain c1 path c2 argc c3 envc c4 stdin_len c5 argv c6 env c7 stdin c8 where
    r: "expect_magic request_magic (cursor_new data) = (Inr (), c1)" "read_string c1 = (Inr path, c2)"
      "read_u32 c2 = (Inr argc, c3)" "read_u32 c3 = (Inr envc, c4)" "read_u32 c4 = (Inr stdin_len, c5)"
      "read_argv (unat argc) c5 = (Inr argv, c6)" "read_env (unat envc) [] c6 = (Inr env, c7)"
      "read_bytes (unat stdin_len) c7 = (Inr stdin, c8)"
    and p: "p = \<lparr>gp_executable_path = path, gp_argv = argv,
      gp_cwd = (case map_of env ''PWD'' of None \<Rightarrow> ''/'' | Some v \<Rightarrow> v), gp_env = env, gp_stdin = b64 stdin\<rparr>"
    by (auto simp: parse_guest_payload_def Let_def split: prod.splits sum.splits)
  from expect_magic_InrD [OF cursor_at_new [OF assms(2)] r(1)] obtain d1 where
    d1: "data = request_magic @ d1" "cursor_at d1 c1" by auto
  from read_string_InrD [OF d1(2) r(2)] obtain d2 where
    d2: "d1 = string_record path @ d2" "wire_string path" "cursor_at d2 c2" by auto
  from read_u32_InrD [OF d2(3) r(3)] obtain d3 where d3: "d2 = to_le_bytes argc @ d3" "cursor_at d3 c3" by auto
  from read_u32_InrD [OF d3(2) r(4)] obtain d4 where d4: "d3 = to_le_bytes envc @ d4" "cursor_at d4 c4" by auto
  from read_u32_InrD [OF d4(2) r(5)] obtain d5 where d5: "d4 = to_le_bytes stdin_len @ d5" "cursor_at d5 c5" by auto
  from read_argv_InrD [OF d5(2) r(6)] obtain d6 where d6: "d5 = concat (map string_record argv) @ d6"
    "length argv = unat argc" "list_all wire_string argv" "cursor_at d6 c6" by auto
  from read_env_InrD [OF d6(4) r(7)] obtain items d7 where d7: "d6 = concat (map string_record items) @ d7"
    "length items = unat envc" "env = fold insert_env items []" "list_all wire_string items" "cursor_at d7 c7" by auto
  from read_bytes_InrD [OF d7(5) r(8)] obtain junk where d8: "d7 = stdin @ junk" "length stdin = unat stdin_len" by auto
  have "wire_request path argv items stdin"
    using d2 d6 d7 d8 unat_u32_less by (simp add: wire_request_def)
  moreover have "data = request_layout path argv items stdin @ junk"
    using d1(1) d2(1) d3(1) d4(1) d5(1) d6(1,2) d7(1,2) d8 by (simp add: request_layout_def)
  moreover have "p = payload_of b64 path argv items stdin"
    using p d7(3) by (simp add: payload_of_def env_of_items_def)
  ultimately show ?thesis by blast
qed

text \<open>
  C23. The request parser is exact. It accepts a byte sequence if and only if the sequence starts
  with a well-formed request, and then it returns that request's path, arguments, environment and
  input: nothing is misread, and no field is taken from beyond the payload. (A payload is a Rust
  vector, so its length fits a \<open>usize\<close>.)
\<close>

theorem parse_guest_payload_exact:
  assumes "length data \<le> usize_max"
  shows "parse_guest_payload b64 data = Inr p \<longleftrightarrow>
           (\<exists>path argv items stdin junk. data = request_layout path argv items stdin @ junk \<and>
              wire_request path argv items stdin \<and> p = payload_of b64 path argv items stdin)"
  using assms parse_InrD [of b64 data p] by (auto simp: parse_layout)

theorem parse_guest_payload_exact_witness:
  "parse_guest_payload (\<lambda>_. ''QQ=='')
     (request_layout ''/bin/t'' [''t'', ''x''] [''PWD=/work'', ''A=1''] [65]) =
   Inr \<lparr>gp_executable_path = ''/bin/t'', gp_argv = [''t'', ''x''], gp_cwd = ''/work'',
        gp_env = [(''PWD'', ''/work''), (''A'', ''1'')], gp_stdin = ''QQ==''\<rparr>"
proof -
  let ?data = "request_layout ''/bin/t'' [''t'', ''x''] [''PWD=/work'', ''A=1''] [65]"
  have len: "length ?data \<le> usize_max"
    by (simp add: request_layout_def request_magic_def string_record_def usize_max_def)
  have wf: "wire_request ''/bin/t'' [''t'', ''x''] [''PWD=/work'', ''A=1''] [65]"
    by (simp add: wire_request_def wire_string_def into_bytes_def byte_of_char_def)
  have eq: "payload_of (\<lambda>_. ''QQ=='') ''/bin/t'' [''t'', ''x''] [''PWD=/work'', ''A=1''] [65] =
      \<lparr>gp_executable_path = ''/bin/t'', gp_argv = [''t'', ''x''], gp_cwd = ''/work'',
        gp_env = [(''PWD'', ''/work''), (''A'', ''1'')], gp_stdin = ''QQ==''\<rparr>"
    by (simp add: payload_of_def env_of_items_def insert_env_def)
  have "?data = ?data @ []" by simp
  then show ?thesis using parse_guest_payload_exact [OF len] wf eq by metis
qed

lemma read_argv_fail: "read_string c = (Inl e, c') \<Longrightarrow> 0 < n \<Longrightarrow> read_argv n c = (Inl e, c')"
  by (cases n) simp_all

text \<open>
  The parser reserves memory before it validates: a guest that opens the bridge device itself
  and writes 20 bytes makes the host reserve room for \<open>2 ^ 32 - 1\<close> arguments, and only then is the
  payload found to be truncated. The reservation is bounded by a number the guest chooses, not by
  the size of what it sent.
\<close>

theorem reservation_not_bounded_by_payload:
  "\<exists>data. length data = 20 \<and> reserved_argv data = Some (2 ^ 32 - 1) \<and>
     parse_guest_payload b64 data = Inl PayloadTruncated"
proof (intro exI conjI)
  let ?data = "request_magic @ [0, 0, 0, 0, 255, 255, 255, 255, 0, 0, 0, 0, 0, 0, 0, 0]"
  have argc: "from_le_bytes [255, 255, 255, 255] = 0xFFFFFFFF"
    by (simp add: from_le_bytes_def)
  have zero: "from_le_bytes [0, 0, 0, 0] = 0" by (simp add: from_le_bytes_def)
  note steps = expect_magic_def read_string_def read_u32_def read_bytes_def cursor_new_def
    request_magic_def into_bytes_def checked_add_def usize_max_def from_utf8_def from_bytes_def
  show "length ?data = 20" by (simp add: request_magic_def)
  show "reserved_argv ?data = Some (2 ^ 32 - 1)"
    by (simp add: reserved_argv_def steps zero argc)
  show "parse_guest_payload b64 ?data = Inl PayloadTruncated"
    by (simp add: parse_guest_payload_def steps zero argc read_argv_fail)
qed

section \<open>The response format\<close>

lemma decode_encode:
  assumes "length (rp_stdout r) < 2 ^ 32" and "length (rp_stderr r) < 2 ^ 32"
  shows "decode_response (encode_response r @ junk) = Inr r"
proof -
  have len: "length response_magic = 4" by (simp add: response_magic_def)
  have s1: "sub_slice 4 8 (encode_response r @ junk) = to_le_bytes (rp_returncode r)"
    and s2: "sub_slice 8 12 (encode_response r @ junk) = to_le_bytes (of_nat (length (rp_stdout r)))"
    and s3: "sub_slice 12 16 (encode_response r @ junk) = to_le_bytes (of_nat (length (rp_stderr r)))"
    and magic: "take 4 (encode_response r @ junk) = response_magic"
    by (simp_all add: sub_slice_def encode_response_def len)
  have "16 + length (rp_stdout r) + length (rp_stderr r) \<le> usize_max"
    using assms by (simp add: usize_max_def)
  then show ?thesis
    using assms
    by (simp add: decode_response_def s1 s2 s3 magic unat_of_nat_u32 checked_add_def Let_def)
      (simp add: sub_slice_def encode_response_def len)
qed

lemma decode_InrD:
  assumes "decode_response data = Inr r"
  shows "\<exists>junk. data = encode_response r @ junk \<and> length (rp_stdout r) < 2 ^ 32 \<and> length (rp_stderr r) < 2 ^ 32"
proof -
  let ?o = "from_le_bytes (sub_slice 8 12 data)" and ?e = "from_le_bytes (sub_slice 12 16 data)"
  from assms have hdr: "16 \<le> length data" "take 4 data = response_magic"
    and all: "16 + unat ?o + unat ?e \<le> length data"
    and r: "r = \<lparr>rp_returncode = from_le_bytes (sub_slice 4 8 data), rp_stdout = sub_slice 16 (16 + unat ?o) data,
        rp_stderr = sub_slice (16 + unat ?o) (16 + unat ?o + unat ?e) data\<rparr>"
    by (auto simp: decode_response_def Let_def not_less not_le bind_eq_Some_conv
        split: if_splits option.splits)
  have lens: "length (rp_stdout r) = unat ?o" "length (rp_stderr r) = unat ?e"
    using all r by (simp_all add: sub_slice_def)
  have le: "to_le_bytes (from_le_bytes (sub_slice k (k + 4) data)) = sub_slice k (k + 4) data" if "k \<le> 12" for k
    using hdr(1) that by (intro to_from_le_bytes) (simp add: sub_slice_def)
  have "encode_response r = take 4 data @ sub_slice 4 8 data @ sub_slice 8 12 data @ sub_slice 12 16 data @
      sub_slice 16 (16 + unat ?o) data @ sub_slice (16 + unat ?o) (16 + unat ?o + unat ?e) data"
    using le [of 4] le [of 8] le [of 12] lens hdr(2) r by (simp add: encode_response_def)
  also have "\<dots> = take (16 + unat ?o + unat ?e) data"
    using take_add [of 4 12 data] take_add [of 4 8 "drop 4 data"] take_add [of 4 4 "drop 8 data"]
    by (simp add: sub_slice_def take_add)
  finally have "data = encode_response r @ drop (16 + unat ?o + unat ?e) data" by simp
  then show ?thesis using lens unat_u32_less by metis
qed

text \<open>
  C26. Decoding a response inverts encoding it, and nothing else decodes: a byte sequence is
  accepted exactly when it starts with the encoding of the returned response, for outputs below
  4 GiB each. Lengths larger than the data are always refused.
\<close>

theorem decode_response_exact:
  "decode_response data = Inr r \<longleftrightarrow>
     (\<exists>junk. data = encode_response r @ junk \<and>
        length (rp_stdout r) < 2 ^ 32 \<and> length (rp_stderr r) < 2 ^ 32)"
  using decode_InrD decode_encode by blast

lemma decode_error_response:
  "length message < 2 ^ 32 - 1 \<Longrightarrow>
     decode_response (error_response message) =
       Inr \<lparr>rp_returncode = 126, rp_stdout = [], rp_stderr = into_bytes (message @ [CHR 0x0A])\<rparr>"
  using decode_encode [of "\<lparr>rp_returncode = 126, rp_stdout = [], rp_stderr = into_bytes (message @ [CHR 0x0A])\<rparr>" "[]"]
  by (simp add: error_response_def)

end
