(* ===== verification/Launcher.thy ===== *)
theory Launcher
  imports Wire
begin

text \<open>
  The launcher: the WebAssembly program that \<open>src/core.rs\<close> writes to every path of a virtual executable
  (the text \<open>VIRTUAL_EXECUTABLE_WASM\<close>). Its functions \<open>$strlen\<close>, \<open>$write_record\<close> and \<open>$_start\<close> run on a
  linear memory of 256 pages; an access outside of it traps, which is \<open>None\<close> here. The WASI calls that
  write the arguments and the environment into memory are those of \<open>vendor/wasmer-wasix\<close>
  (\<open>write_buffer_array\<close>); the calls on file descriptors are the argument \<open>wasi\<close>. A WebAssembly \<open>i32\<close> is
  the natural number below \<open>2 ^ 32\<close> that it is as an unsigned integer.
\<close>

section \<open>Linear memory\<close>

type_synonym mem = "nat \<Rightarrow> u8"

definition mem_size :: nat where
  "mem_size = 256 * 65536"

definition in_bounds :: "nat \<Rightarrow> nat \<Rightarrow> bool" where
  "in_bounds a n \<longleftrightarrow> a + n \<le> mem_size"

definition put :: "nat \<Rightarrow> bytes \<Rightarrow> mem \<Rightarrow> mem" where
  "put a bs m = (\<lambda>i. if a \<le> i \<and> i < a + length bs then bs ! (i - a) else m i)"

definition get :: "nat \<Rightarrow> nat \<Rightarrow> mem \<Rightarrow> bytes" where
  "get a n m = map m [a..<a + n]"

definition i32_store :: "nat \<Rightarrow> nat \<Rightarrow> mem \<Rightarrow> mem option" where
  "i32_store a v m = (if in_bounds a 4 then Some (put a (to_le_bytes (of_nat v)) m) else None)"

definition i32_load :: "nat \<Rightarrow> mem \<Rightarrow> nat option" where
  "i32_load a m = (if in_bounds a 4 then Some (unat (from_le_bytes (get a 4 m))) else None)"

definition memory_copy :: "nat \<Rightarrow> nat \<Rightarrow> nat \<Rightarrow> mem \<Rightarrow> mem option" where
  "memory_copy to from n m =
     (if in_bounds to n \<and> in_bounds from n then Some (put to (get from n m) m) else None)"

definition add32 :: "nat \<Rightarrow> nat \<Rightarrow> nat" where
  "add32 a b = (a + b) mod 2 ^ 32"

definition sub32 :: "nat \<Rightarrow> nat \<Rightarrow> nat" where
  "sub32 a b = (a + 2 ^ 32 - b) mod 2 ^ 32"

section \<open>The module's globals\<close>

definition argc_ptr :: nat where "argc_ptr = 0"
definition argv_size_ptr :: nat where "argv_size_ptr = 4"
definition nread_ptr :: nat where "nread_ptr = 8"
definition fd_ptr :: nat where "fd_ptr = 12"
definition written_ptr :: nat where "written_ptr = 16"
definition envc_ptr :: nat where "envc_ptr = 20"
definition env_size_ptr :: nat where "env_size_ptr = 24"
definition device_name_ptr :: nat where "device_name_ptr = 64"
definition exec_path :: nat where "exec_path = 128"
definition iovec :: nat where "iovec = 512"
definition argv_ptrs :: nat where "argv_ptrs = 1024"
definition argv_buf :: nat where "argv_buf = 65536"
definition env_ptrs :: nat where "env_ptrs = 262144"
definition env_buf :: nat where "env_buf = 524288"
definition stdin_buf :: nat where "stdin_buf = 1048576"
definition request_buf :: nat where "request_buf = 2097152"
definition response_buf :: nat where "response_buf = 4194304"
definition response_cap :: nat where "response_cap = 8388608"

lemmas global_defs = argc_ptr_def argv_size_ptr_def nread_ptr_def fd_ptr_def written_ptr_def envc_ptr_def
  env_size_ptr_def device_name_ptr_def exec_path_def iovec_def argv_ptrs_def argv_buf_def env_ptrs_def
  env_buf_def stdin_buf_def request_buf_def response_buf_def response_cap_def

text \<open>Memory after instantiation: zeroes and the two data segments.\<close>

definition initial_mem :: "string \<Rightarrow> mem" where
  "initial_mem path =
     put exec_path (into_bytes path) (put device_name_ptr (into_bytes ''dev/unix-sandbox-virtual-exec'') (\<lambda>_. 0))"

section \<open>The functions\<close>

function strlen_loop :: "nat \<Rightarrow> mem \<Rightarrow> nat option" where
  "strlen_loop cursor m =
     (if in_bounds cursor 1 then
        if m cursor = 0 then Some cursor else strlen_loop (cursor + 1) m
      else None)"
  by pat_completeness auto
termination
  by (relation "measure (\<lambda>(cursor, _). mem_size - cursor)") (auto simp: in_bounds_def)

declare strlen_loop.simps [simp del]

definition strlen :: "nat \<Rightarrow> mem \<Rightarrow> nat option" where
  "strlen ptr m = map_option (\<lambda>cursor. cursor - ptr) (strlen_loop ptr m)"

definition write_record :: "nat \<Rightarrow> nat \<Rightarrow> mem \<Rightarrow> (nat \<times> mem) option" where
  "write_record cursor source m =
     Option.bind (strlen source m) (\<lambda>len.
     Option.bind (i32_store cursor len m) (\<lambda>m.
     let cursor = add32 cursor 4 in
     Option.bind (memory_copy cursor source len m) (\<lambda>m.
     Some (add32 cursor len, m))))"

text \<open>The two loops of \<open>$_start\<close> over the arguments and the environment.\<close>

function write_records :: "nat \<Rightarrow> nat \<Rightarrow> nat \<Rightarrow> nat \<Rightarrow> mem \<Rightarrow> (nat \<times> mem) option" where
  "write_records count_ptr ptrs index cursor m =
     (case i32_load count_ptr m of
        None \<Rightarrow> None
      | Some count \<Rightarrow>
          if count \<le> index then Some (cursor, m)
          else (case i32_load (add32 ptrs ((index * 4) mod 2 ^ 32)) m of
             None \<Rightarrow> None
           | Some source \<Rightarrow>
               (case write_record cursor source m of
                  None \<Rightarrow> None
                | Some (cursor, m) \<Rightarrow> write_records count_ptr ptrs (index + 1) cursor m)))"
  by pat_completeness auto
termination
proof (relation "measure (\<lambda>(_, _, index, _, _). 2 ^ 32 - index)")
  fix count_ptr ptrs index cursor m count source and p :: "nat \<times> mem" and cursor' m'
  assume "i32_load count_ptr m = Some count" "\<not> count \<le> index"
  moreover from this(1) have "count < 2 ^ 32"
    using unat_u32_less [of "from_le_bytes (get count_ptr 4 m)"] by (auto simp: i32_load_def split: if_splits)
  ultimately show "((count_ptr, ptrs, index + 1, cursor', m'), count_ptr, ptrs, index, cursor, m) \<in>
      measure (\<lambda>(_, _, index, _, _). 2 ^ 32 - index)" by simp
qed simp

declare write_records.simps [simp del]

text \<open>
  \<open>write_buffer_array\<close> of the WASI implementation, and whether it succeeded; the launcher ignores that.
\<close>

fun write_buffers :: "bytes list \<Rightarrow> nat \<Rightarrow> nat \<Rightarrow> mem \<Rightarrow> bool \<times> mem" where
  "write_buffers [] ptr new_ptr m = (True, m)"
| "write_buffers (sub_buffer # from) ptr new_ptr m =
     (let m = put ptr (to_le_bytes (of_nat new_ptr)) m in
      if in_bounds new_ptr (length sub_buffer) then
        let m = put new_ptr sub_buffer m in
        if in_bounds (new_ptr + length sub_buffer) 1 then
          write_buffers from (ptr + 4) (new_ptr + length sub_buffer + 1) (put (new_ptr + length sub_buffer) [0] m)
        else (False, m)
      else (False, m))"

definition write_buffer_array :: "bytes list \<Rightarrow> nat \<Rightarrow> nat \<Rightarrow> mem \<Rightarrow> bool \<times> mem" where
  "write_buffer_array from ptr_buffer buffer m =
     (if in_bounds ptr_buffer (4 * length from) then write_buffers from ptr_buffer buffer m else (False, m))"

definition sizes_get :: "bytes list \<Rightarrow> nat \<Rightarrow> nat \<Rightarrow> mem \<Rightarrow> mem" where
  "sizes_get items count_ptr size_ptr m =
     (let buf_size = (\<Sum>v\<leftarrow>items. length v + 1) in
      if length items < 2 ^ 32 \<and> buf_size < 2 ^ 32
      then put size_ptr (to_le_bytes (of_nat buf_size)) (put count_ptr (to_le_bytes (of_nat (length items))) m)
      else m)"

text \<open>The part of \<open>$_start\<close> that builds the request; the result is the end of the request.\<close>

definition start_memory :: "string \<Rightarrow> string list \<Rightarrow> string list \<Rightarrow> mem" where
  "start_memory path args envs =
     snd (write_buffer_array (map into_bytes envs) env_ptrs env_buf
       (sizes_get (map into_bytes envs) envc_ptr env_size_ptr
         (snd (write_buffer_array (map into_bytes args) argv_ptrs argv_buf
           (sizes_get (map into_bytes args) argc_ptr argv_size_ptr (initial_mem path))))))"

definition build_request :: "string \<Rightarrow> mem \<Rightarrow> (nat \<times> mem) option" where
  "build_request path m =
     (let stdin_len = 0; exec_path_len = length path; cursor = request_buf in
      Option.bind (i32_store cursor 0x31565855 m) (\<lambda>m.
      let cursor = add32 cursor 4 in
      Option.bind (i32_store cursor exec_path_len m) (\<lambda>m.
      let cursor = add32 cursor 4 in
      Option.bind (memory_copy cursor exec_path exec_path_len m) (\<lambda>m.
      let cursor = add32 cursor exec_path_len in
      Option.bind (i32_load argc_ptr m) (\<lambda>argc.
      Option.bind (i32_store cursor argc m) (\<lambda>m.
      let cursor = add32 cursor 4 in
      Option.bind (i32_load envc_ptr m) (\<lambda>envc.
      Option.bind (i32_store cursor envc m) (\<lambda>m.
      let cursor = add32 cursor 4 in
      Option.bind (i32_store cursor stdin_len m) (\<lambda>m.
      let cursor = add32 cursor 4 in
      Option.bind (write_records argc_ptr argv_ptrs 0 cursor m) (\<lambda>(cursor, m).
      Option.bind (write_records envc_ptr env_ptrs 0 cursor m) (\<lambda>(cursor, m).
      Option.bind (memory_copy cursor stdin_buf stdin_len m) (\<lambda>m.
      Some (add32 cursor stdin_len, m)))))))))))))"

text \<open>
  The calls on file descriptors. \<open>None\<close> is a failed call, which leaves the result words alone; a buffer
  outside of memory makes the call fail.
\<close>

record 'w wasi =
  ws_fd_fdstat_set_flags :: "nat \<Rightarrow> nat \<Rightarrow> 'w \<Rightarrow> 'w"
  ws_path_open :: "bytes \<Rightarrow> 'w \<Rightarrow> nat option \<times> 'w"
  ws_fd_write :: "nat \<Rightarrow> bytes \<Rightarrow> 'w \<Rightarrow> nat option \<times> 'w"
  ws_fd_read :: "nat \<Rightarrow> nat \<Rightarrow> 'w \<Rightarrow> bytes option \<times> 'w"

definition result_word :: "nat \<Rightarrow> nat option \<Rightarrow> mem \<Rightarrow> mem" where
  "result_word ptr r m = (case r of Some v \<Rightarrow> put ptr (to_le_bytes (of_nat v)) m | None \<Rightarrow> m)"

definition call_fd_write :: "'w wasi \<Rightarrow> nat \<Rightarrow> nat \<Rightarrow> nat \<Rightarrow> mem \<Rightarrow> 'w \<Rightarrow> mem \<times> 'w" where
  "call_fd_write ws fd buf len m w =
     (let m = put (iovec + 4) (to_le_bytes (of_nat len)) (put iovec (to_le_bytes (of_nat buf)) m) in
      if in_bounds buf len
      then (case ws_fd_write ws fd (get buf len m) w of (r, w) \<Rightarrow> (result_word written_ptr r m, w))
      else (m, w))"

definition call_fd_read :: "'w wasi \<Rightarrow> nat \<Rightarrow> mem \<Rightarrow> 'w \<Rightarrow> mem \<times> 'w" where
  "call_fd_read ws fd m w =
     (let m = put (iovec + 4) (to_le_bytes (of_nat response_cap)) (put iovec (to_le_bytes (of_nat response_buf)) m) in
      case ws_fd_read ws fd response_cap w of
        (None, w) \<Rightarrow> (m, w)
      | (Some data, w) \<Rightarrow>
          let data = take response_cap data in
          (result_word nread_ptr (Some (length data)) (put response_buf data m), w))"

text \<open>The exchange with the device of the bridge; the result is the number of bytes read.\<close>

definition exchange :: "'w wasi \<Rightarrow> nat \<Rightarrow> mem \<Rightarrow> 'w \<Rightarrow> (nat \<times> mem \<times> 'w) option" where
  "exchange ws cursor m w =
     (case ws_path_open ws (get device_name_ptr 29 m) w of (opened, w) \<Rightarrow>
      let m = result_word fd_ptr opened m in
      Option.bind (i32_load fd_ptr m) (\<lambda>fd.
      case call_fd_write ws fd request_buf (sub32 cursor request_buf) m w of (m, w) \<Rightarrow>
      case call_fd_read ws fd m w of (m, w) \<Rightarrow>
      Option.bind (i32_load nread_ptr m) (\<lambda>response_len. Some (response_len, m, w))))"

text \<open>How a run ends: by returning from \<open>$_start\<close> or by \<open>proc_exit\<close>.\<close>

datatype ending = Returns | Exits nat

definition forward :: "'w wasi \<Rightarrow> nat \<Rightarrow> mem \<Rightarrow> 'w \<Rightarrow> (ending \<times> 'w) option" where
  "forward ws response_len m w =
     (if response_len < 16 then Some (Returns, w)
      else
        Option.bind (i32_load (add32 response_buf 4) m) (\<lambda>returncode.
        Option.bind (i32_load (add32 response_buf 8) m) (\<lambda>stdout_len.
        Option.bind (i32_load (add32 response_buf 12) m) (\<lambda>stderr_len.
        case call_fd_write ws 1 (add32 response_buf 16) stdout_len m w of (m, w) \<Rightarrow>
        case call_fd_write ws 2 (add32 (add32 response_buf 16) stdout_len) stderr_len m w of (m, w) \<Rightarrow>
        Some (Exits returncode, w)))))"

definition start :: "'w wasi \<Rightarrow> string \<Rightarrow> string list \<Rightarrow> string list \<Rightarrow> 'w \<Rightarrow> (ending \<times> 'w) option" where
  "start ws path args envs w =
     (let m = start_memory path args envs; w = ws_fd_fdstat_set_flags ws 0 4 w in
      Option.bind (build_request path m) (\<lambda>(cursor, m).
      Option.bind (exchange ws cursor m w) (\<lambda>(response_len, m, w). forward ws response_len m w)))"

section \<open>Laws of the memory\<close>

lemma length_get [simp]: "length (get a n m) = n"
  by (simp add: get_def)

lemma get_put_in:
  "b \<le> a \<Longrightarrow> a + n \<le> b + length bs \<Longrightarrow> get a n (put b bs m) = take n (drop (a - b) bs)"
  by (intro nth_equalityI) (auto simp: get_def put_def)

lemma get_put_same [simp]: "get a (length bs) (put a bs m) = bs"
  using get_put_in [of a a "length bs" bs m] by simp

lemma get_put_disjoint: "a + n \<le> b \<or> b + length bs \<le> a \<Longrightarrow> get a n (put b bs m) = get a n m"
  by (auto simp: get_def put_def)

lemma put_append: "put (a + length xs) ys (put a xs m) = put a (xs @ ys) m"
  by (auto simp: put_def nth_append fun_eq_iff)

lemma put_commute:
  "a + length xs \<le> b \<or> b + length ys \<le> a \<Longrightarrow> put a xs (put b ys m) = put b ys (put a xs m)"
  by (auto simp: put_def fun_eq_iff)

lemma put_Nil [simp]: "put a [] m = m"
  by (auto simp: put_def fun_eq_iff)

lemma get_append: "get a (n + k) m = get a n m @ get (a + n) k m"
proof -
  have "[a..<a + (n + k)] = [a..<a + n] @ [a + n..<a + n + k]"
    using upt_add_eq_append [of a "a + n" k] by (simp add: add.assoc)
  then show ?thesis by (simp add: get_def)
qed

lemma get_slice: "k + n \<le> len \<Longrightarrow> get (a + k) n m = take n (drop k (get a len m))"
  by (intro nth_equalityI) (auto simp: get_def add.assoc)

lemma i32_load_disjoint: "a + 4 \<le> b \<or> b + length bs \<le> a \<Longrightarrow> i32_load a (put b bs m) = i32_load a m"
  by (simp add: i32_load_def get_put_disjoint)

lemma i32_load_le:
  assumes "get a 4 m = to_le_bytes (of_nat v)" "v < 2 ^ 32" "in_bounds a 4"
  shows "i32_load a m = Some v"
  using assms by (simp add: i32_load_def unat_of_nat_u32)

lemma add32_small: "a + b < 2 ^ 32 \<Longrightarrow> add32 a b = a + b"
  by (simp add: add32_def)

text \<open>A null-terminated string in memory.\<close>

definition string_at :: "nat \<Rightarrow> bytes \<Rightarrow> mem \<Rightarrow> bool" where
  "string_at a s m \<longleftrightarrow> get a (length s) m = s \<and> m (a + length s) = 0 \<and> 0 \<notin> set s"

lemma string_at_Cons:
  "string_at a (b # s) m \<longleftrightarrow> m a = b \<and> b \<noteq> 0 \<and> string_at (Suc a) s m"
  by (auto simp: string_at_def get_def upt_conv_Cons simp del: upt_Suc)

text \<open>
  \<open>$strlen\<close> always ends: it returns the distance to the first zero byte, or traps when there is none up
  to the end of memory.
\<close>

lemma strlen_string: "string_at a s m \<Longrightarrow> a + length s < mem_size \<Longrightarrow> strlen a m = Some (length s)"
proof -
  have "string_at a s m \<Longrightarrow> a + length s < mem_size \<Longrightarrow> strlen_loop a m = Some (a + length s)"
  proof (induction s arbitrary: a)
    case Nil
    then show ?case by (simp add: strlen_loop.simps [of a] string_at_def in_bounds_def)
  next
    case (Cons b s)
    then show ?case
      by (simp add: strlen_loop.simps [of a] string_at_Cons in_bounds_def)
  qed
  then show "string_at a s m \<Longrightarrow> a + length s < mem_size \<Longrightarrow> strlen a m = Some (length s)"
    by (simp add: strlen_def)
qed

lemma string_at_disjoint:
  "string_at a s m \<Longrightarrow> a + length s < b \<Longrightarrow> string_at a s (put b bs m)"
  by (simp add: string_at_def get_put_disjoint) (simp add: put_def)

section \<open>Building the request\<close>

text \<open>The request area while it is filled: everything else is as it was in \<open>m\<close>.\<close>

definition request_mem :: "bytes \<Rightarrow> mem \<Rightarrow> mem" where
  "request_mem written m = put request_buf written m"

lemma request_append:
  "put (request_buf + length written) bs (request_mem written m) = request_mem (written @ bs) m"
  by (simp add: request_mem_def put_append)

lemma request_load: "a + 4 \<le> request_buf \<Longrightarrow> i32_load a (request_mem written m) = i32_load a m"
  by (simp add: request_mem_def i32_load_disjoint)

lemma request_get: "a + n \<le> request_buf \<Longrightarrow> get a n (request_mem written m) = get a n m"
  by (simp add: request_mem_def get_put_disjoint)

lemma write_record_step:
  assumes "string_at source s m" "source + length s < request_buf"
    "request_buf + length written + 4 + length s \<le> mem_size"
  shows "write_record (request_buf + length written) source (request_mem written m) =
    Some (request_buf + length (written @ to_le_bytes (of_nat (length s)) @ s),
          request_mem (written @ to_le_bytes (of_nat (length s)) @ s) m)"
proof -
  have "strlen source (request_mem written m) = Some (length s)"
    using assms by (intro strlen_string) (simp_all add: request_mem_def string_at_disjoint)
  moreover have "get source (length s) (request_mem (written @ to_le_bytes (of_nat (length s))) m) = s"
    using assms by (simp add: request_get string_at_def)
  ultimately show ?thesis
    using assms(2,3) request_append [of written "to_le_bytes (of_nat (length s))" m]
      request_append [of "written @ to_le_bytes (of_nat (length s))" s m]
    by (simp add: write_record_def i32_store_def memory_copy_def in_bounds_def add32_def mem_size_def
        request_buf_def Let_def)
qed

text \<open>
  A table of null-terminated strings: the pointers one after another at \<open>ptr\<close>, the strings at \<open>buf\<close>.
\<close>

fun pointer_block :: "bytes list \<Rightarrow> nat \<Rightarrow> bytes" where
  "pointer_block [] buf = []"
| "pointer_block (s # ss) buf = to_le_bytes (of_nat buf) @ pointer_block ss (buf + length s + 1)"

fun string_block :: "bytes list \<Rightarrow> bytes" where
  "string_block [] = []"
| "string_block (s # ss) = (s @ [0]) @ string_block ss"

fun table_at :: "nat \<Rightarrow> bytes list \<Rightarrow> nat \<Rightarrow> mem \<Rightarrow> bool" where
  "table_at ptr [] buf m \<longleftrightarrow> True"
| "table_at ptr (s # ss) buf m \<longleftrightarrow>
     get ptr 4 m = to_le_bytes (of_nat buf) \<and> string_at buf s m \<and> table_at (ptr + 4) ss (buf + length s + 1) m"

lemma length_pointer_block [simp]: "length (pointer_block ss buf) = 4 * length ss"
  by (induction ss arbitrary: buf) simp_all

lemma length_string_block: "length (string_block ss) = (\<Sum>v\<leftarrow>ss. length v + 1)"
  by (induction ss) simp_all

lemma write_buffers_eq:
  "ptr + 4 * length ss \<le> buf \<Longrightarrow> buf + length (string_block ss) \<le> mem_size \<Longrightarrow>
   write_buffers ss ptr buf m = (True, put buf (string_block ss) (put ptr (pointer_block ss buf) m))"
proof (induction ss arbitrary: ptr buf m)
  case (Cons s ss)
  let ?m = "put ptr (to_le_bytes (of_nat buf)) m" and ?P = "pointer_block ss (buf + length s + 1)"
  have "put (buf + length s) [0] (put buf s ?m) = put buf (s @ [0]) ?m" by (rule put_append)
  moreover have "put (ptr + 4) ?P (put buf (s @ [0]) ?m) = put buf (s @ [0]) (put (ptr + 4) ?P ?m)"
    using Cons.prems by (intro put_commute) simp
  moreover have "put (ptr + 4) ?P ?m = put ptr (pointer_block (s # ss) buf) m"
    using put_append [of ptr "to_le_bytes (of_nat buf)" ?P m] by simp
  moreover have "put (buf + length s + 1) (string_block ss) (put buf (s @ [0]) m') =
      put buf (string_block (s # ss)) m'" for m'
    using put_append [of buf "s @ [0]" "string_block ss" m'] by simp
  ultimately show ?case
    using Cons.IH [of "ptr + 4" "buf + length s + 1" "put buf (s @ [0]) ?m"] Cons.prems
    by (simp add: in_bounds_def Let_def del: pointer_block.simps string_block.simps)
      (simp add: add.assoc)
qed simp

lemma table_atI:
  "get ptr (4 * length ss) m = pointer_block ss buf \<Longrightarrow>
   get buf (length (string_block ss)) m = string_block ss \<Longrightarrow> \<forall>s\<in>set ss. 0 \<notin> set s \<Longrightarrow> table_at ptr ss buf m"
proof (induction ss arbitrary: ptr buf)
  case (Cons s ss)
  have "get ptr 4 m = to_le_bytes (of_nat buf) \<and> get (ptr + 4) (4 * length ss) m = pointer_block ss (buf + length s + 1)"
    using Cons.prems(1) get_append [of ptr 4 "4 * length ss" m] by simp
  moreover have "get buf (length s + 1) m = s @ [0] \<and>
      get (buf + (length s + 1)) (length (string_block ss)) m = string_block ss"
  proof -
    have "get buf (length s + 1) m @ get (buf + (length s + 1)) (length (string_block ss)) m =
        (s @ [0]) @ string_block ss"
      using Cons.prems(2) get_append [of buf "length s + 1" "length (string_block ss)" m] by simp
    then show ?thesis by (subst (asm) append_eq_append_conv) simp_all
  qed
  moreover from this have "get buf (length s) m = s \<and> m (buf + length s) = 0"
    using get_append [of buf "length s" 1 m] by (simp add: get_def)
  ultimately show ?case using Cons.IH [of "ptr + 4" "buf + length s + 1"] Cons.prems(3)
    by (simp add: string_at_def add.assoc)
qed simp

definition byte_record :: "bytes \<Rightarrow> bytes" where
  "byte_record s = to_le_bytes (of_nat (length s)) @ s"

lemma write_records_table:
  assumes "i32_load count_ptr m = Some (index + length ss)" "count_ptr + 4 \<le> request_buf"
    "table_at (ptrs + 4 * index) ss buf m" "buf + length (string_block ss) \<le> request_buf"
    "ptrs + 4 * (index + length ss) \<le> request_buf"
    "request_buf + length written + length (concat (map byte_record ss)) \<le> mem_size"
  shows "write_records count_ptr ptrs index (request_buf + length written) (request_mem written m) =
    Some (request_buf + length (written @ concat (map byte_record ss)),
          request_mem (written @ concat (map byte_record ss)) m)"
  using assms
proof (induction ss arbitrary: index buf written)
  case Nil
  then show ?case by (simp add: write_records.simps [of count_ptr] request_load)
next
  case (Cons s ss)
  let ?w = "written @ byte_record s"
  have small: "request_buf = 2097152" "mem_size = 16777216" by (simp_all add: request_buf_def mem_size_def)
  have "add32 ptrs ((index * 4) mod 2 ^ 32) = ptrs + 4 * index"
    using Cons.prems(5) small by (simp add: add32_def)
  moreover have "i32_load (ptrs + 4 * index) (request_mem written m) = Some buf"
    using Cons.prems(3-5) small by (subst request_load) (auto intro: i32_load_le simp: in_bounds_def)
  moreover have "write_record (request_buf + length written) buf (request_mem written m) =
      Some (request_buf + length ?w, request_mem ?w m)"
    using Cons.prems unfolding byte_record_def by (intro write_record_step) simp_all
  moreover have "write_records count_ptr ptrs (index + 1) (request_buf + length ?w) (request_mem ?w m) =
      Some (request_buf + length (?w @ concat (map byte_record ss)),
            request_mem (?w @ concat (map byte_record ss)) m)"
    using Cons.prems by (intro Cons.IH [of _ "buf + length s + 1"]) (simp_all add: ac_simps)
  ultimately show ?case
    using Cons.prems(1,2) by (subst write_records.simps) (simp add: request_load)
qed

text \<open>What the areas of the module can hold.\<close>

definition launcher_fits :: "string \<Rightarrow> string list \<Rightarrow> string list \<Rightarrow> bool" where
  "launcher_fits path args envs \<longleftrightarrow>
     length path \<le> 896 \<and>
     length args \<le> 16128 \<and> (\<Sum>s\<leftarrow>args. length s + 1) \<le> 196608 \<and>
     length envs \<le> 65536 \<and> (\<Sum>s\<leftarrow>envs. length s + 1) \<le> 1572864 \<and>
     list_all (\<lambda>s. CHR 0x00 \<notin> set s) args \<and> list_all (\<lambda>s. CHR 0x00 \<notin> set s) envs"

lemma byte_of_char_0: "byte_of_char CHR 0x00 = 0"
  by (simp add: byte_of_char_def)

lemma zero_notin_into_bytes [simp]: "0 \<in> set (into_bytes s) \<longleftrightarrow> CHR 0x00 \<in> set s"
proof -
  have "byte_of_char c = byte_of_char d \<longleftrightarrow> c = d" for c d
    by (metis char_byte_char)
  from this [of _ "CHR 0x00"] have "byte_of_char c = 0 \<longleftrightarrow> c = CHR 0x00" for c
    by (simp only: byte_of_char_0)
  moreover have "0 \<in> set (into_bytes s) \<longleftrightarrow> (\<exists>c\<in>set s. byte_of_char c = 0)"
    unfolding into_bytes_def by force
  ultimately show ?thesis by simp
qed

lemma length_string_block_into:
  "length (string_block (map into_bytes ss)) = (\<Sum>s\<leftarrow>ss. length s + 1)"
  by (simp add: length_string_block o_def)

definition argv_memory :: "string \<Rightarrow> string list \<Rightarrow> mem" where
  "argv_memory path args =
     put argv_buf (string_block (map into_bytes args))
       (put argv_ptrs (pointer_block (map into_bytes args) argv_buf)
         (put argv_size_ptr (to_le_bytes (of_nat (\<Sum>s\<leftarrow>args. length s + 1)))
           (put argc_ptr (to_le_bytes (of_nat (length args))) (initial_mem path))))"

lemma start_memory_eq:
  assumes "launcher_fits path args envs"
  shows "start_memory path args envs =
    put env_buf (string_block (map into_bytes envs))
      (put env_ptrs (pointer_block (map into_bytes envs) env_buf)
        (put env_size_ptr (to_le_bytes (of_nat (\<Sum>s\<leftarrow>envs. length s + 1)))
          (put envc_ptr (to_le_bytes (of_nat (length envs))) (argv_memory path args))))"
  using assms
  by (simp add: start_memory_def argv_memory_def write_buffer_array_def in_bounds_def mem_size_def launcher_fits_def
      write_buffers_eq length_string_block_into sizes_get_def global_defs Let_def o_def)

lemma start_memory_contents:
  assumes "launcher_fits path args envs"
  defines "M \<equiv> start_memory path args envs"
  shows "i32_load argc_ptr M = Some (length args)" "i32_load envc_ptr M = Some (length envs)"
    "get exec_path (length path) M = into_bytes path"
    "table_at argv_ptrs (map into_bytes args) argv_buf M" "table_at env_ptrs (map into_bytes envs) env_buf M"
    "get device_name_ptr 29 M = into_bytes ''dev/unix-sandbox-virtual-exec''"
proof -
  note fits = assms(1) [unfolded launcher_fits_def]
  note M = M_def [unfolded start_memory_eq [OF assms(1)] argv_memory_def initial_mem_def]
  have lens: "length (string_block (map into_bytes args)) \<le> 196608" "length (string_block (map into_bytes envs)) \<le> 1572864"
    using fits by (simp_all add: length_string_block_into)
  show "i32_load argc_ptr M = Some (length args)" "i32_load envc_ptr M = Some (length envs)"
    using fits unfolding M
    by (auto intro!: i32_load_le simp: in_bounds_def mem_size_def get_put_disjoint get_put_in global_defs)
  show "get exec_path (length path) M = into_bytes path"
    using fits unfolding M by (simp add: get_put_disjoint get_put_in global_defs)
  show "get device_name_ptr 29 M = into_bytes ''dev/unix-sandbox-virtual-exec''"
    using fits unfolding M by (simp add: get_put_disjoint get_put_in global_defs)
  show "table_at argv_ptrs (map into_bytes args) argv_buf M"
    using fits lens unfolding M
    by (intro table_atI) (simp_all add: get_put_disjoint get_put_in global_defs list_all_iff)
  show "table_at env_ptrs (map into_bytes envs) env_buf M"
    using fits lens unfolding M
    by (intro table_atI) (simp_all add: get_put_disjoint get_put_in global_defs list_all_iff)
qed

lemma length_records: "length (concat (map byte_record ss)) \<le> length (string_block ss) + 3 * length ss"
  by (induction ss) (simp_all add: byte_record_def)

lemma byte_record_into [simp]: "byte_record (into_bytes s) = string_record s"
  by (simp add: byte_record_def string_record_def)

lemma magic_bytes: "to_le_bytes 0x31565855 = request_magic"
  by code_simp

lemma request_store:
  assumes "request_buf + length written + 4 \<le> mem_size"
  shows "i32_store (request_buf + length written) v (request_mem written m) =
    Some (request_mem (written @ to_le_bytes (of_nat v)) m)"
  using assms request_append [of written "to_le_bytes (of_nat v)" m]
  by (simp add: i32_store_def in_bounds_def)

lemma records_bound:
  assumes "launcher_fits path args envs"
  shows "length (concat (map byte_record (map into_bytes args))) \<le> 244992"
    "length (concat (map byte_record (map into_bytes envs))) \<le> 1769472"
  using assms length_records [of "map into_bytes args"] length_records [of "map into_bytes envs"]
  by (auto simp: launcher_fits_def length_string_block_into)

definition request_header :: "string \<Rightarrow> nat \<Rightarrow> nat \<Rightarrow> bytes" where
  "request_header path argc envc =
     request_magic @ to_le_bytes (of_nat (length path)) @ into_bytes path @
     to_le_bytes (of_nat argc) @ to_le_bytes (of_nat envc) @ to_le_bytes (of_nat 0)"

lemma length_request_header [simp]: "length (request_header path argc envc) = 20 + length path"
  by (simp add: request_header_def request_magic_def)

lemma request_layout_header:
  "request_layout path args envs [] =
     (request_header path (length args) (length envs) @ concat (map byte_record (map into_bytes args))) @
     concat (map byte_record (map into_bytes envs))"
  by (simp add: request_layout_def request_header_def o_def) (simp add: string_record_def)

text \<open>The stores of the header, one after another, and then the two loops.\<close>

lemma request_header_written:
  assumes "get exec_path (length path) m = into_bytes path" "length path \<le> 896"
    "i32_load argc_ptr m = Some argc" "i32_load envc_ptr m = Some envc"
  defines "H \<equiv> request_header path argc envc"
  shows "build_request path m =
     Option.bind (write_records argc_ptr argv_ptrs 0 (request_buf + length H) (request_mem H m)) (\<lambda>(cursor, m).
     Option.bind (write_records envc_ptr env_ptrs 0 cursor m) (\<lambda>(cursor, m).
     Option.bind (memory_copy cursor stdin_buf 0 m) (\<lambda>m. Some (add32 cursor 0, m))))"
proof -
  let ?le = "\<lambda>n. to_le_bytes (of_nat n)"
  let ?h1 = "request_magic" let ?h2 = "?h1 @ ?le (length path)" let ?h3 = "?h2 @ into_bytes path"
  let ?h4 = "?h3 @ ?le argc" let ?h5 = "?h4 @ ?le envc" let ?h6 = "?h5 @ ?le 0"
  have small: "request_buf = 2097152" "mem_size = 16777216" "length request_magic = 4"
    by (simp_all add: request_buf_def mem_size_def request_magic_def)
  have H: "H = ?h6" by (simp add: H_def request_header_def)
  have "i32_store request_buf 0x31565855 m = Some (request_mem ?h1 m)"
    using request_store [of "[]" "0x31565855" m] magic_bytes small by (simp add: request_mem_def)
  moreover have "i32_store (request_buf + length ?h1) (length path) (request_mem ?h1 m) = Some (request_mem ?h2 m)"
    using small by (intro request_store) simp
  moreover have "memory_copy (request_buf + length ?h2) exec_path (length path) (request_mem ?h2 m) =
      Some (request_mem ?h3 m)"
    using request_append [of ?h2 "into_bytes path" m] assms(1,2) small
    by (simp add: memory_copy_def in_bounds_def exec_path_def request_get)
  moreover have "i32_store (request_buf + length ?h3) argc (request_mem ?h3 m) = Some (request_mem ?h4 m)"
    "i32_store (request_buf + length ?h4) envc (request_mem ?h4 m) = Some (request_mem ?h5 m)"
    "i32_store (request_buf + length ?h5) 0 (request_mem ?h5 m) = Some (request_mem ?h6 m)"
    by (rule request_store; use small assms(2) in simp)+
  moreover have "add32 request_buf 4 = request_buf + length ?h1"
    "add32 (request_buf + length ?h1) 4 = request_buf + length ?h2"
    "add32 (request_buf + length ?h2) (length path) = request_buf + length ?h3"
    "add32 (request_buf + length ?h3) 4 = request_buf + length ?h4"
    "add32 (request_buf + length ?h4) 4 = request_buf + length ?h5"
    "add32 (request_buf + length ?h5) 4 = request_buf + length ?h6"
    using small assms(2) by (simp_all add: add32_def)
  ultimately show ?thesis
    unfolding H using assms(3,4)
    by (simp add: build_request_def Let_def request_load global_defs del: length_append)
qed

lemma request_length:
  assumes "launcher_fits path args envs"
  shows "request_buf + length (request_layout path args envs []) \<le> mem_size"
  using records_bound [OF assms] assms unfolding request_layout_header
  by (simp add: launcher_fits_def request_buf_def mem_size_def)

text \<open>The request area ends up holding the request layout, and nothing else has changed.\<close>

lemma build_request_layout:
  assumes "launcher_fits path args envs"
  defines "L \<equiv> request_layout path args envs []"
  shows "build_request path (start_memory path args envs) =
    Some (request_buf + length L, request_mem L (start_memory path args envs))"
proof -
  let ?M = "start_memory path args envs" and ?A = "map into_bytes args" and ?E = "map into_bytes envs"
  let ?H = "request_header path (length args) (length envs)"
  let ?W = "?H @ concat (map byte_record ?A)"
  have L: "L = ?W @ concat (map byte_record ?E)" unfolding L_def by (rule request_layout_header)
  note fits = assms(1) [unfolded launcher_fits_def]
  note mem = start_memory_contents [OF assms(1)] and recs = records_bound [OF assms(1)]
  have small: "request_buf = 2097152" "mem_size = 16777216" by (simp_all add: request_buf_def mem_size_def)
  have lens: "length (string_block ?A) \<le> 196608" "length (string_block ?E) \<le> 1572864"
    using fits by (simp_all add: length_string_block_into)
  have "write_records argc_ptr argv_ptrs 0 (request_buf + length ?H) (request_mem ?H ?M) =
      Some (request_buf + length ?W, request_mem ?W ?M)"
    using mem fits lens recs small
    by (intro write_records_table [where buf = argv_buf]) (simp_all add: global_defs)
  moreover have "write_records envc_ptr env_ptrs 0 (request_buf + length ?W) (request_mem ?W ?M) =
      Some (request_buf + length L, request_mem L ?M)"
    using mem fits lens recs small unfolding L
    by (intro write_records_table [where buf = env_buf]) (simp_all add: global_defs)
  moreover have "request_buf + length L \<le> mem_size" unfolding L_def by (rule request_length [OF assms(1)])
  then have "add32 (request_buf + length L) 0 = request_buf + length L"
    "memory_copy (request_buf + length L) stdin_buf 0 m = Some m" for m
    using small by (simp_all add: add32_def memory_copy_def in_bounds_def get_def stdin_buf_def)
  ultimately show ?thesis
    using fits by (simp add: request_header_written [OF mem(3) _ mem(1,2)] del: length_append)
qed

section \<open>The whole program\<close>

lemma i32_load_put: "v < 2 ^ 32 \<Longrightarrow> in_bounds a 4 \<Longrightarrow> i32_load a (put a (to_le_bytes (of_nat v)) m) = Some v"
  using get_put_same [of a "to_le_bytes (of_nat v)" m] by (simp add: i32_load_le)

lemma i32_load_total: "in_bounds a 4 \<Longrightarrow> i32_load a m \<noteq> None"
  by (simp add: i32_load_def)

lemma call_fd_write_get:
  "in_bounds buf len \<Longrightarrow> 1024 \<le> buf \<Longrightarrow>
   call_fd_write ws fd buf len m w =
     (case ws_fd_write ws fd (get buf len m) w of (r, w) \<Rightarrow>
        (result_word written_ptr r
          (put (iovec + 4) (to_le_bytes (of_nat len)) (put iovec (to_le_bytes (of_nat buf)) m)), w))"
  by (simp add: call_fd_write_def Let_def get_put_disjoint iovec_def)

lemma get_result_word: "ptr + 4 \<le> a \<Longrightarrow> get a n (result_word ptr r m) = get a n m"
  by (simp add: result_word_def get_put_disjoint split: option.split)

lemma snd_call_fd_write:
  "in_bounds buf len \<Longrightarrow> 1024 \<le> buf \<Longrightarrow>
   snd (call_fd_write ws fd buf len m w) = snd (ws_fd_write ws fd (get buf len m) w)"
  by (simp add: call_fd_write_get split: prod.split)

lemma get_call_fd_write:
  "1024 \<le> a \<Longrightarrow> get a n (fst (call_fd_write ws fd buf len m w)) = get a n m"
  by (auto simp: call_fd_write_def Let_def get_result_word get_put_disjoint iovec_def written_ptr_def
      split: prod.split)

lemma exchange_response:
  assumes "get device_name_ptr 29 m = device" "ws_path_open ws device w = (Some fd, w1)" "fd < 2 ^ 32"
    and "get request_buf len m = request" "request_buf + len \<le> mem_size" "ws_fd_write ws fd request w1 = (r, w2)"
    and "ws_fd_read ws fd response_cap w2 = (Some data, w3)" "length data \<le> response_cap"
  shows "\<exists>m'. exchange ws (request_buf + len) m w = Some (length data, m', w3) \<and> get response_buf (length data) m' = data"
proof -
  have "sub32 (request_buf + len) request_buf = len"
    using assms(5) by (simp add: sub32_def request_buf_def mem_size_def)
  moreover have "i32_load fd_ptr (put fd_ptr (to_le_bytes (of_nat fd)) m) = Some fd"
    using assms(3) by (intro i32_load_put) (simp_all add: in_bounds_def fd_ptr_def mem_size_def)
  moreover have "get request_buf len (put fd_ptr (to_le_bytes (of_nat fd)) m) = request"
    using assms(4) by (simp add: get_put_disjoint fd_ptr_def request_buf_def)
  moreover have "i32_load nread_ptr (put nread_ptr (to_le_bytes (of_nat (length data))) m') = Some (length data)" for m'
    using assms(8) by (intro i32_load_put) (simp_all add: in_bounds_def nread_ptr_def mem_size_def response_cap_def)
  moreover have "get response_buf (length data) (put nread_ptr bs (put response_buf data m')) = data"
    if "length bs = 4" for bs m'
    using that by (simp add: get_put_disjoint nread_ptr_def response_buf_def)
  ultimately show ?thesis
    using assms
    by (simp add: exchange_def Let_def result_word_def call_fd_write_get in_bounds_def request_buf_def
        call_fd_read_def)
qed

lemma forward_response:
  assumes "get response_buf (length (encode_response r)) m = encode_response r"
    and "length (encode_response r) \<le> response_cap"
  shows "forward ws (length (encode_response r)) m w =
    Some (Exits (unat (rp_returncode r)), snd (ws_fd_write ws 2 (rp_stderr r) (snd (ws_fd_write ws 1 (rp_stdout r) w))))"
proof -
  let ?d = "encode_response r" and ?out = "length (rp_stdout r)" and ?err = "length (rp_stderr r)"
  have len: "length ?d = 16 + ?out + ?err" by (simp add: encode_response_def response_magic_def)
  have bounds: "16 + ?out + ?err \<le> 8388608" "response_buf = 4194304" "mem_size = 16777216"
    using assms(2) len by (simp_all add: response_cap_def response_buf_def mem_size_def)
  have slice: "get (response_buf + k) n m = take n (drop k ?d)" if "k + n \<le> length ?d" for k n
    using get_slice [OF that, of response_buf m] assms(1) by simp
  have "get (response_buf + 4) 4 m = to_le_bytes (rp_returncode r)"
    "get (response_buf + 8) 4 m = to_le_bytes (of_nat ?out)" "get (response_buf + 12) 4 m = to_le_bytes (of_nat ?err)"
    "get (response_buf + 16) ?out m = rp_stdout r" "get (response_buf + 16 + ?out) ?err m = rp_stderr r"
    using slice [of 4 4] slice [of 8 4] slice [of 12 4] slice [of 16 ?out] slice [of "16 + ?out" ?err] len
    by (simp_all add: encode_response_def response_magic_def add.assoc)
  moreover have "i32_load a m = Some (unat v)" if "get a 4 m = to_le_bytes v" "a + 4 \<le> mem_size" for a v
    using that by (simp add: i32_load_def in_bounds_def)
  ultimately show ?thesis using len bounds
    by (simp add: forward_def add32_def snd_call_fd_write get_call_fd_write in_bounds_def unat_of_nat_u32
        case_prod_beta)
qed

text \<open>
  C24. The launcher sends what the host expects: the bytes of the request area parse to the path of the
  executable and the arguments and environment of the guest process, exactly.
\<close>

theorem launcher_request_parsed:
  assumes "launcher_fits path args envs" "wire_request path args envs []"
  shows "\<exists>cursor m. build_request path (start_memory path args envs) = Some (cursor, m) \<and>
    parse_guest_payload b64 (get request_buf (sub32 cursor request_buf) m) = Inr (payload_of b64 path args envs [])"
proof -
  let ?L = "request_layout path args envs []"
  have len: "request_buf + length ?L < 2 ^ 32" using request_length [OF assms(1)] by (simp add: mem_size_def)
  then have "parse_guest_payload b64 (?L @ []) = Inr (payload_of b64 path args envs [])"
    by (intro parse_layout assms) (simp add: usize_max_def request_buf_def)
  moreover have "sub32 (request_buf + length ?L) request_buf = length ?L"
    using len by (simp add: sub32_def request_buf_def)
  ultimately show ?thesis
    using build_request_layout [OF assms(1)] by (simp add: request_mem_def)
qed

theorem launcher_request_parsed_witness:
  "\<exists>cursor m. build_request ''/bin/t'' (start_memory ''/bin/t'' [''t'', ''-x''] [''PWD=/w'']) = Some (cursor, m) \<and>
    parse_guest_payload (\<lambda>_. []) (get request_buf (sub32 cursor request_buf) m) =
      Inr \<lparr>gp_executable_path = ''/bin/t'', gp_argv = [''t'', ''-x''], gp_cwd = ''/w'', gp_env = [(''PWD'', ''/w'')], gp_stdin = []\<rparr>"
proof -
  have "payload_of (\<lambda>_. []) ''/bin/t'' [''t'', ''-x''] [''PWD=/w''] [] =
      \<lparr>gp_executable_path = ''/bin/t'', gp_argv = [''t'', ''-x''], gp_cwd = ''/w'', gp_env = [(''PWD'', ''/w'')], gp_stdin = []\<rparr>"
    by code_simp
  moreover have "launcher_fits ''/bin/t'' [''t'', ''-x''] [''PWD=/w'']" by (simp add: launcher_fits_def)
  moreover have "wire_request ''/bin/t'' [''t'', ''-x''] [''PWD=/w''] []"
    by (simp add: wire_request_def wire_string_def into_bytes_def byte_of_char_def)
  ultimately show ?thesis using launcher_request_parsed [of "''/bin/t''" "[''t'', ''-x'']" "[''PWD=/w'']" "\<lambda>_. []"]
    by simp
qed

text \<open>
  When the device of the bridge opens and answers, the launcher passes the answer on: the output bytes to
  descriptor 1, the error bytes to descriptor 2, and the return code as the exit code of the process.
\<close>

theorem launcher_forwards:
  assumes "launcher_fits path args envs"
    and "ws_path_open ws (into_bytes ''dev/unix-sandbox-virtual-exec'') (ws_fd_fdstat_set_flags ws 0 4 w) = (Some fd, w1)"
    and "fd < 2 ^ 32" "ws_fd_write ws fd (request_layout path args envs []) w1 = (r, w2)"
    and "ws_fd_read ws fd response_cap w2 = (Some (encode_response resp), w3)"
    and "length (encode_response resp) \<le> response_cap"
  shows "start ws path args envs w =
    Some (Exits (unat (rp_returncode resp)),
          snd (ws_fd_write ws 2 (rp_stderr resp) (snd (ws_fd_write ws 1 (rp_stdout resp) w3))))"
proof -
  let ?L = "request_layout path args envs []" and ?M = "start_memory path args envs"
  have "get device_name_ptr 29 (request_mem ?L ?M) = into_bytes ''dev/unix-sandbox-virtual-exec''"
    using start_memory_contents(6) [OF assms(1)] by (simp add: request_get device_name_ptr_def request_buf_def)
  moreover have "get request_buf (length ?L) (request_mem ?L ?M) = ?L" by (simp add: request_mem_def)
  moreover have "request_buf + length ?L \<le> mem_size" by (rule request_length [OF assms(1)])
  ultimately obtain m where
    "exchange ws (request_buf + length ?L) (request_mem ?L ?M) (ws_fd_fdstat_set_flags ws 0 4 w) =
       Some (length (encode_response resp), m, w3)"
    "get response_buf (length (encode_response resp)) m = encode_response resp"
    using exchange_response [OF _ assms(2,3) _ _ assms(4-6)] by blast
  then show ?thesis
    using build_request_layout [OF assms(1)] assms(6) by (simp add: start_def forward_response Let_def)
qed

theorem launcher_forwards_witness:
  "let answer = \<lparr>rp_returncode = 3, rp_stdout = [104, 105], rp_stderr = [33]\<rparr>;
       request = request_layout ''/bin/t'' [''t''] [] [];
       ws = \<lparr>ws_fd_fdstat_set_flags = \<lambda>_ _ w. w, ws_path_open = \<lambda>_ w. (Some 4, w),
             ws_fd_write = \<lambda>fd bs w. (Some (length bs), w @ [(fd, bs)]),
             ws_fd_read = \<lambda>_ _ w. (Some (encode_response answer), w)\<rparr>
   in start ws ''/bin/t'' [''t''] [] [] = Some (Exits 3, [(4, request), (1, [104, 105]), (2, [33])])"
proof -
  have "launcher_fits ''/bin/t'' [''t''] []" by (simp add: launcher_fits_def)
  moreover have "length (encode_response \<lparr>rp_returncode = 3, rp_stdout = [104, 105], rp_stderr = [33]\<rparr>) \<le> response_cap"
    by (simp add: encode_response_def response_magic_def response_cap_def)
  ultimately show ?thesis unfolding Let_def
    by (subst launcher_forwards [where fd = 4 and
          resp = "\<lparr>rp_returncode = 3, rp_stdout = [104, 105], rp_stderr = [33]\<rparr>"]) simp_all
qed

text \<open>
  C25. Whatever the host answers, and also when it answers nothing or garbage, the launcher ends without a
  trap.
\<close>

theorem launcher_ends:
  assumes "launcher_fits path args envs"
  shows "\<exists>ending w'. start ws path args envs w = Some (ending, w')"
proof -
  let ?L = "request_layout path args envs []" and ?M = "start_memory path args envs"
  have forward: "forward ws n m w \<noteq> None" for n m w
    by (simp add: forward_def i32_load_total bind_eq_None_conv case_prod_beta add32_def response_buf_def in_bounds_def
        mem_size_def del: not_None_eq)
  have exchange: "exchange ws cursor m w \<noteq> None" for cursor m w
    by (simp add: exchange_def i32_load_total bind_eq_None_conv case_prod_beta Let_def fd_ptr_def nread_ptr_def
        in_bounds_def mem_size_def del: not_None_eq)
  have "start ws path args envs w \<noteq> None"
    using build_request_layout [OF assms]
    by (simp add: start_def Let_def bind_eq_None_conv forward exchange case_prod_beta del: not_None_eq)
  then show ?thesis by auto
qed

theorem launcher_ends_witness:
  "\<exists>ending w'. start \<lparr>ws_fd_fdstat_set_flags = \<lambda>_ _ w. w, ws_path_open = \<lambda>_ w. (None, w),
      ws_fd_write = \<lambda>_ _ w. (None, w), ws_fd_read = \<lambda>_ _ w. (None, w)\<rparr> ''/bin/t'' [''t''] [''A=1''] () = Some (ending, w')"
  by (rule launcher_ends) (simp add: launcher_fits_def)

text \<open>
  The path of the executable shares its area with the argument pointers: a path of more than 896 bytes is
  overwritten by the first of them before the request is built, and its byte number 896 becomes zero.
\<close>

theorem launcher_long_path_clobbered:
  assumes "896 < length path" "launcher_fits [] args envs" "args \<noteq> []"
  shows "start_memory path args envs (exec_path + 896) = 0"
proof -
  have "start_memory path args envs (exec_path + 896) = argv_memory path args (exec_path + 896)"
    using assms(2)
    by (simp add: start_memory_def argv_memory_def write_buffer_array_def in_bounds_def mem_size_def launcher_fits_def
        write_buffers_eq length_string_block_into sizes_get_def global_defs Let_def o_def)
      (simp add: put_def)
  also have "\<dots> = pointer_block (map into_bytes args) argv_buf ! 0"
    using assms(3) by (simp add: argv_memory_def put_def global_defs)
  also have "\<dots> = 0"
    using assms(3) by (cases args) (simp_all add: argv_buf_def to_le_bytes_def)
  finally show ?thesis .
qed

end
