(* ===== verification/Paths.thy ===== *)
theory Paths
  imports Errors
begin

text \<open>
  Paths. The first part models what the sources use of \<open>std::path\<close> on Unix: \<open>components\<close>,
  equality of paths (component by component), \<open>push\<close>, \<open>join\<close>, \<open>parent\<close>, \<open>pop\<close> and \<open>file_name\<close>
  on the raw bytes of a path, and hash maps keyed by paths. The second part is the path
  handling of \<open>src/core.rs\<close>: \<open>normalize_path\<close>, \<open>normalize_command_path\<close>,
  \<open>command_path_from_path_entry\<close> and \<open>event_path\<close>. The lemmas relate both to lists of component
  names: \<open>render\<close> writes such a list as an absolute path, \<open>walk\<close> interprets \<open>.\<close> and \<open>..\<close> on it.
\<close>

type_synonym path = string

abbreviation slash :: char where
  "slash \<equiv> CHR ''/''"

abbreviation NUL :: char where
  "NUL \<equiv> CHR 0x00"

section \<open>\<open>std::path\<close>\<close>

datatype component = RootDir | CurDir | ParentDir | Normal string

definition meaningful :: "string \<Rightarrow> bool" where
  "meaningful piece \<longleftrightarrow> piece \<noteq> [] \<and> piece \<noteq> ''.''"

definition is_absolute :: "path \<Rightarrow> bool" where
  "is_absolute p \<longleftrightarrow> (case p of [] \<Rightarrow> False | c # _ \<Rightarrow> c = slash)"

definition path_body :: "path \<Rightarrow> component option \<times> string list" where
  "path_body p =
     (case p of
        [] \<Rightarrow> (None, [])
      | c # cs \<Rightarrow>
          if c = slash then (Some RootDir, split_on slash cs)
          else (case split_on slash p of
                  piece # pieces \<Rightarrow>
                    if piece = ''.'' then (Some CurDir, pieces) else (None, piece # pieces)
                | [] \<Rightarrow> (None, [])))"

definition components :: "path \<Rightarrow> component list" where
  "components p =
     (case path_body p of (prefix, pieces) \<Rightarrow>
        (case prefix of None \<Rightarrow> [] | Some c \<Rightarrow> [c]) @
        map (\<lambda>piece. if piece = ''..'' then ParentDir else Normal piece) (filter meaningful pieces))"

definition path_eq :: "path \<Rightarrow> path \<Rightarrow> bool" where
  "path_eq p q \<longleftrightarrow> components p = components q"

definition path_push :: "path \<Rightarrow> path \<Rightarrow> path" where
  "path_push p q =
     (if is_absolute q then q
      else if p \<noteq> [] \<and> last p \<noteq> slash then p @ [slash] @ q
      else p @ q)"

definition trim_pieces :: "string list \<Rightarrow> string list" where
  "trim_pieces pieces = rev (dropWhile (\<lambda>piece. \<not> meaningful piece) (rev pieces))"

fun assemble :: "component option \<Rightarrow> string list \<Rightarrow> path" where
  "assemble (Some RootDir) pieces = slash # join_with [slash] pieces"
| "assemble (Some CurDir) pieces =
     (if pieces = [] then ''.'' else ''./'' @ join_with [slash] pieces)"
| "assemble _ pieces = join_with [slash] pieces"

definition path_parent :: "path \<Rightarrow> path option" where
  "path_parent p =
     (case path_body p of (prefix, pieces) \<Rightarrow>
        let body = trim_pieces pieces in
        if body \<noteq> [] then Some (assemble prefix (trim_pieces (butlast body)))
        else if prefix = Some CurDir then Some []
        else None)"

definition path_pop :: "path \<Rightarrow> bool \<times> path" where
  "path_pop p = (case path_parent p of None \<Rightarrow> (False, p) | Some q \<Rightarrow> (True, q))"

definition file_name :: "path \<Rightarrow> string option" where
  "file_name p =
     (case components p of
        [] \<Rightarrow> None
      | cs \<Rightarrow> (case last cs of Normal name \<Rightarrow> Some name | _ \<Rightarrow> None))"

section \<open>Path normalization of the sandbox\<close>

text \<open>The common loop over the pieces of a path: \<open>err\<close> is raised when \<open>..\<close> leaves the root.\<close>

fun apply_pieces :: "error \<Rightarrow> string list \<Rightarrow> path \<Rightarrow> error + path" where
  "apply_pieces err [] normalized = Inr normalized"
| "apply_pieces err (component # rest) normalized =
     (if component = [] \<or> component = ''.'' then apply_pieces err rest normalized
      else if component = ''..'' then
        (case path_pop normalized of
           (popped, normalized') \<Rightarrow>
             if \<not> popped then Inl err else apply_pieces err rest normalized')
      else apply_pieces err rest (path_push normalized component))"

definition normalize_path :: "string \<Rightarrow> error + path" where
  "normalize_path path =
     (if NUL \<in> set path then Inl NulInPath
      else if \<not> is_absolute path then Inl PathNotAbsolute
      else apply_pieces PathEscapesRoot (split_on slash path) ''/'')"

definition event_path :: "path \<Rightarrow> string" where
  "event_path path =
     (let absolute = (if is_absolute path then path else path_push ''/'' path) in
      if \<not> is_utf8 absolute then to_string_lossy absolute
      else case normalize_path absolute of
        Inr normalized \<Rightarrow> to_string_lossy normalized
      | Inl _ \<Rightarrow> to_string_lossy absolute)"

definition normalize_command_path :: "string \<Rightarrow> path \<Rightarrow> error + path" where
  "normalize_command_path command cwd =
     (if is_absolute command then normalize_path command
      else (case apply_pieces CommandPathEscapesRoot (split_on slash command) cwd of
              Inl e \<Rightarrow> Inl e
            | Inr path \<Rightarrow> normalize_path path))"

definition command_path_from_path_entry :: "string \<Rightarrow> string \<Rightarrow> path \<Rightarrow> error + path" where
  "command_path_from_path_entry directory command cwd =
     (let command_path =
        (if directory = [] \<or> directory = ''.'' then path_push cwd command
         else path_push directory command)
      in if is_absolute command_path then normalize_path command_path
         else normalize_command_path command_path cwd)"

section \<open>Paths as lists of names\<close>

definition valid_name :: "string \<Rightarrow> bool" where
  "valid_name name \<longleftrightarrow>
     name \<noteq> [] \<and> name \<noteq> ''.'' \<and> name \<noteq> ''..'' \<and> slash \<notin> set name \<and> NUL \<notin> set name"

definition render :: "string list \<Rightarrow> path" where
  "render names = slash # join_with [slash] names"

definition canonical :: "path \<Rightarrow> bool" where
  "canonical p \<longleftrightarrow> (\<exists>names. list_all valid_name names \<and> p = render names)"

fun walk :: "string list \<Rightarrow> string list \<Rightarrow> string list option" where
  "walk [] names = Some names"
| "walk (piece # pieces) names =
     (if piece = [] \<or> piece = ''.'' then walk pieces names
      else if piece = ''..'' then (if names = [] then None else walk pieces (butlast names))
      else walk pieces (names @ [piece]))"

lemma split_on_join:
  "list_all (\<lambda>p. sep \<notin> set p) ps \<Longrightarrow> ps \<noteq> [] \<Longrightarrow> split_on sep (join_with [sep] ps) = ps"
proof (induction ps rule: induct_list012)
  case (3 p q ps)
  then have "split_on sep (p @ sep # join_with [sep] (q # ps)) =
      split_on sep p @ split_on sep (join_with [sep] (q # ps))"
    by (simp only: split_on_append_sep)
  with 3 show ?case by (simp add: split_on_id)
qed (simp_all add: split_on_id)

lemma join_with_snoc:
  "ps \<noteq> [] \<Longrightarrow> join_with sep (ps @ [p]) = join_with sep ps @ sep @ p"
  by (induction ps rule: induct_list012) simp_all

lemma valid_name_meaningful [simp]: "valid_name n \<Longrightarrow> meaningful n"
  by (simp add: valid_name_def meaningful_def)

lemma valid_names_no_slash: "list_all valid_name ns \<Longrightarrow> list_all (\<lambda>p. slash \<notin> set p) ns"
  by (auto simp: list_all_iff valid_name_def)

lemma path_body_render:
  assumes "list_all valid_name names"
  shows "path_body (render names) = (Some RootDir, if names = [] then [[]] else names)"
  using split_on_join [OF valid_names_no_slash [OF assms]] by (simp add: path_body_def render_def)

lemma filter_meaningful_valid: "list_all valid_name names \<Longrightarrow> filter meaningful names = names"
  by (induction names) simp_all

lemma components_render [simp]:
  assumes "list_all valid_name names"
  shows "components (render names) = RootDir # map Normal names"
proof -
  have "map (\<lambda>piece. if piece = ''..'' then ParentDir else Normal piece) names = map Normal names"
    using assms by (auto simp: list_all_iff valid_name_def)
  with assms show ?thesis
    by (auto simp: components_def path_body_render filter_meaningful_valid meaningful_def)
qed

lemma render_inject [simp]:
  assumes "list_all valid_name a" and "list_all valid_name b"
  shows "render a = render b \<longleftrightarrow> a = b"
  using components_render [OF assms(1)] components_render [OF assms(2)]
  by (metis list.inj_map_strong list.inject component.inject)

lemma path_eq_canonical:
  assumes "canonical p" and "canonical q"
  shows "path_eq p q \<longleftrightarrow> p = q"
  using assms by (auto simp: canonical_def path_eq_def)
    (metis list.inj_map_strong component.inject)

lemma is_absolute_render [simp]: "is_absolute (render names)"
  by (simp add: is_absolute_def render_def)

lemma is_absolute_valid_name [simp]: "valid_name n \<Longrightarrow> \<not> is_absolute n"
  by (auto simp: is_absolute_def valid_name_def split: list.splits)

lemma last_render: "list_all valid_name names \<Longrightarrow> names \<noteq> [] \<Longrightarrow> last (render names) \<noteq> slash"
proof (induction names rule: rev_induct)
  case (snoc n ns)
  then have "n \<noteq> []" and "last n \<noteq> slash"
    by (auto simp: valid_name_def dest: last_in_set)
  then show ?case
    by (cases "ns = []") (simp_all add: render_def join_with_snoc)
qed simp

lemma path_push_render [simp]:
  assumes "list_all valid_name names" and "valid_name n"
  shows "path_push (render names) n = render (names @ [n])"
proof (cases "names = []")
  case True
  then show ?thesis using assms by (simp add: path_push_def render_def)
next
  case False
  then show ?thesis
    using assms last_render [of names] by (simp add: path_push_def render_def join_with_snoc)
qed

lemma trim_pieces_valid: "list_all valid_name names \<Longrightarrow> trim_pieces names = names"
  by (cases names rule: rev_cases) (simp_all add: trim_pieces_def)

lemma assemble_root [simp]: "assemble (Some RootDir) names = render names"
  by (simp add: render_def)

lemma path_parent_render:
  assumes "list_all valid_name names"
  shows "path_parent (render names) = (if names = [] then None else Some (render (butlast names)))"
proof (cases "names = []")
  case True
  then show ?thesis
    by (simp add: path_parent_def path_body_render trim_pieces_def meaningful_def)
next
  case False
  have "list_all valid_name (butlast names)"
    using assms by (auto simp: list_all_iff dest: in_set_butlastD)
  with False assms show ?thesis
    by (simp add: path_parent_def path_body_render trim_pieces_valid del: assemble.simps)
qed

lemma path_pop_render [simp]:
  "list_all valid_name names \<Longrightarrow>
     path_pop (render names) = (if names = [] then (False, render []) else (True, render (butlast names)))"
  by (simp add: path_pop_def path_parent_render)

lemma root_is_render: "''/'' = render []"
  by (simp add: render_def)

lemma list_all_butlast: "list_all P xs \<Longrightarrow> list_all P (butlast xs)"
  by (auto simp: list_all_iff dest: in_set_butlastD)

lemma walk_valid:
  "walk pieces names = Some names' \<Longrightarrow> list_all valid_name names \<Longrightarrow>
     \<forall>p\<in>set pieces. slash \<notin> set p \<and> NUL \<notin> set p \<Longrightarrow> list_all valid_name names'"
  by (induction pieces names rule: walk.induct)
    (auto split: if_splits simp: valid_name_def list_all_butlast)

lemma apply_pieces_walk:
  assumes "\<forall>p\<in>set pieces. slash \<notin> set p \<and> NUL \<notin> set p" and "list_all valid_name names"
  shows "apply_pieces err pieces (render names) =
           (case walk pieces names of None \<Rightarrow> Inl err | Some names' \<Rightarrow> Inr (render names'))"
  using assms
proof (induction pieces arbitrary: names)
  case (Cons piece pieces)
  consider "piece = [] \<or> piece = ''.''" | "piece = ''..''" | "valid_name piece"
    using Cons.prems by (auto simp: valid_name_def)
  then show ?case
  proof cases
    case 3
    then have "piece \<noteq> [] \<and> piece \<noteq> ''.'' \<and> piece \<noteq> ''..''" by (simp add: valid_name_def)
    with Cons 3 show ?thesis by simp
  qed (use Cons in \<open>simp_all add: list_all_butlast\<close>)
qed simp

lemma split_on_clean:
  assumes "NUL \<notin> set p"
  shows "\<forall>q\<in>set (split_on slash p). slash \<notin> set q \<and> NUL \<notin> set q"
  using assms split_on_no_sep split_on_piece_subset by fastforce

text \<open>Normalization computed on names: the reference that the string loops implement.\<close>

lemma normalize_path_walk:
  assumes "NUL \<notin> set p" and "is_absolute p"
  shows "normalize_path p =
           (case walk (split_on slash p) [] of
              None \<Rightarrow> Inl PathEscapesRoot | Some names \<Rightarrow> Inr (render names))"
  using assms apply_pieces_walk [OF split_on_clean [OF assms(1)], of "[]"]
  by (simp add: normalize_path_def root_is_render)

lemma normalize_path_InrE:
  assumes "normalize_path p = Inr q"
  obtains names where "q = render names" "list_all valid_name names"
    "walk (split_on slash p) [] = Some names" "NUL \<notin> set p" "is_absolute p"
proof -
  from assms have p: "NUL \<notin> set p" "is_absolute p"
    by (auto simp: normalize_path_def split: if_splits)
  with assms obtain names where n: "walk (split_on slash p) [] = Some names" "q = render names"
    by (auto simp: normalize_path_walk split: option.splits)
  with p show ?thesis using that walk_valid [OF n(1) _ split_on_clean] by simp
qed

text \<open>
  C4. Whatever path the host, the guest or the configuration passes in, a successful
  normalization returns an absolute path whose components are plain names: no empty component,
  no \<open>.\<close>, no \<open>..\<close>, no NUL byte. This is the path that every sandbox operation then uses.
\<close>

theorem normalize_path_components:
  assumes "normalize_path p = Inr q"
  shows "\<exists>names. components q = RootDir # map Normal names \<and>
           (\<forall>n\<in>set names. n \<noteq> [] \<and> n \<noteq> ''.'' \<and> n \<noteq> ''..'' \<and> slash \<notin> set n \<and> NUL \<notin> set n)"
proof -
  from assms obtain names where "q = render names" and valid: "list_all valid_name names"
    by (rule normalize_path_InrE)
  then have "components q = RootDir # map Normal names" by simp
  with valid show ?thesis by (auto simp: list_all_iff valid_name_def)
qed

theorem normalize_path_components_witness:
  "normalize_path ''/work/./src//../main.py'' = Inr ''/work/main.py'' \<and>
   (\<exists>names. components ''/work/main.py'' = RootDir # map Normal names)"
proof -
  have eq: "normalize_path ''/work/./src//../main.py'' = Inr ''/work/main.py''" by code_simp
  with normalize_path_components [OF eq] show ?thesis by blast
qed

lemma canonical_normalized: "normalize_path p = Inr q \<Longrightarrow> canonical q"
  by (auto elim!: normalize_path_InrE simp: canonical_def)

lemma walk_valid_names: "list_all valid_name pieces \<Longrightarrow> walk pieces names = Some (names @ pieces)"
  by (induction pieces arbitrary: names) (auto simp: valid_name_def)

lemma split_on_render:
  "list_all valid_name names \<Longrightarrow> split_on slash (render names) = [] # (if names = [] then [[]] else names)"
  using split_on_join [OF valid_names_no_slash] by (auto simp: render_def)

lemma NUL_notin_render: "list_all valid_name names \<Longrightarrow> NUL \<notin> set (render names)"
proof (induction names rule: rev_induct)
  case (snoc n ns)
  then show ?case by (cases "ns = []") (auto simp: render_def join_with_snoc valid_name_def)
qed (simp add: render_def)

lemma normalize_path_render [simp]:
  "list_all valid_name names \<Longrightarrow> normalize_path (render names) = Inr (render names)"
  by (simp add: normalize_path_walk NUL_notin_render split_on_render walk_valid_names)

lemma canonical_fixpoint: "canonical q \<Longrightarrow> normalize_path q = Inr q"
  by (auto simp: canonical_def)

text \<open>
  Normalization is idempotent: a normalized path is its own normal form, so the many layers
  that normalize again (command lookup, registry, events) agree on the path.
\<close>

theorem normalize_path_idempotent:
  assumes "normalize_path p = Inr q"
  shows "normalize_path q = Inr q"
  using assms by (auto elim!: normalize_path_InrE)

theorem normalize_path_idempotent_witness:
  "normalize_path ''/a//b/'' = Inr ''/a/b'' \<and> normalize_path ''/a/b'' = Inr ''/a/b''"
proof -
  have eq: "normalize_path ''/a//b/'' = Inr ''/a/b''" by code_simp
  with normalize_path_idempotent [OF eq] show ?thesis by blast
qed

section \<open>When normalization fails\<close>

text \<open>The depth below the starting directory after some pieces: names go down, \<open>..\<close> goes up.\<close>

fun depth :: "string list \<Rightarrow> int" where
  "depth [] = 0"
| "depth (piece # pieces) =
     (if piece = [] \<or> piece = ''.'' then 0 else if piece = ''..'' then - 1 else 1) + depth pieces"

lemma walk_None_iff:
  "walk pieces names = None \<longleftrightarrow> (\<exists>k\<le>length pieces. int (length names) + depth (take k pieces) < 0)"
proof (induction pieces names rule: walk.induct)
  case (2 piece pieces names)
  have split: "(\<exists>k\<le>length (piece # pieces). int (length names) + depth (take k (piece # pieces)) < 0) \<longleftrightarrow>
      (\<exists>k\<le>length pieces. int (length names) + depth (piece # take k pieces) < 0)" (is "?L \<longleftrightarrow> ?R")
  proof
    assume ?L
    then obtain k where k: "k \<le> Suc (length pieces)" "int (length names) + depth (take k (piece # pieces)) < 0"
      by auto
    then show ?R by (cases k) auto
  next
    assume ?R
    then obtain k where "k \<le> length pieces" "int (length names) + depth (piece # take k pieces) < 0" by auto
    then show ?L by (intro exI [of _ "Suc k"]) simp
  qed
  consider "piece = [] \<or> piece = ''.''" | "piece = ''..''" "names = []" | "piece = ''..''" "names \<noteq> []"
    | "\<not> (piece = [] \<or> piece = ''.'')" "piece \<noteq> ''..''" by blast
  then show ?case
  proof cases
    case 2
    then show ?thesis by (auto intro!: exI [of _ "Suc 0"])
  next
    case 3
    then have "int (length (butlast names)) = int (length names) - 1" by (cases names) auto
    with 3 "2.IH"(2) show ?thesis unfolding split by (simp add: algebra_simps)
  qed (unfold split, use "2.IH" in \<open>simp_all add: algebra_simps\<close>)
qed auto

text \<open>
  C5. Escape detection is exact: an absolute path without NUL bytes is rejected precisely when
  some prefix of it climbs above the root, that is, contains more \<open>..\<close> than names; every other
  such path is normalized. Nothing outside the sandbox root can be named and no legitimate path is
  refused.
\<close>

theorem normalize_path_escapes_iff:
  assumes "is_absolute p" and "NUL \<notin> set p"
  shows "(\<exists>q. normalize_path p = Inr q) \<longleftrightarrow>
           (\<forall>k\<le>length (split_on slash p). 0 \<le> depth (take k (split_on slash p)))"
    (is "?L \<longleftrightarrow> ?R")
proof -
  have "?L \<longleftrightarrow> walk (split_on slash p) [] \<noteq> None"
    using assms by (simp add: normalize_path_walk split: option.splits)
  then show ?thesis by (simp add: walk_None_iff not_less)
qed

theorem normalize_path_escapes_iff_witness:
  "normalize_path ''/a/../../b'' = Inl PathEscapesRoot \<and>
   \<not> (\<forall>k\<le>5. 0 \<le> depth (take k (split_on slash ''/a/../../b'')))"
proof -
  have eq: "normalize_path ''/a/../../b'' = Inl PathEscapesRoot" by code_simp
  have len: "length (split_on slash ''/a/../../b'') = 5" by code_simp
  have "is_absolute ''/a/../../b''" and "NUL \<notin> set ''/a/../../b''" by code_simp+
  from normalize_path_escapes_iff [OF this] show ?thesis unfolding len eq by simp
qed

section \<open>Command paths\<close>

lemma walk_append: "walk (xs @ ys) names = Option.bind (walk xs names) (walk ys)"
  by (induction xs names rule: walk.induct) auto

lemma normalize_command_path_walk:
  assumes "\<not> is_absolute c" and "NUL \<notin> set c" and "list_all valid_name names"
  shows "normalize_command_path c (render names) =
           (case walk (split_on slash c) names of
              None \<Rightarrow> Inl CommandPathEscapesRoot | Some names' \<Rightarrow> Inr (render names'))"
proof (cases "walk (split_on slash c) names")
  case None
  then show ?thesis
    using assms apply_pieces_walk [OF split_on_clean [OF assms(2)] assms(3)]
    by (simp add: normalize_command_path_def)
next
  case (Some names')
  then have "list_all valid_name names'"
    using walk_valid [OF _ assms(3) split_on_clean [OF assms(2)]] by blast
  with Some show ?thesis
    using assms apply_pieces_walk [OF split_on_clean [OF assms(2)] assms(3)]
    by (simp add: normalize_command_path_def)
qed

lemma split_on_push_render:
  assumes "list_all valid_name names" and "\<not> is_absolute c"
  shows "walk (split_on slash (path_push (render names) c)) [] = walk (split_on slash c) names"
proof (cases "names = []")
  case True
  then show ?thesis using assms by (simp add: path_push_def render_def)
next
  case False
  then have push: "path_push (render names) c = render names @ slash # c"
    using assms last_render by (simp add: path_push_def render_def)
  show ?thesis
    using False assms(1)
    by (simp add: push split_on_append_sep split_on_render walk_append walk_valid_names)
qed

lemma NUL_path_push: "NUL \<in> set (path_push p q) \<longleftrightarrow> NUL \<in> set q \<or> (\<not> is_absolute q \<and> NUL \<in> set p)"
  by (auto simp: path_push_def)

lemma is_absolute_push_render [simp]: "is_absolute (path_push (render names) c)"
  by (simp add: path_push_def is_absolute_def render_def)

text \<open>
  C38. A relative command path means what a shell user expects: resolving it piece by piece from
  the working directory gives the same path as normalizing the working directory with the command
  appended, and it is refused exactly when that path leaves the root.
\<close>

theorem command_path_is_joined_path:
  assumes "canonical cwd" and "\<not> is_absolute c" and "NUL \<notin> set c"
  shows "normalize_command_path c cwd =
           (case normalize_path (path_push cwd c) of
              Inr q \<Rightarrow> Inr q | Inl _ \<Rightarrow> Inl CommandPathEscapesRoot)"
proof -
  from assms(1) obtain names where n: "list_all valid_name names" "cwd = render names"
    by (auto simp: canonical_def)
  have "NUL \<notin> set (path_push cwd c)"
    using assms(2,3) n by (simp add: NUL_path_push NUL_notin_render)
  then show ?thesis
    using n assms(2,3)
    by (simp add: normalize_command_path_walk normalize_path_walk split_on_push_render split: option.splits)
qed

theorem command_path_is_joined_path_witness:
  "normalize_command_path ''../bin/./tool'' ''/usr/lib'' = Inr ''/usr/bin/tool''"
proof -
  have can: "canonical ''/usr/lib''"
    by (intro canonical_normalized [of "''/usr/lib''"]) code_simp
  have rel: "\<not> is_absolute ''../bin/./tool''" and nul: "NUL \<notin> set ''../bin/./tool''" by code_simp+
  have "normalize_path (path_push ''/usr/lib'' ''../bin/./tool'') = Inr ''/usr/bin/tool''" by code_simp
  with command_path_is_joined_path [OF can rel nul] show ?thesis by simp
qed

lemma normalize_command_path_canonical:
  assumes "normalize_command_path c cwd = Inr q"
  shows "canonical q"
  using assms by (auto simp: normalize_command_path_def canonical_normalized split: if_splits sum.splits)

text \<open>
  Every candidate that a \<open>PATH\<close> search tries is canonical, whatever the entry: empty, \<open>.\<close>,
  relative or absolute. The lookup tables, which hold normalized paths, are therefore probed with
  keys of their own kind.
\<close>

theorem path_entry_canonical:
  assumes "command_path_from_path_entry directory command cwd = Inr q"
  shows "canonical q"
  using assms canonical_normalized normalize_command_path_canonical
  by (auto simp: command_path_from_path_entry_def Let_def split: if_splits)

theorem path_entry_canonical_witness:
  "command_path_from_path_entry ''usr/bin'' ''cat'' ''/'' = Inr ''/usr/bin/cat'' \<and>
   canonical ''/usr/bin/cat''"
proof -
  have eq: "command_path_from_path_entry ''usr/bin'' ''cat'' ''/'' = Inr ''/usr/bin/cat''" by code_simp
  with path_entry_canonical [OF eq] show ?thesis by blast
qed

text \<open>An event names its path in normal form, as text; a path that cannot be normalized appears as it is.\<close>

lemma event_path_cases:
  "\<exists>q. event_path p = to_string_lossy q \<and> (canonical q \<or> q = p \<or> q = slash # p)"
  by (auto simp: event_path_def Let_def canonical_normalized path_push_def simp del: to_string_lossy_utf8 split: sum.splits)

lemma event_path_canonical [simp]: "canonical p \<Longrightarrow> event_path p = to_string_lossy p"
  by (auto simp: event_path_def canonical_def)

end
