(* ===== verification/Path_Map.thy ===== *)
theory Path_Map
  imports Paths
begin

text \<open>
  \<open>HashMap<PathBuf, V>\<close>: an association list whose keys are compared as \<open>std::path\<close> compares
  paths. The interface \<open>path_table\<close> states what a client may rely on after an insertion or a
  removal; its client lemmas cover the bulk operations of the registry and the catalog. The
  entries are in an unspecified order, so no client law mentions it.
\<close>

fun pm_get :: "(path \<times> 'v) list \<Rightarrow> path \<Rightarrow> 'v option" where
  "pm_get [] p = None"
| "pm_get ((k, v) # m) p = (if path_eq k p then Some v else pm_get m p)"

fun pm_insert :: "path \<Rightarrow> 'v \<Rightarrow> (path \<times> 'v) list \<Rightarrow> (path \<times> 'v) list" where
  "pm_insert p v [] = [(p, v)]"
| "pm_insert p v ((k, w) # m) = (if path_eq k p then (k, v) # m else (k, w) # pm_insert p v m)"

definition pm_remove :: "path \<Rightarrow> (path \<times> 'v) list \<Rightarrow> (path \<times> 'v) list" where
  "pm_remove p m = filter (\<lambda>(k, _). \<not> path_eq k p) m"

definition pm_wf :: "(path \<times> 'v) list \<Rightarrow> bool" where
  "pm_wf m \<longleftrightarrow> distinct (map (components \<circ> fst) m)"

lemma path_eq_refl [simp]: "path_eq p p"
  by (simp add: path_eq_def)

lemma path_eq_sym: "path_eq p q \<longleftrightarrow> path_eq q p"
  by (auto simp: path_eq_def)

lemma path_eq_trans: "path_eq p q \<Longrightarrow> path_eq q r \<Longrightarrow> path_eq p r"
  by (simp add: path_eq_def)

lemma pm_get_insert: "pm_get (pm_insert p v m) q = (if path_eq p q then Some v else pm_get m q)"
  by (induction m) (auto simp: path_eq_def)

lemma pm_get_remove: "pm_get (pm_remove p m) q = (if path_eq p q then None else pm_get m q)"
  by (induction m) (auto simp: path_eq_def pm_remove_def)

lemma keys_pm_insert:
  "map (components \<circ> fst) (pm_insert p v m) =
     (if components p \<in> set (map (components \<circ> fst) m) then map (components \<circ> fst) m
      else map (components \<circ> fst) m @ [components p])"
  by (induction p v m rule: pm_insert.induct) (auto simp: path_eq_def)

lemma pm_wf_insert: "pm_wf m \<Longrightarrow> pm_wf (pm_insert p v m)"
  unfolding pm_wf_def keys_pm_insert by simp

lemma pm_wf_remove: "pm_wf m \<Longrightarrow> pm_wf (pm_remove p m)"
  by (auto simp: pm_wf_def pm_remove_def distinct_map inj_on_def)

locale path_table =
  fixes get :: "'t \<Rightarrow> path \<Rightarrow> 'v option"
    and ins :: "path \<Rightarrow> 'v \<Rightarrow> 't \<Rightarrow> 't"
    and del :: "path \<Rightarrow> 't \<Rightarrow> 't"
    and wf :: "'t \<Rightarrow> bool"
  assumes get_ins: "get (ins p v t) q = (if path_eq p q then Some v else get t q)"
    and get_del: "get (del p t) q = (if path_eq p q then None else get t q)"
    and wf_ins: "wf t \<Longrightarrow> wf (ins p v t)"
    and wf_del: "wf t \<Longrightarrow> wf (del p t)"
begin

lemma get_fold_ins_other:
  "(\<forall>p\<in>set ps. \<not> path_eq (fst p) q) \<Longrightarrow> get (fold (\<lambda>(p, v). ins p v) ps t) q = get t q"
  by (induction ps arbitrary: t) (auto simp: get_ins)

lemma get_fold_del:
  "get (fold del ps t) q = (if \<exists>p\<in>set ps. path_eq p q then None else get t q)"
  by (induction ps arbitrary: t) (auto simp: get_del)

lemma wf_fold_ins: "wf t \<Longrightarrow> wf (fold (\<lambda>(p, v). ins p v) ps t)"
  by (induction ps arbitrary: t) (auto simp: wf_ins)

lemma wf_fold_del: "wf t \<Longrightarrow> wf (fold del ps t)"
  by (induction ps arbitrary: t) (auto simp: wf_del)

end

interpretation pm: path_table pm_get pm_insert pm_remove pm_wf
  by unfold_locales (simp_all add: pm_get_insert pm_get_remove pm_wf_insert pm_wf_remove)

lemma pm_get_SomeD: "pm_get m p = Some v \<Longrightarrow> \<exists>k. (k, v) \<in> set m \<and> path_eq k p"
  by (induction m) (auto split: if_splits)

lemma pm_get_mem: "pm_wf m \<Longrightarrow> (k, v) \<in> set m \<Longrightarrow> pm_get m k = Some v"
  by (induction m) (force simp: pm_wf_def path_eq_def)+

end
