(* ===== verification/Captured_Output.thy ===== *)
theory Captured_Output
  imports Errors
begin

text \<open>
  Captured stdout and stderr of a process: \<open>CapturedOutput\<close>, its shared \<open>CapturedOutputState\<close>
  and \<open>LimitedCaptureFile\<close> of \<open>src/core.rs\<close>. The state is behind \<open>Arc<Mutex<..>>\<close>, so an
  operation of a file takes the shared state and the file's own cursor and returns both; several
  files may share one state. \<open>cap_poisoned\<close> is the poison flag of the mutex.
\<close>

section \<open>State\<close>

record capture_state =
  cap_data :: bytes
  cap_limit :: nat
  cap_exceeded :: bool
  cap_poisoned :: bool

datatype seek_from = SeekStart u64 | SeekEnd "64 word" | SeekCurrent "64 word"

definition capture_new :: "nat \<Rightarrow> capture_state" where
  "capture_new limit =
     \<lparr>cap_data = [], cap_limit = limit, cap_exceeded = False, cap_poisoned = False\<rparr>"

definition capture_file_cursor :: u64 where
  "capture_file_cursor = 0"

definition capture :: "string \<Rightarrow> capture_state \<Rightarrow> error + bytes" where
  "capture stream_name st =
     (if cap_poisoned st then Inl (CaptureLockFailed stream_name)
      else if cap_exceeded st then Inl (OutputExceeded stream_name (cap_limit st))
      else Inr (cap_data st))"

section \<open>Writing\<close>

definition output_limit_error :: "nat \<Rightarrow> io_error" where
  "output_limit_error limit = OutputLimit limit"

definition write_limited ::
  "bytes \<Rightarrow> capture_state \<Rightarrow> u64 \<Rightarrow> (io_error + nat) \<times> capture_state \<times> u64" where
  "write_limited buf st cursor =
     (if buf = [] then (Inr 0, st, cursor)
      else if cap_poisoned st then (Inl CaptureLockFailedIo, st, cursor)
      else if cap_exceeded st then (Inl (output_limit_error (cap_limit st)), st, cursor)
      else
        let available = cap_limit st - length (cap_data st) in
        if available = 0
        then (Inl (output_limit_error (cap_limit st)), st\<lparr>cap_exceeded := True\<rparr>, cursor)
        else
          let write_len = min available (length buf);
              st1 = st\<lparr>cap_data := cap_data st @ take write_len buf\<rparr>;
              cursor1 = of_nat (length (cap_data st1));
              st2 = (if write_len < length buf then st1\<lparr>cap_exceeded := True\<rparr> else st1)
          in (Inr write_len, st2, cursor1))"

definition capture_poll_write ::
  "bytes \<Rightarrow> capture_state \<Rightarrow> u64 \<Rightarrow> (io_error + nat) poll \<times> capture_state \<times> u64" where
  "capture_poll_write buf st cursor =
     (case write_limited buf st cursor of (r, st', cursor') \<Rightarrow> (Ready r, st', cursor'))"

fun capture_poll_write_vectored ::
  "bytes list \<Rightarrow> capture_state \<Rightarrow> u64 \<Rightarrow> (io_error + nat) poll \<times> capture_state \<times> u64" where
  "capture_poll_write_vectored [] st cursor = capture_poll_write [] st cursor"
| "capture_poll_write_vectored (candidate # bufs) st cursor =
     (if candidate \<noteq> [] then capture_poll_write candidate st cursor
      else capture_poll_write_vectored bufs st cursor)"

definition capture_poll_flush :: "(io_error + unit) poll" where
  "capture_poll_flush = Ready (Inr ())"

definition capture_poll_shutdown :: "(io_error + unit) poll" where
  "capture_poll_shutdown = Ready (Inr ())"

section \<open>Seeking and reading\<close>

definition capture_start_seek ::
  "seek_from \<Rightarrow> capture_state \<Rightarrow> u64 \<Rightarrow> (io_error + unit) \<times> u64" where
  "capture_start_seek position st cursor =
     (if cap_poisoned st then (Inl CaptureLockFailedIo, cursor)
      else
        let len = int (length (cap_data st));
            current = uint cursor;
            next = (case position of
                      SeekStart offset \<Rightarrow> uint offset
                    | SeekEnd offset \<Rightarrow> len + sint offset
                    | SeekCurrent offset \<Rightarrow> current + sint offset)
        in if next < 0 then (Inl SeekBeforeStart, cursor)
           else (Inr (), word_of_int next))"

definition capture_poll_complete :: "u64 \<Rightarrow> (io_error + u64) poll" where
  "capture_poll_complete cursor = Ready (Inr cursor)"

definition capture_poll_read ::
  "nat \<Rightarrow> capture_state \<Rightarrow> u64 \<Rightarrow> (io_error + bytes) poll \<times> u64" where
  "capture_poll_read remaining st cursor =
     (if cap_poisoned st then (Ready (Inl CaptureLockFailedIo), cursor)
      else
        let start = min (unat cursor) (length (cap_data st));
            available = drop start (cap_data st);
            read_len = min (length available) remaining
        in (Ready (Inr (take read_len available)), cursor + of_nat read_len))"

section \<open>The \<open>VirtualFile\<close> operations\<close>

definition capture_timestamp :: u64 where
  "capture_timestamp = 1000000000"

definition capture_size :: "capture_state \<Rightarrow> u64" where
  "capture_size st = (if cap_poisoned st then 0 else of_nat (length (cap_data st)))"

definition resize :: "nat \<Rightarrow> bytes \<Rightarrow> bytes" where
  "resize n bs = take n bs @ replicate (n - length bs) 0"

definition capture_set_len ::
  "u64 \<Rightarrow> capture_state \<Rightarrow> u64 \<Rightarrow> (fs_error + unit) \<times> capture_state \<times> u64" where
  "capture_set_len new_size st cursor =
     (if cap_poisoned st then (Inl LockError, st, cursor)
      else if of_nat (cap_limit st) < new_size
      then (Inl StorageFull, st\<lparr>cap_exceeded := True\<rparr>, cursor)
      else (Inr (), st\<lparr>cap_data := resize (unat new_size) (cap_data st)\<rparr>, min cursor new_size))"

definition capture_unlink :: "fs_error + unit" where
  "capture_unlink = Inr ()"

definition capture_poll_read_ready :: "capture_state \<Rightarrow> u64 \<Rightarrow> (io_error + nat) poll" where
  "capture_poll_read_ready st cursor =
     (if cap_poisoned st then Ready (Inl CaptureLockFailedIo)
      else Ready (Inr (length (cap_data st) - unat cursor)))"

definition capture_poll_write_ready ::
  "capture_state \<Rightarrow> (io_error + nat) poll \<times> capture_state" where
  "capture_poll_write_ready st =
     (if cap_poisoned st then (Ready (Inl CaptureLockFailedIo), st)
      else if cap_exceeded st then (Ready (Inl (output_limit_error (cap_limit st))), st)
      else
        let remaining = cap_limit st - length (cap_data st) in
        if remaining = 0
        then (Ready (Inl (output_limit_error (cap_limit st))), st\<lparr>cap_exceeded := True\<rparr>)
        else (Ready (Inr (min remaining 8192)), st))"

section \<open>Runs over any number of handles\<close>

text \<open>
  Handles are numbered; each has its cursor, all share the state. \<open>capture_step\<close> is one operation
  by one handle, in the order in which the operations take the lock.
\<close>

datatype capture_op =
    OpWrite bytes
  | OpWriteVectored "bytes list"
  | OpSeek seek_from
  | OpRead nat
  | OpSetLen u64
  | OpWriteReady

type_synonym capture_world = "capture_state \<times> (nat \<Rightarrow> u64)"

fun capture_step :: "capture_world \<Rightarrow> nat \<times> capture_op \<Rightarrow> capture_world" where
  "capture_step (st, cur) (h, OpWrite buf) =
     (case capture_poll_write buf st (cur h) of (_, st', c) \<Rightarrow> (st', cur(h := c)))"
| "capture_step (st, cur) (h, OpWriteVectored bufs) =
     (case capture_poll_write_vectored bufs st (cur h) of (_, st', c) \<Rightarrow> (st', cur(h := c)))"
| "capture_step (st, cur) (h, OpSeek position) =
     (st, cur(h := snd (capture_start_seek position st (cur h))))"
| "capture_step (st, cur) (h, OpRead remaining) =
     (st, cur(h := snd (capture_poll_read remaining st (cur h))))"
| "capture_step (st, cur) (h, OpSetLen n) =
     (case capture_set_len n st (cur h) of (_, st', c) \<Rightarrow> (st', cur(h := c)))"
| "capture_step (st, cur) (h, OpWriteReady) = (snd (capture_poll_write_ready st), cur)"

definition capture_inv :: "capture_state \<Rightarrow> bool" where
  "capture_inv st \<longleftrightarrow> length (cap_data st) \<le> cap_limit st \<and> cap_limit st \<le> usize_max"

definition capture_le :: "capture_state \<Rightarrow> capture_state \<Rightarrow> bool" where
  "capture_le st st' \<longleftrightarrow>
     cap_limit st' = cap_limit st \<and> cap_poisoned st' = cap_poisoned st \<and>
     (cap_exceeded st \<longrightarrow> cap_exceeded st')"

lemma capture_inv_new [intro]: "limit \<le> usize_max \<Longrightarrow> capture_inv (capture_new limit)"
  by (simp add: capture_inv_def capture_new_def)

lemma capture_le_refl [simp, intro]: "capture_le st st"
  by (simp add: capture_le_def)

lemma capture_le_trans: "capture_le a b \<Longrightarrow> capture_le b c \<Longrightarrow> capture_le a c"
  by (auto simp: capture_le_def)

lemma write_limited_state:
  assumes "write_limited buf st cursor = (r, st', cursor')" and "capture_inv st"
  shows "capture_inv st' \<and> capture_le st st'"
  using assms by (auto simp: write_limited_def capture_inv_def capture_le_def Let_def split: if_splits)

lemma write_vectored_first:
  "capture_poll_write_vectored bufs st cursor =
     capture_poll_write (case dropWhile (\<lambda>b. b = []) bufs of [] \<Rightarrow> [] | b # _ \<Rightarrow> b) st cursor"
  by (induction bufs) auto

lemma capture_poll_write_state:
  assumes "capture_poll_write buf st cursor = (r, st', cursor')" and "capture_inv st"
  shows "capture_inv st' \<and> capture_le st st'"
  using assms by (auto simp: capture_poll_write_def split: prod.splits dest: write_limited_state)

lemma unat_le_limit:
  assumes "\<not> of_nat n < (w :: u64)" and "n \<le> usize_max"
  shows "unat w \<le> n"
proof -
  from assms have "w \<le> of_nat n" by (simp add: not_less)
  then have "unat w \<le> unat (of_nat n :: u64)" by (simp add: word_le_nat_alt)
  moreover from assms(2) have "n < 2 ^ 64" by (simp add: usize_max_def)
  ultimately show ?thesis by (simp add: unat_of_nat_u64)
qed

lemma length_resize [simp]: "length (resize n bs) = n"
  by (simp add: resize_def)

lemma capture_set_len_state:
  assumes "capture_set_len n st cursor = (r, st', cursor')" and "capture_inv st"
  shows "capture_inv st' \<and> capture_le st st'"
  using assms by (auto simp: capture_set_len_def capture_inv_def capture_le_def
      unat_le_limit split: if_splits)

lemma capture_poll_write_ready_state:
  assumes "capture_inv st"
  shows "capture_inv (snd (capture_poll_write_ready st)) \<and> capture_le st (snd (capture_poll_write_ready st))"
  using assms by (auto simp: capture_poll_write_ready_def capture_inv_def capture_le_def Let_def)

lemmas capture_op_states =
  capture_poll_write_state capture_set_len_state capture_poll_write_ready_state

lemma capture_step_state:
  assumes "capture_inv (fst w)"
  shows "capture_inv (fst (capture_step w x)) \<and> capture_le (fst w) (fst (capture_step w x))"
  using assms by (cases "(w, x)" rule: capture_step.cases)
    (auto simp: write_vectored_first dest: capture_op_states split: prod.splits)

interpretation capture: growing_machine capture_step "\<lambda>w. capture_inv (fst w)"
  "\<lambda>v w. capture_le (fst v) (fst w)"
  by unfold_locales (auto simp: capture_step_state intro: capture_le_trans)

text \<open>
  C1. However many handles write, seek, read, resize and poll, in whatever order, the bytes held
  for a stream never exceed its configured limit, the limit itself never moves, and once the
  stream is marked as exceeded it stays so.
\<close>

theorem capture_bounded:
  assumes "limit \<le> usize_max"
    and "st = fst (foldl capture_step (capture_new limit, cur) ops)"
    and "st' = fst (foldl capture_step (capture_new limit, cur) (ops @ later))"
  shows "length (cap_data st) \<le> limit \<and> cap_limit st = limit \<and>
         (cap_exceeded st \<longrightarrow> cap_exceeded st')"
proof -
  let ?w = "foldl capture_step (capture_new limit, cur) ops"
  have inv: "capture_inv (fst ?w)"
    using capture.run_inv [of "(capture_new limit, cur)" ops] assms(1) by (simp add: capture_inv_new)
  have "capture_le (capture_new limit) (fst ?w)"
    using capture.run_le [of "(capture_new limit, cur)" ops] assms(1) by (simp add: capture_inv_new)
  moreover have "capture_le (fst ?w) st'"
    using capture.run_le [OF inv, of later] assms(3) by simp
  ultimately show ?thesis
    using inv assms(2) by (simp add: capture_inv_def capture_le_def capture_new_def)
qed

theorem capture_bounded_witness:
  "let st = fst (foldl capture_step (capture_new 2, \<lambda>_. 0) [(0, OpWrite [1, 2, 3])]) in
     length (cap_data st) \<le> 2 \<and> cap_exceeded st"
  using capture_bounded [of 2 _ "\<lambda>_. 0" "[(0, OpWrite [1, 2, 3])]" _ "[]", OF _ refl refl]
  by (simp add: usize_max_def capture_new_def capture_poll_write_def write_limited_def)

section \<open>What is captured\<close>

text \<open>The captured bytes of a stream that is only written to, whatever the sizes of the writes.\<close>

fun write_bufs :: "bytes list \<Rightarrow> capture_state \<Rightarrow> u64 \<Rightarrow> capture_state \<times> u64" where
  "write_bufs [] st cursor = (st, cursor)"
| "write_bufs (buf # bufs) st cursor =
     (case capture_poll_write buf st cursor of (_, st', cursor') \<Rightarrow> write_bufs bufs st' cursor')"

definition captured :: "nat \<Rightarrow> bytes \<Rightarrow> capture_state \<Rightarrow> bool" where
  "captured limit written st \<longleftrightarrow>
     cap_data st = take limit written \<and> cap_limit st = limit \<and>
     (cap_exceeded st \<longleftrightarrow> limit < length written) \<and> \<not> cap_poisoned st"

lemma captured_new: "captured limit [] (capture_new limit)"
  by (simp add: captured_def capture_new_def)

lemma captured_write:
  assumes "captured limit written st" and "capture_poll_write buf st cursor = (r, st', cursor')"
  shows "captured limit (written @ buf) st'"
proof (cases "length written \<le> limit")
  case True
  with assms show ?thesis
    by (auto simp: captured_def capture_poll_write_def write_limited_def Let_def min_def
        split: if_splits prod.splits)
next
  case False
  with assms show ?thesis
    by (auto simp: captured_def capture_poll_write_def write_limited_def split: if_splits prod.splits)
qed

lemma captured_writes:
  "captured limit written st \<Longrightarrow>
     captured limit (written @ concat bufs) (fst (write_bufs bufs st cursor))"
proof (induction bufs arbitrary: written st cursor)
  case (Cons buf bufs)
  obtain r st' cursor' where w: "capture_poll_write buf st cursor = (r, st', cursor')"
    by (metis prod_cases3)
  have "captured limit ((written @ buf) @ concat bufs) (fst (write_bufs bufs st' cursor'))"
    by (intro Cons.IH captured_write [OF Cons.prems w])
  then show ?case by (simp add: w)
qed simp

text \<open>
  C2. The result of a run is exact: after any sequence of writes to a fresh stream, \<open>capture\<close>
  returns precisely the bytes written if they fit the limit, and otherwise fails with the limit
  error; it never returns a truncated output as if it were complete.
\<close>

theorem capture_exact:
  "capture name (fst (write_bufs bufs (capture_new limit) cursor)) =
     (if length (concat bufs) \<le> limit then Inr (concat bufs)
      else Inl (OutputExceeded name limit))"
proof -
  have "captured limit (concat bufs) (fst (write_bufs bufs (capture_new limit) cursor))"
    using captured_writes [OF captured_new] by fastforce
  then show ?thesis by (auto simp: captured_def capture_def)
qed

text \<open>
  \<open>AsyncWriteExt::write_all\<close>: write, drop what was accepted, repeat; an accepted length of zero
  for a non-empty buffer is the \<open>WriteZero\<close> error of the standard library.
\<close>

function write_all :: "bytes \<Rightarrow> capture_state \<Rightarrow> u64 \<Rightarrow> (io_error + unit) \<times> capture_state \<times> u64" where
  "write_all buf st cursor =
     (if buf = [] then (Inr (), st, cursor)
      else (case write_limited buf st cursor of
              (Inl e, st', cursor') \<Rightarrow> (Inl e, st', cursor')
            | (Inr n, st', cursor') \<Rightarrow>
                if n = 0 then (Inl (ForeignIo 0), st', cursor')
                else write_all (drop n buf) st' cursor'))"
  by pat_completeness auto
termination
  by (relation "measure (\<lambda>(buf, _). length buf)") auto

declare write_all.simps [simp del]

lemma write_all_fits:
  assumes "length (cap_data st) + length buf \<le> cap_limit st" "\<not> cap_exceeded st" "\<not> cap_poisoned st"
  shows "\<exists>cursor'. write_all buf st cursor = (Inr (), st\<lparr>cap_data := cap_data st @ buf\<rparr>, cursor')"
proof (cases "buf = []")
  case True
  then show ?thesis by (simp add: write_all.simps)
next
  case False
  then have "length (cap_data st) < cap_limit st" using assms(1) by (cases buf) auto
  with assms False show ?thesis
    by (simp add: write_all.simps [of buf] write_limited_def write_all.simps [of "[]"] Let_def min_def)
qed

text \<open>
  A whole-buffer write to a fresh stream succeeds exactly when the buffer fits, and in both
  cases the first \<open>limit\<close> bytes are kept; when it does not fit the writer sees the limit error.
\<close>

theorem write_all_limit:
  "case write_all buf (capture_new limit) cursor of (r, st, _) \<Rightarrow>
     cap_data st = take limit buf \<and> (cap_exceeded st \<longleftrightarrow> limit < length buf) \<and>
     r = (if length buf \<le> limit then Inr () else Inl (output_limit_error limit))"
proof (cases "length buf \<le> limit")
  case True
  then obtain c where "write_all buf (capture_new limit) cursor =
      (Inr (), (capture_new limit)\<lparr>cap_data := cap_data (capture_new limit) @ buf\<rparr>, c)"
    using write_all_fits [of "capture_new limit" buf cursor] by (auto simp: capture_new_def)
  with True show ?thesis by (simp add: capture_new_def)
next
  case False
  then have "buf \<noteq> []" and "drop limit buf \<noteq> []" by auto
  with False show ?thesis
    by (simp add: write_all.simps [of buf] write_all.simps [of "drop limit buf"] write_limited_def
        capture_new_def Let_def min_def)
qed

section \<open>Readiness polls and seeks\<close>

text \<open>
  A readiness poll is not neutral on a stream that is exactly full: the output captured so far
  would be returned, but after \<open>poll_write_ready\<close> the stream counts as exceeded and \<open>capture\<close>
  fails, although no byte beyond the limit was ever written.
\<close>

theorem write_ready_on_full_stream:
  assumes "captured limit written st" and "length written = limit"
  shows "capture name st = Inr written \<and>
         capture name (snd (capture_poll_write_ready st)) = Inl (OutputExceeded name limit)"
  using assms by (simp add: captured_def capture_def capture_poll_write_ready_def)

theorem write_ready_on_full_stream_witness:
  "let st = fst (write_bufs [[7, 8]] (capture_new 2) 0) in
     capture ''stdout'' st = Inr [7, 8] \<and>
     capture ''stdout'' (snd (capture_poll_write_ready st)) = Inl (OutputExceeded ''stdout'' 2)"
  using write_ready_on_full_stream [OF captured_writes [OF captured_new, of 2 "[[7, 8]]" 0]]
  by simp

text \<open>
  Seeking is bounded below but not above: a target before the start is refused and leaves the
  cursor alone, any other target is stored modulo \<open>2 ^ 64\<close>, so a relative seek past the largest
  \<open>u64\<close> silently lands near the start of the stream.
\<close>

theorem capture_seek_current:
  assumes "\<not> cap_poisoned st"
  shows "capture_start_seek (SeekCurrent offset) st cursor =
           (if uint cursor + sint offset < 0 then (Inl SeekBeforeStart, cursor)
            else (Inr (), cursor + offset))"
proof -
  have "word_of_int (uint cursor + sint offset) = cursor + offset"
    by simp
  with assms show ?thesis by (simp add: capture_start_seek_def Let_def)
qed

theorem capture_seek_current_witness:
  "capture_start_seek (SeekCurrent 1) (capture_new 4) 0xFFFFFFFFFFFFFFFF = (Inr (), 0)"
  using capture_seek_current [of "capture_new 4" 1 "0xFFFFFFFFFFFFFFFF"]
  by (simp add: capture_new_def)

text \<open>Reading back through a handle: successive reads return successive slices of the data.\<close>

lemma capture_read_slice:
  assumes "capture_inv st" and "\<not> cap_poisoned st" and "unat cursor \<le> length (cap_data st)"
    and "capture_poll_read remaining st cursor = (r, cursor')"
  shows "r = Ready (Inr (take remaining (drop (unat cursor) (cap_data st)))) \<and>
         unat cursor' = min (unat cursor + remaining) (length (cap_data st))"
proof -
  let ?n = "min (length (cap_data st) - unat cursor) remaining"
  have bound: "unat cursor + ?n < 2 ^ 64"
    using assms(1,3) by (auto simp: capture_inv_def usize_max_def)
  then have "unat (cursor + of_nat ?n) = unat cursor + ?n"
    by (subst unat_add_lem [THEN iffD1]) (simp_all add: unat_of_nat_u64)
  with assms show ?thesis
    by (auto simp: capture_poll_read_def Let_def min_def)
qed

end
