(* ===== verification/Events.thy ===== *)
theory Events
  imports Errors
begin

text \<open>
  The event bus: \<open>FileSystemEvent\<close>, \<open>FileSystemEventKind\<close> and \<open>EventBus\<close> of \<open>src/core.rs\<close>, with
  the receiving operations of \<open>src/py_api.rs\<close>. The channel is \<open>tokio::sync::mpsc::channel\<close>: a
  bounded queue whose \<open>try_send\<close> fails when it is full or its receiver is gone.

  The first part is the sequential meaning of every operation. The second part gives \<open>emit\<close> its
  real granularity: any number of threads execute it concurrently, one atomic operation at a time,
  while the host enables, disables and drains the bus.
\<close>

section \<open>Events and the bus\<close>

datatype event_kind =
    FileCreated
  | FileModified
  | FileMetadataModified
  | FileRemoved
  | DirectoryCreated
  | DirectoryRemoved
  | PathRenamed
  | EventsDropped

fun kind_as_str :: "event_kind \<Rightarrow> string" where
  "kind_as_str FileCreated = ''file_created''"
| "kind_as_str FileModified = ''file_modified''"
| "kind_as_str FileMetadataModified = ''file_metadata_modified''"
| "kind_as_str FileRemoved = ''file_removed''"
| "kind_as_str DirectoryCreated = ''directory_created''"
| "kind_as_str DirectoryRemoved = ''directory_removed''"
| "kind_as_str PathRenamed = ''path_renamed''"
| "kind_as_str EventsDropped = ''events_dropped''"

record event =
  ev_sequence :: u64
  ev_kind :: event_kind
  ev_path :: string
  ev_target_path :: "string option"
  ev_dropped_count :: u64

record event_bus =
  eb_queue :: "event list"
  eb_capacity :: nat
  eb_receiver_open :: bool
  eb_enabled :: bool
  eb_sequence :: u64
  eb_dropped_count :: u64

text \<open>\<open>tokio::sync::mpsc::channel\<close> panics on capacity zero: \<open>None\<close>.\<close>

definition event_bus_new :: "nat \<Rightarrow> event_bus option" where
  "event_bus_new capacity =
     (if capacity = 0 then None
      else Some \<lparr>eb_queue = [], eb_capacity = capacity, eb_receiver_open = True,
                 eb_enabled = False, eb_sequence = 0, eb_dropped_count = 0\<rparr>)"

definition try_send :: "event \<Rightarrow> event_bus \<Rightarrow> bool \<times> event_bus" where
  "try_send e b =
     (if eb_receiver_open b \<and> length (eb_queue b) < eb_capacity b
      then (True, b\<lparr>eb_queue := eb_queue b @ [e]\<rparr>)
      else (False, b))"

definition set_enabled :: "bool \<Rightarrow> event_bus \<Rightarrow> event_bus" where
  "set_enabled enabled b =
     (let b1 = b\<lparr>eb_enabled := enabled\<rparr> in
      if enabled then b1 else b1\<lparr>eb_dropped_count := 0\<rparr>)"

definition bus_event ::
  "event_kind \<Rightarrow> string \<Rightarrow> string option \<Rightarrow> u64 \<Rightarrow> event_bus \<Rightarrow> event \<times> event_bus" where
  "bus_event kind path target_path dropped_count b =
     (\<lparr>ev_sequence = eb_sequence b + 1, ev_kind = kind, ev_path = path,
       ev_target_path = target_path, ev_dropped_count = dropped_count\<rparr>,
      b\<lparr>eb_sequence := eb_sequence b + 1\<rparr>)"

definition saturating_add :: "u64 \<Rightarrow> u64 \<Rightarrow> u64" where
  "saturating_add a b = (if unat a + unat b < 2 ^ 64 then a + b else - 1)"

definition emit_event ::
  "event_kind \<Rightarrow> string \<Rightarrow> string option \<Rightarrow> event_bus \<Rightarrow> event_bus" where
  "emit_event kind path target_path b =
     (case bus_event kind path target_path 0 b of (event, b1) \<Rightarrow>
        (case try_send event b1 of (sent, b2) \<Rightarrow>
           if sent then b2 else b2\<lparr>eb_dropped_count := eb_dropped_count b2 + 1\<rparr>))"

definition emit :: "event_kind \<Rightarrow> string \<Rightarrow> string option \<Rightarrow> event_bus \<Rightarrow> event_bus" where
  "emit kind path target_path b =
     (if \<not> eb_enabled b then b
      else
        let dropped_count = eb_dropped_count b;
            b1 = b\<lparr>eb_dropped_count := 0\<rparr>
        in if 0 < dropped_count then
             (case bus_event EventsDropped ''/'' None dropped_count b1 of (dropped_event, b2) \<Rightarrow>
                (case try_send dropped_event b2 of (sent, b3) \<Rightarrow>
                   if \<not> sent
                   then b3\<lparr>eb_dropped_count := eb_dropped_count b3 + saturating_add dropped_count 1\<rparr>
                   else emit_event kind path target_path b3))
           else emit_event kind path target_path b1)"

section \<open>The receiving end\<close>

text \<open>
  One poll of \<open>recv\<close> in \<open>next_event\<close>: \<open>senders\<close> says whether an \<open>EventBus\<close> still holds the sending end,
  so that an empty queue means waiting, and otherwise that the stream is closed. Both ways to clear
  the stream receive until the queue is empty; \<open>clear_events_now\<close> gives up at once if the receiver is
  locked, by a \<open>next_event\<close> that waits, and \<open>clear_events\<close> waits for the lock.
\<close>

definition next_event :: "bool \<Rightarrow> event_bus \<Rightarrow> (error + event) poll \<times> event_bus" where
  "next_event senders b =
     (case eb_queue b of
        e # es \<Rightarrow> (Ready (Inr e), b\<lparr>eb_queue := es\<rparr>)
      | [] \<Rightarrow> (if senders then Pending else Ready (Inl EventStreamClosed), b))"

definition clear_events :: "event_bus \<Rightarrow> event_bus" where
  "clear_events b = b\<lparr>eb_queue := []\<rparr>"

definition clear_events_now :: "bool \<Rightarrow> event_bus \<Rightarrow> event_bus" where
  "clear_events_now receiver_locked b = (if receiver_locked then b else clear_events b)"

section \<open>Concurrent emission\<close>

text \<open>
  The program counter of a thread inside \<open>emit\<close>, with its local variables: the arguments of the
  call and, once it has swapped the counter, the number of drops it carries.
\<close>

type_synonym emit_args = "event_kind \<times> string \<times> string option"

datatype emit_pc =
    Idle
  | Entered emit_args
  | Swapped u64 emit_args
  | HoldsDropEvent u64 event emit_args
  | PutsBack u64
  | DropsReported emit_args
  | HoldsEvent event
  | CountsOne

record bus_system =
  sys_bus :: event_bus
  sys_threads :: "emit_pc list"
  sys_received :: "event list"
  sys_emitted :: nat
  sys_forgotten :: nat

definition goto :: "bus_system \<Rightarrow> nat \<Rightarrow> emit_pc \<Rightarrow> bus_system" where
  "goto s i pc = s\<lparr>sys_threads := (sys_threads s)[i := pc]\<rparr>"

text \<open>
  One rule per atomic operation. The ghost fields count the emissions that found the bus enabled,
  collect what the host has received, and count the drops that disabling the bus discards.
\<close>

inductive bus_step :: "bus_system \<Rightarrow> bus_system \<Rightarrow> bool" where
  load_enabled: "i < length (sys_threads s) \<Longrightarrow> sys_threads s ! i = Idle \<Longrightarrow> eb_enabled (sys_bus s) \<Longrightarrow>
    kind \<noteq> EventsDropped \<Longrightarrow>
    bus_step s ((goto s i (Entered (kind, path, target)))\<lparr>sys_emitted := Suc (sys_emitted s)\<rparr>)"
| swap: "i < length (sys_threads s) \<Longrightarrow> sys_threads s ! i = Entered args \<Longrightarrow>
    bus_step s ((goto s i (Swapped (eb_dropped_count (sys_bus s)) args))
      \<lparr>sys_bus := (sys_bus s)\<lparr>eb_dropped_count := 0\<rparr>\<rparr>)"
| make_drop_event: "i < length (sys_threads s) \<Longrightarrow> sys_threads s ! i = Swapped d args \<Longrightarrow> 0 < d \<Longrightarrow>
    bus_event EventsDropped ''/'' None d (sys_bus s) = (e, b) \<Longrightarrow>
    bus_step s ((goto s i (HoldsDropEvent d e args))\<lparr>sys_bus := b\<rparr>)"
| no_drops: "i < length (sys_threads s) \<Longrightarrow> sys_threads s ! i = Swapped 0 args \<Longrightarrow>
    bus_step s (goto s i (DropsReported args))"
| send_drop_event: "i < length (sys_threads s) \<Longrightarrow> sys_threads s ! i = HoldsDropEvent d e args \<Longrightarrow>
    try_send e (sys_bus s) = (True, b) \<Longrightarrow>
    bus_step s ((goto s i (DropsReported args))\<lparr>sys_bus := b\<rparr>)"
| drop_event_refused: "i < length (sys_threads s) \<Longrightarrow> sys_threads s ! i = HoldsDropEvent d e args \<Longrightarrow>
    try_send e (sys_bus s) = (False, b) \<Longrightarrow>
    bus_step s ((goto s i (PutsBack d))\<lparr>sys_bus := b\<rparr>)"
| put_back: "i < length (sys_threads s) \<Longrightarrow> sys_threads s ! i = PutsBack d \<Longrightarrow>
    bus_step s ((goto s i Idle)
      \<lparr>sys_bus := (sys_bus s)\<lparr>eb_dropped_count := eb_dropped_count (sys_bus s) + saturating_add d 1\<rparr>\<rparr>)"
| make_event: "i < length (sys_threads s) \<Longrightarrow> sys_threads s ! i = DropsReported (kind, path, target) \<Longrightarrow>
    bus_event kind path target 0 (sys_bus s) = (e, b) \<Longrightarrow>
    bus_step s ((goto s i (HoldsEvent e))\<lparr>sys_bus := b\<rparr>)"
| send_event: "i < length (sys_threads s) \<Longrightarrow> sys_threads s ! i = HoldsEvent e \<Longrightarrow>
    try_send e (sys_bus s) = (True, b) \<Longrightarrow>
    bus_step s ((goto s i Idle)\<lparr>sys_bus := b\<rparr>)"
| event_refused: "i < length (sys_threads s) \<Longrightarrow> sys_threads s ! i = HoldsEvent e \<Longrightarrow>
    try_send e (sys_bus s) = (False, b) \<Longrightarrow>
    bus_step s ((goto s i CountsOne)\<lparr>sys_bus := b\<rparr>)"
| count_one: "i < length (sys_threads s) \<Longrightarrow> sys_threads s ! i = CountsOne \<Longrightarrow>
    bus_step s ((goto s i Idle)
      \<lparr>sys_bus := (sys_bus s)\<lparr>eb_dropped_count := eb_dropped_count (sys_bus s) + 1\<rparr>\<rparr>)"
| host_receives: "next_event senders (sys_bus s) = (Ready (Inr e), b) \<Longrightarrow>
    bus_step s (s\<lparr>sys_bus := b, sys_received := sys_received s @ [e]\<rparr>)"
| host_enables: "bus_step s (s\<lparr>sys_bus := (sys_bus s)\<lparr>eb_enabled := True\<rparr>\<rparr>)"
| host_disables: "bus_step s (s\<lparr>sys_bus := (sys_bus s)\<lparr>eb_enabled := False\<rparr>\<rparr>)"
| host_resets_drops: "bus_step s (s\<lparr>sys_bus := (sys_bus s)\<lparr>eb_dropped_count := 0\<rparr>,
    sys_forgotten := sys_forgotten s + unat (eb_dropped_count (sys_bus s))\<rparr>)"
| host_closes: "bus_step s (s\<lparr>sys_bus := (sys_bus s)\<lparr>eb_receiver_open := False\<rparr>\<rparr>)"

inductive bus_reachable :: "nat \<Rightarrow> nat \<Rightarrow> bus_system \<Rightarrow> bool" for capacity n where
  start: "event_bus_new capacity = Some b \<Longrightarrow>
    bus_reachable capacity n \<lparr>sys_bus = b, sys_threads = replicate n Idle, sys_received = [],
      sys_emitted = 0, sys_forgotten = 0\<rparr>"
| step: "bus_reachable capacity n s \<Longrightarrow> bus_step s t \<Longrightarrow> bus_reachable capacity n t"

text \<open>What a thread in the middle of \<open>emit\<close>, and an event on its way, still account for.\<close>

fun pc_weight :: "emit_pc \<Rightarrow> nat" where
  "pc_weight Idle = 0"
| "pc_weight (Entered args) = 1"
| "pc_weight (Swapped d args) = unat d + 1"
| "pc_weight (HoldsDropEvent d e args) = unat d + 1"
| "pc_weight (PutsBack d) = unat d + 1"
| "pc_weight (DropsReported args) = 1"
| "pc_weight (HoldsEvent e) = 1"
| "pc_weight CountsOne = 1"

definition event_weight :: "event \<Rightarrow> nat" where
  "event_weight e = (if ev_kind e = EventsDropped then unat (ev_dropped_count e) else 1)"

fun pc_ok :: "emit_pc \<Rightarrow> bool" where
  "pc_ok (Entered (k, p, t)) = (k \<noteq> EventsDropped)"
| "pc_ok (Swapped d (k, p, t)) = (k \<noteq> EventsDropped)"
| "pc_ok (HoldsDropEvent d e (k, p, t)) =
     (k \<noteq> EventsDropped \<and> ev_kind e = EventsDropped \<and> ev_dropped_count e = d)"
| "pc_ok (DropsReported (k, p, t)) = (k \<noteq> EventsDropped)"
| "pc_ok (HoldsEvent e) = (ev_kind e \<noteq> EventsDropped)"
| "pc_ok pc = True"

definition accounted :: "bus_system \<Rightarrow> nat" where
  "accounted s =
     sum_list (map event_weight (sys_received s @ eb_queue (sys_bus s))) +
     unat (eb_dropped_count (sys_bus s)) + sys_forgotten s +
     sum_list (map pc_weight (sys_threads s))"

definition bus_inv :: "bus_system \<Rightarrow> bool" where
  "bus_inv s \<longleftrightarrow> list_all pc_ok (sys_threads s) \<and>
     (sys_emitted s < 2 ^ 64 \<longrightarrow> accounted s = sys_emitted s)"

lemma sum_weight_update:
  assumes "i < length xs"
  shows "sum_list (map f (xs[i := x])) + f (xs ! i) = sum_list (map f xs) + (f x :: nat)"
  using assms
proof (induction xs arbitrary: i)
  case (Cons y ys)
  then show ?case by (cases i) fastforce+
qed simp

lemma weight_le_sum: "i < length xs \<Longrightarrow> f (xs ! i) \<le> (sum_list (map f xs) :: nat)"
  by (simp add: member_le_sum_list)

lemma goto_simps [simp]:
  "sys_bus (goto s i pc) = sys_bus s" "sys_received (goto s i pc) = sys_received s"
  "sys_emitted (goto s i pc) = sys_emitted s" "sys_forgotten (goto s i pc) = sys_forgotten s"
  "sys_threads (goto s i pc) = (sys_threads s)[i := pc]"
  by (simp_all add: goto_def)

lemma list_all_update: "list_all P xs \<Longrightarrow> P x \<Longrightarrow> list_all P (xs[i := x])"
  by (auto simp: list_all_iff dest!: set_update_subset_insert [THEN subsetD])

lemma list_all_nth: "list_all P xs \<Longrightarrow> i < length xs \<Longrightarrow> P (xs ! i)"
  by (simp add: list_all_length)

lemma saturating_add_one: "unat d + 1 < 2 ^ 64 \<Longrightarrow> unat (saturating_add d 1) = unat d + 1"
  by (simp add: saturating_add_def unat_word_ariths)

lemma unat_add_no_overflow: "unat a + unat b < 2 ^ 64 \<Longrightarrow> unat (a + b :: u64) = unat a + unat b"
  by (simp add: unat_word_ariths)

text \<open>A thread step that moves weight between the thread and the shared counters keeps the sum.\<close>

definition queue_weight :: "event_bus \<Rightarrow> nat" where
  "queue_weight b = sum_list (map event_weight (eb_queue b)) + unat (eb_dropped_count b)"

lemma accounted_move:
  assumes "i < length (sys_threads s)" and "sys_threads s ! i = pc"
    and "pc_weight pc' + queue_weight b = pc_weight pc + queue_weight (sys_bus s)"
  shows "accounted ((goto s i pc')\<lparr>sys_bus := b\<rparr>) = accounted s"
  using sum_weight_update [OF assms(1), of pc_weight pc'] assms(2,3)
  by (simp add: accounted_def queue_weight_def)

lemma goto_same_bus: "goto s i pc = (goto s i pc)\<lparr>sys_bus := sys_bus s\<rparr>"
  by (simp add: goto_def)

lemma queue_weight_simps [simp]:
  "queue_weight (b\<lparr>eb_sequence := n\<rparr>) = queue_weight b"
  "queue_weight (b\<lparr>eb_queue := eb_queue b @ [e]\<rparr>) = queue_weight b + event_weight e"
  "unat c = unat (eb_dropped_count b) + k \<Longrightarrow> queue_weight (b\<lparr>eb_dropped_count := c\<rparr>) = queue_weight b + k"
  by (simp_all add: queue_weight_def)

lemma queue_weight_reset:
  "queue_weight (b\<lparr>eb_dropped_count := 0\<rparr>) + unat (eb_dropped_count b) = queue_weight b"
  by (simp add: queue_weight_def)

lemma accounted_thread_le:
  assumes "i < length (sys_threads s)"
  shows "unat (eb_dropped_count (sys_bus s)) + pc_weight (sys_threads s ! i) \<le> accounted s"
  using weight_le_sum [OF assms, of pc_weight] by (simp add: accounted_def)

text \<open>Clearing the stream is receiving, and throwing away, what is queued.\<close>

lemma clear_events_receives:
  "bus_step\<^sup>*\<^sup>* s (s\<lparr>sys_bus := clear_events (sys_bus s), sys_received := sys_received s @ eb_queue (sys_bus s)\<rparr>)"
proof (induction "eb_queue (sys_bus s)" arbitrary: s)
  case Nil
  then have "s\<lparr>sys_bus := clear_events (sys_bus s), sys_received := sys_received s @ eb_queue (sys_bus s)\<rparr> = s"
    by (simp add: clear_events_def)
  then show ?case by simp
next
  case (Cons e es)
  let ?t = "s\<lparr>sys_bus := (sys_bus s)\<lparr>eb_queue := es\<rparr>, sys_received := sys_received s @ [e]\<rparr>"
  have "bus_step s ?t"
    using Cons.hyps(2) [symmetric] by (intro bus_step.host_receives [of True]) (simp add: next_event_def)
  moreover from Cons.hyps(1) [of ?t] Cons.hyps(2) [symmetric]
  have "bus_step\<^sup>*\<^sup>* ?t (s\<lparr>sys_bus := clear_events (sys_bus s), sys_received := sys_received s @ eb_queue (sys_bus s)\<rparr>)"
    by (simp add: clear_events_def)
  ultimately show ?case by (rule converse_rtranclp_into_rtranclp)
qed

lemmas bus_op_defs = bus_event_def try_send_def next_event_def

lemma bus_step_pc_ok: "bus_step s t \<Longrightarrow> list_all pc_ok (sys_threads s) \<Longrightarrow> list_all pc_ok (sys_threads t)"
  by (induction rule: bus_step.induct)
    (auto simp: bus_op_defs split: if_splits intro!: list_all_update dest: list_all_nth)

lemma bus_step_emitted_mono: "bus_step s t \<Longrightarrow> sys_emitted s \<le> sys_emitted t"
  by (induction rule: bus_step.induct) simp_all

lemma accounted_host [simp]:
  "accounted (s\<lparr>sys_bus := (sys_bus s)\<lparr>eb_enabled := on\<rparr>\<rparr>) = accounted s"
  "accounted (s\<lparr>sys_bus := (sys_bus s)\<lparr>eb_receiver_open := on\<rparr>\<rparr>) = accounted s"
  "accounted (s\<lparr>sys_bus := (sys_bus s)\<lparr>eb_dropped_count := 0\<rparr>,
     sys_forgotten := sys_forgotten s + unat (eb_dropped_count (sys_bus s))\<rparr>) = accounted s"
  by (simp_all add: accounted_def)

lemma put_back_weight:
  assumes "unat (eb_dropped_count b) + (unat d + 1) < 2 ^ 64"
  shows "queue_weight (b\<lparr>eb_dropped_count := eb_dropped_count b + saturating_add d 1\<rparr>) =
           queue_weight b + (unat d + 1)"
  using assms by (intro queue_weight_simps) (simp add: unat_add_no_overflow saturating_add_one)

lemma count_one_weight:
  assumes "unat (eb_dropped_count b) + 1 < 2 ^ 64"
  shows "queue_weight (b\<lparr>eb_dropped_count := eb_dropped_count b + 1\<rparr>) = queue_weight b + 1"
  using assms by (intro queue_weight_simps) (simp add: unat_word_ariths)

lemma bus_step_accounted:
  assumes "bus_step s t" and "list_all pc_ok (sys_threads s)"
    and "accounted s = sys_emitted s" and "sys_emitted t < 2 ^ 64"
  shows "accounted t = sys_emitted t"
  using assms
proof (cases rule: bus_step.cases)
  case (load_enabled i kind path target)
  with assms(3) sum_weight_update [of i "sys_threads s" pc_weight "Entered (kind, path, target)"]
  show ?thesis by (simp add: accounted_def)
next
  case (swap i args)
  with assms(3) show ?thesis
    using queue_weight_reset [of "sys_bus s"] by (simp add: accounted_move)
next
  case (no_drops i args)
  with assms(3) show ?thesis by (subst (asm) goto_same_bus) (simp add: accounted_move)
next
  case (send_drop_event i d e args b)
  then have "pc_ok (HoldsDropEvent d e args)" using assms(2) list_all_nth by fastforce
  then have "event_weight e = unat d" by (cases args) (simp add: event_weight_def)
  with send_drop_event assms(3) show ?thesis by (auto simp: try_send_def accounted_move split: if_splits)
next
  case (send_event i e b)
  then have "pc_ok (HoldsEvent e)" using assms(2) list_all_nth by fastforce
  then have "event_weight e = 1" by (simp add: event_weight_def)
  with send_event assms(3) show ?thesis by (auto simp: try_send_def accounted_move split: if_splits)
next
  case (put_back i d)
  with assms(3,4) have "unat (eb_dropped_count (sys_bus s)) + (unat d + 1) < 2 ^ 64"
    using accounted_thread_le [of i s] by simp
  with put_back assms(3) show ?thesis by (simp add: accounted_move put_back_weight)
next
  case (count_one i)
  with assms(3,4) have "unat (eb_dropped_count (sys_bus s)) + 1 < 2 ^ 64"
    using accounted_thread_le [of i s] by simp
  with count_one assms(3) show ?thesis by (simp add: accounted_move count_one_weight)
next
  case (host_receives senders e b)
  with assms(3) show ?thesis by (auto simp: accounted_def next_event_def split: list.splits if_splits)
qed (auto simp: accounted_move bus_op_defs split: if_splits)

lemma bus_inv_step: "bus_inv s \<Longrightarrow> bus_step s t \<Longrightarrow> bus_inv t"
  using bus_step_pc_ok bus_step_accounted bus_step_emitted_mono unfolding bus_inv_def
  by (meson le_less_trans)

lemma bus_reachable_inv: "bus_reachable capacity n s \<Longrightarrow> bus_inv s"
proof (induction rule: bus_reachable.induct)
  case (start b)
  then show ?case
    by (auto simp: bus_inv_def accounted_def event_bus_new_def sum_list_replicate list_all_length
        split: if_splits)
qed (rule bus_inv_step)

section \<open>The sequential \<open>emit\<close> is a run of the concurrent one\<close>

lemma goto_goto [simp]: "goto (goto s i pc) i pc' = goto s i pc'"
  by (simp add: goto_def)

lemma goto_bus [simp]: "goto (s\<lparr>sys_bus := b\<rparr>) i pc = (goto s i pc)\<lparr>sys_bus := b\<rparr>"
  by (simp add: goto_def)

lemma goto_emitted [simp]: "goto (s\<lparr>sys_emitted := k\<rparr>) i pc = (goto s i pc)\<lparr>sys_emitted := k\<rparr>"
  by (simp add: goto_def)

lemma goto_idle [simp]: "sys_threads s ! i = pc \<Longrightarrow> goto s i pc = s"
  by (auto simp: goto_def)

lemma emit_event_run:
  assumes i: "i < length (sys_threads s)" and pc: "sys_threads s ! i = DropsReported (kind, path, target)"
  shows "bus_step\<^sup>*\<^sup>* s ((goto s i Idle)\<lparr>sys_bus := emit_event kind path target (sys_bus s)\<rparr>)"
proof -
  obtain e b where e: "bus_event kind path target 0 (sys_bus s) = (e, b)" by fastforce
  obtain sent b' where b': "try_send e b = (sent, b')" by fastforce
  let ?s1 = "(goto s i (HoldsEvent e))\<lparr>sys_bus := b\<rparr>"
  have 1: "bus_step s ?s1" by (rule make_event [OF i pc e])
  show ?thesis
  proof (cases sent)
    case True
    then have "bus_step ?s1 ((goto ?s1 i Idle)\<lparr>sys_bus := b'\<rparr>)"
      using i b' by (intro send_event) simp_all
    with 1 True show ?thesis
      by (simp add: emit_event_def e b' converse_rtranclp_into_rtranclp)
  next
    case False
    let ?s2 = "(goto ?s1 i CountsOne)\<lparr>sys_bus := b'\<rparr>"
    have 2: "bus_step ?s1 ?s2" using i b' False by (intro event_refused) simp_all
    have "bus_step ?s2 ((goto ?s2 i Idle)
        \<lparr>sys_bus := (sys_bus ?s2)\<lparr>eb_dropped_count := eb_dropped_count (sys_bus ?s2) + 1\<rparr>\<rparr>)"
      using i by (intro count_one) simp_all
    with 1 2 False show ?thesis
      by (simp add: emit_event_def e b' converse_rtranclp_into_rtranclp)
  qed
qed

lemma report_drops_run:
  assumes i: "i < length (sys_threads s)" and pc: "sys_threads s ! i = Swapped d (kind, path, target)"
    and d: "0 < d"
    and e: "bus_event EventsDropped ''/'' None d (sys_bus s) = (e, b)" and sent: "try_send e b = (sent, b')"
  shows "bus_step\<^sup>*\<^sup>* s ((goto s i Idle)\<lparr>sys_bus :=
           if sent then emit_event kind path target b'
           else b'\<lparr>eb_dropped_count := eb_dropped_count b' + saturating_add d 1\<rparr>\<rparr>)"
proof -
  let ?s1 = "(goto s i (HoldsDropEvent d e (kind, path, target)))\<lparr>sys_bus := b\<rparr>"
  have 1: "bus_step s ?s1" by (rule make_drop_event [OF i pc d e])
  show ?thesis
  proof (cases sent)
    case True
    let ?s2 = "(goto ?s1 i (DropsReported (kind, path, target)))\<lparr>sys_bus := b'\<rparr>"
    have 2: "bus_step ?s1 ?s2" using i sent True by (intro send_drop_event) simp_all
    have "bus_step\<^sup>*\<^sup>* ?s2 ((goto ?s2 i Idle)\<lparr>sys_bus := emit_event kind path target (sys_bus ?s2)\<rparr>)"
      using i by (intro emit_event_run) simp_all
    with 1 2 True show ?thesis by (simp add: converse_rtranclp_into_rtranclp)
  next
    case False
    let ?s2 = "(goto ?s1 i (PutsBack d))\<lparr>sys_bus := b'\<rparr>"
    have 2: "bus_step ?s1 ?s2" using i sent False by (intro drop_event_refused) simp_all
    have "bus_step ?s2 ((goto ?s2 i Idle)\<lparr>sys_bus := (sys_bus ?s2)
        \<lparr>eb_dropped_count := eb_dropped_count (sys_bus ?s2) + saturating_add d 1\<rparr>\<rparr>)"
      using i by (intro put_back) simp_all
    with 1 2 False show ?thesis by (simp add: converse_rtranclp_into_rtranclp)
  qed
qed

lemma emit_run:
  assumes i: "i < length (sys_threads s)" and idle: "sys_threads s ! i = Idle"
    and kind: "kind \<noteq> EventsDropped" and on: "eb_enabled (sys_bus s)"
  shows "bus_step\<^sup>*\<^sup>* s (s\<lparr>sys_emitted := Suc (sys_emitted s), sys_bus := emit kind path target (sys_bus s)\<rparr>)"
proof -
  let ?args = "(kind, path, target)"
  let ?d = "eb_dropped_count (sys_bus s)"
  let ?s1 = "(goto s i (Entered ?args))\<lparr>sys_emitted := Suc (sys_emitted s)\<rparr>"
  let ?s2 = "(goto ?s1 i (Swapped ?d ?args))\<lparr>sys_bus := (sys_bus s)\<lparr>eb_dropped_count := 0\<rparr>\<rparr>"
  have 1: "bus_step s ?s1" by (rule load_enabled [OF i idle on kind])
  have 2: "bus_step ?s1 ?s2" using swap [of i ?s1 ?args] i by simp
  have same: "goto s i Idle = s" using idle by simp
  have "bus_step\<^sup>*\<^sup>* ?s2 ((goto ?s2 i Idle)\<lparr>sys_bus := emit kind path target (sys_bus s)\<rparr>)"
  proof (cases "0 < ?d")
    case True
    obtain e b where e: "bus_event EventsDropped ''/'' None ?d (sys_bus ?s2) = (e, b)" by fastforce
    obtain sent b' where b': "try_send e b = (sent, b')" by fastforce
    show ?thesis
      using report_drops_run [OF _ _ True e b', of i kind path target] i e b' True on
      by (cases sent) (simp_all add: emit_def)
  next
    case False
    then have d: "?d = 0" by (simp add: word_gt_0)
    let ?s3 = "goto ?s2 i (DropsReported ?args)"
    have "bus_step ?s2 ?s3" using i d by (intro no_drops) simp_all
    moreover have "bus_step\<^sup>*\<^sup>* ?s3 ((goto ?s3 i Idle)\<lparr>sys_bus := emit_event kind path target (sys_bus ?s3)\<rparr>)"
      using i by (intro emit_event_run) simp_all
    ultimately show ?thesis using d on
      by (simp add: emit_def converse_rtranclp_into_rtranclp)
  qed
  with 1 2 same show ?thesis by (simp add: converse_rtranclp_into_rtranclp)
qed

lemma bus_reachable_run: "bus_step\<^sup>*\<^sup>* s t \<Longrightarrow> bus_reachable capacity n s \<Longrightarrow> bus_reachable capacity n t"
  by (induction rule: rtranclp_induct) (auto intro: bus_reachable.step)

text \<open>
  C6. No event is lost silently. However many threads emit at the same time and however the host
  receives, enables, disables or closes the bus in between, every emission that found the bus
  enabled is accounted for: it was received or is queued as an event, or it is covered by the
  count of a received or queued \<open>EventsDropped\<close> event, or by the drop counter, or by the counter
  value that a disable discarded, or by a thread that is still inside \<open>emit\<close>. The bound says that
  the 64-bit counters have not wrapped.
\<close>

theorem no_event_lost_silently:
  assumes "bus_reachable capacity n s" and "sys_emitted s < 2 ^ 64"
  shows "sys_emitted s =
           sum_list (map event_weight (sys_received s @ eb_queue (sys_bus s))) +
           unat (eb_dropped_count (sys_bus s)) + sys_forgotten s +
           sum_list (map pc_weight (sys_threads s))"
  using bus_reachable_inv [OF assms(1)] assms(2) by (simp add: bus_inv_def accounted_def)

definition bus_example :: "nat \<Rightarrow> bus_system" where
  "bus_example k =
     \<lparr>sys_bus = foldl (\<lambda>b _. emit FileCreated ''/work/a'' None b)
        (set_enabled True (the (event_bus_new 1))) (replicate k ()),
      sys_threads = [Idle], sys_received = [], sys_emitted = k, sys_forgotten = 0\<rparr>"

lemma bus_example_enabled: "eb_enabled (sys_bus (bus_example k))"
proof (induction k)
  case (Suc k)
  then show ?case
    by (simp add: bus_example_def emit_def emit_event_def bus_op_defs Let_def
        flip: replicate_append_same)
qed (simp add: bus_example_def set_enabled_def)

lemma bus_example_reachable: "bus_reachable 1 1 (bus_example k)"
proof (induction k)
  case 0
  let ?s = "\<lparr>sys_bus = the (event_bus_new 1), sys_threads = replicate 1 Idle, sys_received = [],
      sys_emitted = 0, sys_forgotten = 0\<rparr>"
  have "bus_reachable 1 1 ?s" by (rule bus_reachable.start) (simp add: event_bus_new_def)
  moreover have "bus_step ?s (bus_example 0)"
    using host_enables [of ?s] by (simp add: bus_example_def set_enabled_def)
  ultimately show ?case by (rule bus_reachable.step)
next
  case (Suc k)
  have "bus_step\<^sup>*\<^sup>* (bus_example k) (bus_example (Suc k))"
    using emit_run [of 0 "bus_example k" FileCreated "''/work/a''" None] bus_example_enabled [of k]
    by (simp add: bus_example_def flip: replicate_append_same)
  with Suc show ?case by (rule bus_reachable_run [rotated])
qed

theorem no_event_lost_silently_witness:
  "sys_emitted (bus_example 3) = 3 \<and> length (eb_queue (sys_bus (bus_example 3))) = 1 \<and>
   unat (eb_dropped_count (sys_bus (bus_example 3))) = 2"
  using no_event_lost_silently [OF bus_example_reachable [of 3]]
  by (simp add: bus_example_def numeral_3_eq_3 emit_def emit_event_def bus_op_defs set_enabled_def
      event_bus_new_def event_weight_def saturating_add_def)

section \<open>Bounds and order\<close>

lemma bus_step_bounded:
  "bus_step s t \<Longrightarrow> length (eb_queue (sys_bus s)) \<le> eb_capacity (sys_bus s) \<Longrightarrow>
     length (eb_queue (sys_bus t)) \<le> eb_capacity (sys_bus t) \<and> eb_capacity (sys_bus t) = eb_capacity (sys_bus s)"
  by (induction rule: bus_step.induct) (auto simp: bus_op_defs split: if_splits list.splits)

text \<open>
  Host memory for events is bounded: in every reachable state the channel holds at most the
  configured number of events, whatever the guests do.
\<close>

theorem event_queue_bounded:
  assumes "bus_reachable capacity n s"
  shows "length (eb_queue (sys_bus s)) \<le> capacity"
proof -
  from assms have "length (eb_queue (sys_bus s)) \<le> eb_capacity (sys_bus s) \<and> eb_capacity (sys_bus s) = capacity"
  proof (induction rule: bus_reachable.induct)
    case (start b)
    then show ?case by (auto simp: event_bus_new_def split: if_splits)
  next
    case (step s t)
    then show ?case using bus_step_bounded by metis
  qed
  then show ?thesis by simp
qed

theorem event_queue_bounded_witness: "length (eb_queue (sys_bus (bus_example 3))) \<le> 1"
  by (rule event_queue_bounded [OF bus_example_reachable])

text \<open>One emitter and the host taking turns: the order in which the events reach the host.\<close>

datatype bus_op = Emit event_kind string "string option" | Receive | SetEnabled bool

record bus_log =
  bl_bus :: event_bus
  bl_received :: "event list"
  bl_steps :: nat

fun bus_log_step :: "bus_log \<Rightarrow> bus_op \<Rightarrow> bus_log" where
  "bus_log_step l (Emit kind path target) =
     l\<lparr>bl_bus := emit kind path target (bl_bus l), bl_steps := Suc (bl_steps l)\<rparr>"
| "bus_log_step l Receive =
     (case next_event True (bl_bus l) of
        (Ready (Inr e), b) \<Rightarrow>
          l\<lparr>bl_bus := b, bl_received := bl_received l @ [e], bl_steps := Suc (bl_steps l)\<rparr>
      | (_, b) \<Rightarrow> l\<lparr>bl_bus := b, bl_steps := Suc (bl_steps l)\<rparr>)"
| "bus_log_step l (SetEnabled on) =
     l\<lparr>bl_bus := set_enabled on (bl_bus l), bl_steps := Suc (bl_steps l)\<rparr>"

definition ordered_events :: "event list \<Rightarrow> u64 \<Rightarrow> bool" where
  "ordered_events es n \<longleftrightarrow>
     sorted_wrt (<) (map (\<lambda>e. unat (ev_sequence e)) es) \<and> (\<forall>e\<in>set es. unat (ev_sequence e) \<le> unat n)"

definition bus_log_inv :: "bus_log \<Rightarrow> bool" where
  "bus_log_inv l \<longleftrightarrow>
     (2 * bl_steps l < 2 ^ 64 \<longrightarrow>
        unat (eb_sequence (bl_bus l)) \<le> 2 * bl_steps l \<and>
        ordered_events (bl_received l @ eb_queue (bl_bus l)) (eb_sequence (bl_bus l)))"

lemma ordered_events_next:
  assumes "ordered_events es n" and "unat n + 1 < 2 ^ 64"
  shows "ordered_events es (n + 1)"
    and "ev_sequence e = n + 1 \<Longrightarrow> ordered_events (es @ [e]) (n + 1)"
proof -
  have "unat (n + 1) = unat n + 1" using assms(2) by (simp add: unat_word_ariths)
  with assms(1) show "ordered_events es (n + 1)"
    and "ev_sequence e = n + 1 \<Longrightarrow> ordered_events (es @ [e]) (n + 1)"
    by (auto simp: ordered_events_def sorted_wrt_append)
qed

lemma ordered_events_drop: "ordered_events (es @ [e]) n \<Longrightarrow> ordered_events es n"
  by (simp add: ordered_events_def sorted_wrt_append)

lemma emit_event_ordered:
  assumes "ordered_events (es @ eb_queue b) (eb_sequence b)" and "unat (eb_sequence b) + 1 < 2 ^ 64"
  shows "ordered_events (es @ eb_queue (emit_event k p t b)) (eb_sequence (emit_event k p t b)) \<and>
         unat (eb_sequence (emit_event k p t b)) = unat (eb_sequence b) + 1"
  using assms ordered_events_next [OF assms]
  by (auto simp: emit_event_def bus_op_defs unat_word_ariths)

lemma emit_ordered:
  assumes ord: "ordered_events (es @ eb_queue b) (eb_sequence b)" and bound: "unat (eb_sequence b) + 2 < 2 ^ 64"
  shows "ordered_events (es @ eb_queue (emit k p t b)) (eb_sequence (emit k p t b)) \<and>
         unat (eb_sequence (emit k p t b)) \<le> unat (eb_sequence b) + 2"
proof -
  let ?b1 = "b\<lparr>eb_dropped_count := 0\<rparr>"
  have quiet: "ordered_events (es @ eb_queue ?b1) (eb_sequence ?b1)" using ord by simp
  obtain e b2 where e: "bus_event EventsDropped ''/'' None (eb_dropped_count b) ?b1 = (e, b2)" by fastforce
  obtain sent b3 where b3: "try_send e b2 = (sent, b3)" by fastforce
  have ord3: "ordered_events (es @ eb_queue b3) (eb_sequence b3)"
    and seq3: "unat (eb_sequence b3) = unat (eb_sequence b) + 1"
    using ordered_events_next [OF ord] bound e b3
    by (auto simp: bus_op_defs unat_word_ariths split: if_splits)
  have "ordered_events (es @ eb_queue (emit_event k p t ?b1)) (eb_sequence (emit_event k p t ?b1)) \<and>
      unat (eb_sequence (emit_event k p t ?b1)) = unat (eb_sequence b) + 1"
    using emit_event_ordered [OF quiet] bound by simp
  moreover have "ordered_events (es @ eb_queue (emit_event k p t b3)) (eb_sequence (emit_event k p t b3)) \<and>
      unat (eb_sequence (emit_event k p t b3)) = unat (eb_sequence b) + 2"
    using emit_event_ordered [OF ord3] bound seq3 by simp
  ultimately show ?thesis
    using ord ord3 seq3 e b3 by (simp add: emit_def Let_def)
qed

lemma bus_log_step_inv: "bus_log_inv l \<Longrightarrow> bus_log_inv (bus_log_step l x)"
proof (cases x)
  case (Emit kind path target)
  assume inv: "bus_log_inv l"
  show ?thesis
  proof (cases "2 * Suc (bl_steps l) < 2 ^ 64")
    case True
    with inv emit_ordered [of "bl_received l" "bl_bus l" kind path target] Emit show ?thesis
      by (simp add: bus_log_inv_def)
  qed (simp add: Emit bus_log_inv_def)
next
  case Receive
  assume "bus_log_inv l"
  with Receive show ?thesis
    by (auto simp: bus_log_inv_def next_event_def split: list.splits)
next
  case (SetEnabled on)
  assume "bus_log_inv l"
  with SetEnabled show ?thesis by (auto simp: bus_log_inv_def set_enabled_def Let_def)
qed

interpretation bus_log: machine bus_log_step bus_log_inv
  by unfold_locales (rule bus_log_step_inv)

definition bus_log_start :: "event_bus \<Rightarrow> bus_log" where
  "bus_log_start b = \<lparr>bl_bus = b, bl_received = [], bl_steps = 0\<rparr>"

lemma foldl_bl_steps: "bl_steps (foldl bus_log_step l ops) = bl_steps l + length ops"
proof (induction ops arbitrary: l)
  case (Cons x ops)
  then show ?case by (cases x) (simp_all add: next_event_def split: list.splits)
qed simp

text \<open>
  With a single emitter the host sees events in order: the sequence numbers of everything it
  received, followed by everything still queued, are strictly increasing, drop reports included.
  The bound on the number of steps says that the 64-bit sequence counter has not wrapped.
\<close>

theorem events_in_order:
  assumes "event_bus_new capacity = Some b" and "2 * length ops < 2 ^ 64"
    and "l = foldl bus_log_step (bus_log_start b) ops"
  shows "sorted_wrt (<) (map (\<lambda>e. unat (ev_sequence e)) (bl_received l @ eb_queue (bl_bus l)))"
proof -
  have "bus_log_inv (bus_log_start b)"
    using assms(1) by (auto simp: event_bus_new_def bus_log_inv_def bus_log_start_def ordered_events_def
        split: if_splits)
  then have "bus_log_inv l" using assms(3) bus_log.run_inv by blast
  moreover have "bl_steps l = length ops"
    using assms(3) by (simp add: foldl_bl_steps bus_log_start_def)
  ultimately show ?thesis using assms(2) by (simp add: bus_log_inv_def ordered_events_def)
qed

theorem events_in_order_witness:
  "let l = foldl bus_log_step (bus_log_start (the (event_bus_new 2)))
             [SetEnabled True, Emit FileCreated ''/a'' None, Emit FileModified ''/a'' None,
              Emit FileModified ''/a'' None, Receive, Receive, Emit FileRemoved ''/a'' None]
   in sorted_wrt (<) (map (\<lambda>e. unat (ev_sequence e)) (bl_received l @ eb_queue (bl_bus l))) \<and>
      map ev_kind (bl_received l @ eb_queue (bl_bus l)) =
        [FileCreated, FileModified, EventsDropped, FileRemoved]"
proof -
  let ?ops = "[SetEnabled True, Emit FileCreated ''/a'' None, Emit FileModified ''/a'' None,
              Emit FileModified ''/a'' None, Receive, Receive, Emit FileRemoved ''/a'' None]"
  have new: "event_bus_new 2 = Some (the (event_bus_new 2))" by (simp add: event_bus_new_def)
  have "map ev_kind (bl_received (foldl bus_log_step (bus_log_start (the (event_bus_new 2))) ?ops) @
      eb_queue (bl_bus (foldl bus_log_step (bus_log_start (the (event_bus_new 2))) ?ops))) =
      [FileCreated, FileModified, EventsDropped, FileRemoved]"
    by (simp add: event_bus_new_def bus_log_start_def set_enabled_def emit_def emit_event_def bus_op_defs)
  with events_in_order [OF new _ refl, of ?ops] show ?thesis by simp
qed

end
