(* ===== verification/File_Systems.thy ===== *)
theory File_Systems
  imports Path_Map Captured_Output Events
begin

text \<open>
  The layered file systems of \<open>src/core.rs\<close>. The traits \<open>FileSystem\<close>, \<open>FileOpener\<close> and
  \<open>VirtualFile\<close> belong to the crate \<open>virtual_fs\<close>: they are the records \<open>file_system\<close> and
  \<open>virtual_file\<close> of operations over a state \<open>'s\<close>, with file handles \<open>'f\<close> and mountable file systems
  \<open>'m\<close>. A layer of \<open>src/core.rs\<close> (\<open>ReadOnlyFileSystem\<close>, \<open>ObservableFileSystem\<close>,
  \<open>VirtualExecutableFileSystem\<close>, \<open>RelativeOrAbsolutePathHack\<close>) is a function from the operations
  of the inner file system, which is arbitrary, to the operations of the layer.
\<close>

section \<open>The traits\<close>

record open_config =
  oc_read :: bool
  oc_write :: bool
  oc_create_new :: bool
  oc_create :: bool
  oc_append :: bool
  oc_truncate :: bool

record file_metadata =
  md_is_dir :: bool
  md_accessed :: u64
  md_created :: u64
  md_modified :: u64
  md_len :: u64

record dir_entry =
  de_path :: path
  de_metadata :: "fs_error + file_metadata"

record ('s, 'f) virtual_file =
  vf_poll_read :: "'f \<Rightarrow> nat \<Rightarrow> 's \<Rightarrow> (io_error + bytes) poll \<times> 's"
  vf_start_seek :: "'f \<Rightarrow> seek_from \<Rightarrow> 's \<Rightarrow> (io_error + unit) \<times> 's"
  vf_poll_complete :: "'f \<Rightarrow> 's \<Rightarrow> (io_error + u64) poll \<times> 's"
  vf_poll_write :: "'f \<Rightarrow> bytes \<Rightarrow> 's \<Rightarrow> (io_error + nat) poll \<times> 's"
  vf_poll_write_vectored :: "'f \<Rightarrow> bytes list \<Rightarrow> 's \<Rightarrow> (io_error + nat) poll \<times> 's"
  vf_poll_flush :: "'f \<Rightarrow> 's \<Rightarrow> (io_error + unit) poll \<times> 's"
  vf_poll_shutdown :: "'f \<Rightarrow> 's \<Rightarrow> (io_error + unit) poll \<times> 's"
  vf_last_accessed :: "'f \<Rightarrow> 's \<Rightarrow> u64"
  vf_last_modified :: "'f \<Rightarrow> 's \<Rightarrow> u64"
  vf_created_time :: "'f \<Rightarrow> 's \<Rightarrow> u64"
  vf_set_times :: "'f \<Rightarrow> u64 option \<Rightarrow> u64 option \<Rightarrow> 's \<Rightarrow> (fs_error + unit) \<times> 's"
  vf_size :: "'f \<Rightarrow> 's \<Rightarrow> u64"
  vf_set_len :: "'f \<Rightarrow> u64 \<Rightarrow> 's \<Rightarrow> (fs_error + unit) \<times> 's"
  vf_unlink :: "'f \<Rightarrow> 's \<Rightarrow> (fs_error + unit) \<times> 's"
  vf_is_open :: "'f \<Rightarrow> 's \<Rightarrow> bool"
  vf_get_special_fd :: "'f \<Rightarrow> 's \<Rightarrow> u32 option"
  vf_write_from_mmap :: "'f \<Rightarrow> u64 \<Rightarrow> u64 \<Rightarrow> 's \<Rightarrow> (io_error + unit) \<times> 's"
  vf_poll_read_ready :: "'f \<Rightarrow> 's \<Rightarrow> (io_error + nat) poll \<times> 's"
  vf_poll_write_ready :: "'f \<Rightarrow> 's \<Rightarrow> (io_error + nat) poll \<times> 's"

record ('s, 'f, 'm) file_system =
  fs_readlink :: "path \<Rightarrow> 's \<Rightarrow> fs_error + path"
  fs_read_dir :: "path \<Rightarrow> 's \<Rightarrow> fs_error + (fs_error + dir_entry) list"
  fs_create_dir :: "path \<Rightarrow> 's \<Rightarrow> (fs_error + unit) \<times> 's"
  fs_remove_dir :: "path \<Rightarrow> 's \<Rightarrow> (fs_error + unit) \<times> 's"
  fs_rename :: "path \<Rightarrow> path \<Rightarrow> 's \<Rightarrow> (fs_error + unit) \<times> 's"
  fs_metadata :: "path \<Rightarrow> 's \<Rightarrow> fs_error + file_metadata"
  fs_symlink_metadata :: "path \<Rightarrow> 's \<Rightarrow> fs_error + file_metadata"
  fs_remove_file :: "path \<Rightarrow> 's \<Rightarrow> (fs_error + unit) \<times> 's"
  fs_open :: "path \<Rightarrow> open_config \<Rightarrow> 's \<Rightarrow> (fs_error + 'f) \<times> 's"
  fs_mount :: "string \<Rightarrow> path \<Rightarrow> 'm \<Rightarrow> 's \<Rightarrow> (fs_error + unit) \<times> 's"
  fs_file :: "('s, 'f) virtual_file"

text \<open>
  The provided methods of \<open>VirtualFile\<close> and \<open>AsyncWrite\<close> that an implementation of this crate does
  not override are code of \<open>virtual_fs\<close> and \<open>tokio\<close>; they see none of the implementation's fields.
  \<open>df_vectored\<close> is the buffer that the provided \<open>poll_write_vectored\<close> hands to \<open>poll_write\<close>.
\<close>

record file_defaults =
  df_set_times :: "u64 option \<Rightarrow> u64 option \<Rightarrow> fs_error + unit"
  df_special_fd :: "u32 option"
  df_write_from_mmap :: "u64 \<Rightarrow> u64 \<Rightarrow> io_error + unit"
  df_vectored :: "bytes list \<Rightarrow> bytes"

section \<open>Read-only host mounts\<close>

datatype 'f ro_file = RoFile 'f

fun ro_inner :: "'f ro_file \<Rightarrow> 'f" where
  "ro_inner (RoFile f) = f"

definition read_only_mount_error :: io_error where
  "read_only_mount_error = ReadOnlyMount"

definition ro_open ::
  "('s, 'f, 'm) file_system \<Rightarrow> path \<Rightarrow> open_config \<Rightarrow> 's \<Rightarrow> (fs_error + 'f ro_file) \<times> 's" where
  "ro_open inner path config s =
     (if oc_create config \<or> oc_create_new config \<or> oc_append config \<or> oc_truncate config
      then (Inl PermissionDenied, s)
      else
        let read_config = config\<lparr>oc_read := True, oc_write := False\<rparr> in
        case fs_open inner path read_config s of
          (Inl e, s') \<Rightarrow> (Inl e, s')
        | (Inr file, s') \<Rightarrow> (Inr (RoFile file), s'))"

definition ro_virtual_file ::
  "file_defaults \<Rightarrow> ('s, 'f) virtual_file \<Rightarrow> ('s, 'f ro_file) virtual_file" where
  "ro_virtual_file df vf =
     \<lparr>vf_poll_read = (\<lambda>f n s. vf_poll_read vf (ro_inner f) n s),
      vf_start_seek = (\<lambda>f position s. vf_start_seek vf (ro_inner f) position s),
      vf_poll_complete = (\<lambda>f s. vf_poll_complete vf (ro_inner f) s),
      vf_poll_write = (\<lambda>f buf s. (Ready (Inl read_only_mount_error), s)),
      vf_poll_write_vectored = (\<lambda>f bufs s. (Ready (Inl read_only_mount_error), s)),
      vf_poll_flush = (\<lambda>f s. (Ready (Inr ()), s)),
      vf_poll_shutdown = (\<lambda>f s. (Ready (Inr ()), s)),
      vf_last_accessed = (\<lambda>f s. vf_last_accessed vf (ro_inner f) s),
      vf_last_modified = (\<lambda>f s. vf_last_modified vf (ro_inner f) s),
      vf_created_time = (\<lambda>f s. vf_created_time vf (ro_inner f) s),
      vf_set_times = (\<lambda>f atime mtime s. (Inl PermissionDenied, s)),
      vf_size = (\<lambda>f s. vf_size vf (ro_inner f) s),
      vf_set_len = (\<lambda>f n s. (Inl PermissionDenied, s)),
      vf_unlink = (\<lambda>f s. (Inl PermissionDenied, s)),
      vf_is_open = (\<lambda>f s. vf_is_open vf (ro_inner f) s),
      vf_get_special_fd = (\<lambda>f s. vf_get_special_fd vf (ro_inner f) s),
      vf_write_from_mmap = (\<lambda>f offset len s. (df_write_from_mmap df offset len, s)),
      vf_poll_read_ready = (\<lambda>f s. vf_poll_read_ready vf (ro_inner f) s),
      vf_poll_write_ready = (\<lambda>f s. (Ready (Inr 0), s))\<rparr>"

definition read_only_fs ::
  "file_defaults \<Rightarrow> ('s, 'f, 'm) file_system \<Rightarrow> ('s, 'f ro_file, 'm) file_system" where
  "read_only_fs df inner =
     \<lparr>fs_readlink = fs_readlink inner,
      fs_read_dir = fs_read_dir inner,
      fs_create_dir = (\<lambda>path s. (Inl PermissionDenied, s)),
      fs_remove_dir = (\<lambda>path s. (Inl PermissionDenied, s)),
      fs_rename = (\<lambda>from to s. (Inl PermissionDenied, s)),
      fs_metadata = fs_metadata inner,
      fs_symlink_metadata = fs_symlink_metadata inner,
      fs_remove_file = (\<lambda>path s. (Inl PermissionDenied, s)),
      fs_open = ro_open inner,
      fs_mount = (\<lambda>name path fs s. (Inl PermissionDenied, s)),
      fs_file = ro_virtual_file df (fs_file inner)\<rparr>"

section \<open>Observed file systems\<close>

datatype 'f obs_file = Observed 'f string | Unobserved 'f

fun obs_inner :: "'f obs_file \<Rightarrow> 'f" where
  "obs_inner (Observed f p) = f"
| "obs_inner (Unobserved f) = f"

definition emit_if_ok ::
  "('e + 'a) \<Rightarrow> event_kind \<Rightarrow> string \<Rightarrow> string option \<Rightarrow> event_bus \<Rightarrow> event_bus" where
  "emit_if_ok r kind path target b = (case r of Inr _ \<Rightarrow> emit kind path target b | Inl _ \<Rightarrow> b)"

definition obs_create_dir ::
  "('s, 'f, 'm) file_system \<Rightarrow> path \<Rightarrow> 's \<times> event_bus \<Rightarrow> (fs_error + unit) \<times> 's \<times> event_bus" where
  "obs_create_dir inner path sb =
     (case fs_create_dir inner path (fst sb) of (result, s') \<Rightarrow>
        (result, s', emit_if_ok result DirectoryCreated (event_path path) None (snd sb)))"

definition obs_remove_dir ::
  "('s, 'f, 'm) file_system \<Rightarrow> path \<Rightarrow> 's \<times> event_bus \<Rightarrow> (fs_error + unit) \<times> 's \<times> event_bus" where
  "obs_remove_dir inner path sb =
     (case fs_remove_dir inner path (fst sb) of (result, s') \<Rightarrow>
        (result, s', emit_if_ok result DirectoryRemoved (event_path path) None (snd sb)))"

definition obs_rename ::
  "('s, 'f, 'm) file_system \<Rightarrow> path \<Rightarrow> path \<Rightarrow> 's \<times> event_bus \<Rightarrow> (fs_error + unit) \<times> 's \<times> event_bus" where
  "obs_rename inner from to sb =
     (case fs_rename inner from to (fst sb) of (result, s') \<Rightarrow>
        (result, s', emit_if_ok result PathRenamed (event_path from) (Some (event_path to)) (snd sb)))"

definition obs_remove_file ::
  "('s, 'f, 'm) file_system \<Rightarrow> path \<Rightarrow> 's \<times> event_bus \<Rightarrow> (fs_error + unit) \<times> 's \<times> event_bus" where
  "obs_remove_file inner path sb =
     (case fs_remove_file inner path (fst sb) of (result, s') \<Rightarrow>
        (result, s', emit_if_ok result FileRemoved (event_path path) None (snd sb)))"

text \<open>\<open>would_mutate\<close> is a method of the crate's \<open>OpenOptionsConfig\<close>.\<close>

definition obs_open ::
  "(open_config \<Rightarrow> bool) \<Rightarrow> ('s, 'f, 'm) file_system \<Rightarrow> path \<Rightarrow> open_config \<Rightarrow> 's \<times> event_bus \<Rightarrow>
     (fs_error + 'f obs_file) \<times> 's \<times> event_bus" where
  "obs_open would_mutate inner path config sb =
     (let existed = (case fs_metadata inner path (fst sb) of Inr _ \<Rightarrow> True | Inl _ \<Rightarrow> False) in
      case fs_open inner path config (fst sb) of
        (Inl e, s') \<Rightarrow> (Inl e, s', snd sb)
      | (Inr file, s') \<Rightarrow>
          let path = event_path path;
              b' = (if \<not> existed \<and> (oc_create config \<or> oc_create_new config)
                    then emit FileCreated path None (snd sb)
                    else if oc_truncate config then emit FileModified path None (snd sb)
                    else snd sb)
          in if would_mutate config then (Inr (Observed file path), s', b')
             else (Inr (Unobserved file), s', b'))"

definition emit_if_written :: "(io_error + nat) poll \<Rightarrow> string \<Rightarrow> event_bus \<Rightarrow> event_bus" where
  "emit_if_written r path b =
     (case r of
        Ready (Inr bytes_written) \<Rightarrow> if 0 < bytes_written then emit FileModified path None b else b
      | _ \<Rightarrow> b)"

definition obs_poll_write ::
  "('s, 'f) virtual_file \<Rightarrow> 'f obs_file \<Rightarrow> bytes \<Rightarrow> 's \<times> event_bus \<Rightarrow> (io_error + nat) poll \<times> 's \<times> event_bus" where
  "obs_poll_write vf f buf sb =
     (case vf_poll_write vf (obs_inner f) buf (fst sb) of (r, s') \<Rightarrow>
        (r, s', case f of Observed _ path \<Rightarrow> emit_if_written r path (snd sb) | Unobserved _ \<Rightarrow> snd sb))"

definition obs_poll_write_vectored ::
  "('s, 'f) virtual_file \<Rightarrow> 'f obs_file \<Rightarrow> bytes list \<Rightarrow> 's \<times> event_bus \<Rightarrow> (io_error + nat) poll \<times> 's \<times> event_bus" where
  "obs_poll_write_vectored vf f bufs sb =
     (case vf_poll_write_vectored vf (obs_inner f) bufs (fst sb) of (r, s') \<Rightarrow>
        (r, s', case f of Observed _ path \<Rightarrow> emit_if_written r path (snd sb) | Unobserved _ \<Rightarrow> snd sb))"

definition obs_after ::
  "'f obs_file \<Rightarrow> event_kind \<Rightarrow> ('e + 'a) \<times> 's \<Rightarrow> event_bus \<Rightarrow> ('e + 'a) \<times> 's \<times> event_bus" where
  "obs_after f kind rs b =
     (fst rs, snd rs,
      case f of Observed _ path \<Rightarrow> emit_if_ok (fst rs) kind path None b | Unobserved _ \<Rightarrow> b)"

definition obs_set_times ::
  "('s, 'f) virtual_file \<Rightarrow> 'f obs_file \<Rightarrow> u64 option \<Rightarrow> u64 option \<Rightarrow> 's \<times> event_bus \<Rightarrow>
     (fs_error + unit) \<times> 's \<times> event_bus" where
  "obs_set_times vf f atime mtime sb =
     obs_after f FileMetadataModified (vf_set_times vf (obs_inner f) atime mtime (fst sb)) (snd sb)"

definition obs_set_len ::
  "('s, 'f) virtual_file \<Rightarrow> 'f obs_file \<Rightarrow> u64 \<Rightarrow> 's \<times> event_bus \<Rightarrow> (fs_error + unit) \<times> 's \<times> event_bus" where
  "obs_set_len vf f n sb = obs_after f FileModified (vf_set_len vf (obs_inner f) n (fst sb)) (snd sb)"

definition obs_unlink ::
  "('s, 'f) virtual_file \<Rightarrow> 'f obs_file \<Rightarrow> 's \<times> event_bus \<Rightarrow> (fs_error + unit) \<times> 's \<times> event_bus" where
  "obs_unlink vf f sb = obs_after f FileRemoved (vf_unlink vf (obs_inner f) (fst sb)) (snd sb)"

definition obs_write_from_mmap ::
  "('s, 'f) virtual_file \<Rightarrow> 'f obs_file \<Rightarrow> u64 \<Rightarrow> u64 \<Rightarrow> 's \<times> event_bus \<Rightarrow> (io_error + unit) \<times> 's \<times> event_bus" where
  "obs_write_from_mmap vf f offset len sb =
     obs_after f FileModified (vf_write_from_mmap vf (obs_inner f) offset len (fst sb)) (snd sb)"

definition pass :: "('s \<Rightarrow> 'r \<times> 's) \<Rightarrow> 's \<times> 'b \<Rightarrow> 'r \<times> 's \<times> 'b" where
  "pass operation sb = (case operation (fst sb) of (r, s') \<Rightarrow> (r, s', snd sb))"

definition obs_virtual_file :: "('s, 'f) virtual_file \<Rightarrow> ('s \<times> event_bus, 'f obs_file) virtual_file" where
  "obs_virtual_file vf =
     \<lparr>vf_poll_read = (\<lambda>f n. pass (vf_poll_read vf (obs_inner f) n)),
      vf_start_seek = (\<lambda>f position. pass (vf_start_seek vf (obs_inner f) position)),
      vf_poll_complete = (\<lambda>f. pass (vf_poll_complete vf (obs_inner f))),
      vf_poll_write = obs_poll_write vf,
      vf_poll_write_vectored = obs_poll_write_vectored vf,
      vf_poll_flush = (\<lambda>f. pass (vf_poll_flush vf (obs_inner f))),
      vf_poll_shutdown = (\<lambda>f. pass (vf_poll_shutdown vf (obs_inner f))),
      vf_last_accessed = (\<lambda>f sb. vf_last_accessed vf (obs_inner f) (fst sb)),
      vf_last_modified = (\<lambda>f sb. vf_last_modified vf (obs_inner f) (fst sb)),
      vf_created_time = (\<lambda>f sb. vf_created_time vf (obs_inner f) (fst sb)),
      vf_set_times = obs_set_times vf,
      vf_size = (\<lambda>f sb. vf_size vf (obs_inner f) (fst sb)),
      vf_set_len = obs_set_len vf,
      vf_unlink = obs_unlink vf,
      vf_is_open = (\<lambda>f sb. vf_is_open vf (obs_inner f) (fst sb)),
      vf_get_special_fd = (\<lambda>f sb. vf_get_special_fd vf (obs_inner f) (fst sb)),
      vf_write_from_mmap = obs_write_from_mmap vf,
      vf_poll_read_ready = (\<lambda>f. pass (vf_poll_read_ready vf (obs_inner f))),
      vf_poll_write_ready = (\<lambda>f. pass (vf_poll_write_ready vf (obs_inner f)))\<rparr>"

definition observable_fs ::
  "(open_config \<Rightarrow> bool) \<Rightarrow> ('s, 'f, 'm) file_system \<Rightarrow> ('s \<times> event_bus, 'f obs_file, 'm) file_system" where
  "observable_fs would_mutate inner =
     \<lparr>fs_readlink = (\<lambda>path sb. fs_readlink inner path (fst sb)),
      fs_read_dir = (\<lambda>path sb. fs_read_dir inner path (fst sb)),
      fs_create_dir = obs_create_dir inner,
      fs_remove_dir = obs_remove_dir inner,
      fs_rename = obs_rename inner,
      fs_metadata = (\<lambda>path sb. fs_metadata inner path (fst sb)),
      fs_symlink_metadata = (\<lambda>path sb. fs_symlink_metadata inner path (fst sb)),
      fs_remove_file = obs_remove_file inner,
      fs_open = obs_open would_mutate inner,
      fs_mount = (\<lambda>name path fs. pass (fs_mount inner name path fs)),
      fs_file = obs_virtual_file (fs_file inner)\<rparr>"

section \<open>Calls through a file system\<close>

text \<open>
  Everything a guest can do through a file system and its handles that takes the state along: one
  constructor per operation. \<open>call_state\<close> is the state after the call and \<open>call_ok\<close> whether it
  reported success.
\<close>

datatype ('f, 'm) vfs_call =
    CallCreateDir path
  | CallRemoveDir path
  | CallRename path path
  | CallRemoveFile path
  | CallMount string path 'm
  | CallOpen path open_config
  | CallRead 'f nat
  | CallSeek 'f seek_from
  | CallSeekComplete 'f
  | CallWrite 'f bytes
  | CallWriteVectored 'f "bytes list"
  | CallFlush 'f
  | CallShutdown 'f
  | CallSetTimes 'f "u64 option" "u64 option"
  | CallSetLen 'f u64
  | CallUnlink 'f
  | CallWriteFromMmap 'f u64 u64
  | CallReadReady 'f
  | CallWriteReady 'f

fun call_state :: "('s, 'f, 'm) file_system \<Rightarrow> 's \<Rightarrow> ('f, 'm) vfs_call \<Rightarrow> 's" where
  "call_state fs s (CallCreateDir p) = snd (fs_create_dir fs p s)"
| "call_state fs s (CallRemoveDir p) = snd (fs_remove_dir fs p s)"
| "call_state fs s (CallRename p q) = snd (fs_rename fs p q s)"
| "call_state fs s (CallRemoveFile p) = snd (fs_remove_file fs p s)"
| "call_state fs s (CallMount name p m) = snd (fs_mount fs name p m s)"
| "call_state fs s (CallOpen p config) = snd (fs_open fs p config s)"
| "call_state fs s (CallRead f n) = snd (vf_poll_read (fs_file fs) f n s)"
| "call_state fs s (CallSeek f position) = snd (vf_start_seek (fs_file fs) f position s)"
| "call_state fs s (CallSeekComplete f) = snd (vf_poll_complete (fs_file fs) f s)"
| "call_state fs s (CallWrite f buf) = snd (vf_poll_write (fs_file fs) f buf s)"
| "call_state fs s (CallWriteVectored f bufs) = snd (vf_poll_write_vectored (fs_file fs) f bufs s)"
| "call_state fs s (CallFlush f) = snd (vf_poll_flush (fs_file fs) f s)"
| "call_state fs s (CallShutdown f) = snd (vf_poll_shutdown (fs_file fs) f s)"
| "call_state fs s (CallSetTimes f atime mtime) = snd (vf_set_times (fs_file fs) f atime mtime s)"
| "call_state fs s (CallSetLen f n) = snd (vf_set_len (fs_file fs) f n s)"
| "call_state fs s (CallUnlink f) = snd (vf_unlink (fs_file fs) f s)"
| "call_state fs s (CallWriteFromMmap f offset len) = snd (vf_write_from_mmap (fs_file fs) f offset len s)"
| "call_state fs s (CallReadReady f) = snd (vf_poll_read_ready (fs_file fs) f s)"
| "call_state fs s (CallWriteReady f) = snd (vf_poll_write_ready (fs_file fs) f s)"

definition is_ok :: "('e + 'a) \<Rightarrow> bool" where
  "is_ok r = (case r of Inl _ \<Rightarrow> False | Inr _ \<Rightarrow> True)"

text \<open>A write succeeded in the sense of the event stream if it took at least one byte.\<close>

definition wrote :: "(io_error + nat) poll \<Rightarrow> bool" where
  "wrote r = (case r of Ready (Inr n) \<Rightarrow> 0 < n | _ \<Rightarrow> False)"

fun call_changes :: "('s, 'f, 'm) file_system \<Rightarrow> 's \<Rightarrow> ('f, 'm) vfs_call \<Rightarrow> bool" where
  "call_changes fs s (CallCreateDir p) = is_ok (fst (fs_create_dir fs p s))"
| "call_changes fs s (CallRemoveDir p) = is_ok (fst (fs_remove_dir fs p s))"
| "call_changes fs s (CallRename p q) = is_ok (fst (fs_rename fs p q s))"
| "call_changes fs s (CallRemoveFile p) = is_ok (fst (fs_remove_file fs p s))"
| "call_changes fs s (CallOpen p config) =
     (is_ok (fst (fs_open fs p config s)) \<and>
      (\<not> is_ok (fs_metadata fs p s) \<and> (oc_create config \<or> oc_create_new config) \<or> oc_truncate config))"
| "call_changes fs s (CallWrite f buf) = wrote (fst (vf_poll_write (fs_file fs) f buf s))"
| "call_changes fs s (CallWriteVectored f bufs) = wrote (fst (vf_poll_write_vectored (fs_file fs) f bufs s))"
| "call_changes fs s (CallSetTimes f atime mtime) = is_ok (fst (vf_set_times (fs_file fs) f atime mtime s))"
| "call_changes fs s (CallSetLen f n) = is_ok (fst (vf_set_len (fs_file fs) f n s))"
| "call_changes fs s (CallUnlink f) = is_ok (fst (vf_unlink (fs_file fs) f s))"
| "call_changes fs s (CallWriteFromMmap f offset len) =
     is_ok (fst (vf_write_from_mmap (fs_file fs) f offset len s))"
| "call_changes fs s c = False"

section \<open>Read-only mounts cannot be modified\<close>

text \<open>
  What the layer relies on in a host file system, as \<open>virtual_fs\<close> documents it: opening a file for
  reading only, reading, seeking and polling leave the stored content alone. \<open>content\<close> is whatever
  of the state counts as content (names, bytes, times), as opposed to cursors of open handles.
\<close>

locale read_safe_fs =
  fixes fs :: "('s, 'f, 'm) file_system"
    and content :: "'s \<Rightarrow> 'c"
  assumes open_for_reading:
      "\<not> oc_write config \<Longrightarrow> \<not> oc_create_new config \<Longrightarrow> \<not> oc_create config \<Longrightarrow> \<not> oc_append config \<Longrightarrow>
       \<not> oc_truncate config \<Longrightarrow> content (snd (fs_open fs p config s)) = content s"
    and read_keeps: "content (snd (vf_poll_read (fs_file fs) f n s)) = content s"
    and seek_keeps: "content (snd (vf_start_seek (fs_file fs) f position s)) = content s"
    and complete_keeps: "content (snd (vf_poll_complete (fs_file fs) f s)) = content s"
    and read_ready_keeps: "content (snd (vf_poll_read_ready (fs_file fs) f s)) = content s"
begin

lemmas keeps = open_for_reading read_keeps seek_keeps complete_keeps read_ready_keeps

lemma ro_open_keeps: "content (snd (ro_open fs p config s)) = content s"
  using open_for_reading [of "config\<lparr>oc_read := True, oc_write := False\<rparr>" p s]
  by (auto simp: ro_open_def Let_def split: prod.splits sum.splits)

lemma ro_call_keeps: "content (call_state (read_only_fs df fs) s c) = content s"
  by (cases c) (simp_all add: read_only_fs_def ro_virtual_file_def keeps ro_open_keeps)

sublocale ro: machine "call_state (read_only_fs df fs)" "\<lambda>s. content s = c" for df c
  by unfold_locales (simp add: ro_call_keeps)

lemma ro_run_keeps: "content (foldl (call_state (read_only_fs df fs)) s calls) = content s"
  using ro.run_inv [of s "content s"] by simp

text \<open>The contract passes through the observing layer: events are not content.\<close>

lemma observed_read_safe: "read_safe_fs (observable_fs would_mutate fs) (\<lambda>sb. content (fst sb))"
proof unfold_locales
  fix config :: open_config and p and sb :: "'s \<times> event_bus"
  assume "\<not> oc_write config" "\<not> oc_create_new config" "\<not> oc_create config" "\<not> oc_append config"
    "\<not> oc_truncate config"
  then have "content (snd (fs_open fs p config (fst sb))) = content (fst sb)"
    by (rule open_for_reading)
  then show "content (fst (snd (fs_open (observable_fs would_mutate fs) p config sb))) = content (fst sb)"
    by (auto simp: observable_fs_def obs_open_def Let_def split: prod.splits sum.splits)
qed (simp_all add: observable_fs_def obs_virtual_file_def pass_def case_prod_unfold keeps)

end

section \<open>An in-memory host file system\<close>

text \<open>
  A small file system with directories, files and cursors of open handles: an instance of the traits
  that satisfies the contracts of this development and really changes when it is written to.
\<close>

record mem_state =
  ms_files :: "(path \<times> bytes) list"
  ms_dirs :: "path list"
  ms_handles :: "(path \<times> nat) list"
  ms_devices :: "path list"

definition mem_is_dir :: "path \<Rightarrow> mem_state \<Rightarrow> bool" where
  "mem_is_dir p s \<longleftrightarrow> path_eq p ''/'' \<or> list_ex (\<lambda>d. path_eq d p) (ms_dirs s)"

definition mem_has_parent :: "path \<Rightarrow> mem_state \<Rightarrow> bool" where
  "mem_has_parent p s \<longleftrightarrow> (case path_parent p of Some q \<Rightarrow> mem_is_dir q s | None \<Rightarrow> False)"

text \<open>A device accepts and forgets what is written to it and is always at its end.\<close>

definition mem_is_device :: "path \<Rightarrow> mem_state \<Rightarrow> bool" where
  "mem_is_device p s = list_ex (\<lambda>d. path_eq d p) (ms_devices s)"

definition mem_open :: "path \<Rightarrow> open_config \<Rightarrow> mem_state \<Rightarrow> (fs_error + nat) \<times> mem_state" where
  "mem_open p config s =
     (let s' = s\<lparr>ms_handles := ms_handles s @ [(p, 0)]\<rparr> in
      if mem_is_device p s then (Inr (length (ms_handles s)), s')
      else case pm_get (ms_files s) p of
        Some _ \<Rightarrow>
          (Inr (length (ms_handles s)),
           if oc_truncate config then s'\<lparr>ms_files := pm_insert p [] (ms_files s)\<rparr> else s')
      | None \<Rightarrow>
          if (oc_create config \<or> oc_create_new config) \<and> mem_has_parent p s \<and> \<not> mem_is_dir p s
          then (Inr (length (ms_handles s)), s'\<lparr>ms_files := pm_insert p [] (ms_files s)\<rparr>)
          else (Inl EntryNotFound, s))"

definition mem_bytes :: "mem_state \<Rightarrow> nat \<Rightarrow> bytes" where
  "mem_bytes s f =
     (if f < length (ms_handles s) \<and> \<not> mem_is_device (fst (ms_handles s ! f)) s
      then (case pm_get (ms_files s) (fst (ms_handles s ! f)) of Some bs \<Rightarrow> bs | None \<Rightarrow> [])
      else [])"

definition mem_read :: "nat \<Rightarrow> nat \<Rightarrow> mem_state \<Rightarrow> (io_error + bytes) poll \<times> mem_state" where
  "mem_read f n s =
     (if f < length (ms_handles s)
      then (let (p, c) = ms_handles s ! f;
                chunk = take n (drop c (mem_bytes s f))
            in (Ready (Inr chunk), s\<lparr>ms_handles := (ms_handles s)[f := (p, c + length chunk)]\<rparr>))
      else (Ready (Inl (ForeignIo 9)), s))"

text \<open>The bytes of a file after data was written at a position; a gap is filled with zeros.\<close>

definition write_at :: "bytes \<Rightarrow> nat \<Rightarrow> bytes \<Rightarrow> bytes" where
  "write_at bs c data = take c bs @ replicate (c - length bs) 0 @ data @ drop (c + length data) bs"

definition mem_write :: "nat \<Rightarrow> bytes \<Rightarrow> mem_state \<Rightarrow> (io_error + nat) poll \<times> mem_state" where
  "mem_write f buf s =
     (if f < length (ms_handles s)
      then (let (p, c) = ms_handles s ! f in
            (Ready (Inr (length buf)),
             if mem_is_device p s then s
             else s\<lparr>ms_files := pm_insert p (write_at (mem_bytes s f) c buf) (ms_files s),
                    ms_handles := (ms_handles s)[f := (p, c + length buf)]\<rparr>))
      else (Ready (Inl (ForeignIo 9)), s))"

definition mem_seek :: "nat \<Rightarrow> seek_from \<Rightarrow> mem_state \<Rightarrow> (io_error + unit) \<times> mem_state" where
  "mem_seek f position s =
     (if f < length (ms_handles s)
      then (let (p, c) = ms_handles s ! f;
                target = (case position of
                    SeekStart offset \<Rightarrow> uint offset
                  | SeekCurrent offset \<Rightarrow> int c + sint offset
                  | SeekEnd offset \<Rightarrow> int (length (mem_bytes s f)) + sint offset)
            in if target < 0 then (Inl SeekBeforeStart, s)
               else (Inr (), s\<lparr>ms_handles := (ms_handles s)[f := (p, nat target)]\<rparr>))
      else (Inl (ForeignIo 9), s))"

definition mem_unlink :: "path \<Rightarrow> mem_state \<Rightarrow> (fs_error + unit) \<times> mem_state" where
  "mem_unlink p s =
     (case pm_get (ms_files s) p of
        Some _ \<Rightarrow> (Inr (), s\<lparr>ms_files := pm_remove p (ms_files s)\<rparr>)
      | None \<Rightarrow> (Inl EntryNotFound, s))"

definition mem_file :: "(mem_state, nat) virtual_file" where
  "mem_file =
     \<lparr>vf_poll_read = mem_read,
      vf_start_seek = mem_seek,
      vf_poll_complete = (\<lambda>f s. (Ready (Inr (if f < length (ms_handles s) then of_nat (snd (ms_handles s ! f)) else 0)), s)),
      vf_poll_write = mem_write,
      vf_poll_write_vectored = (\<lambda>f bufs. mem_write f (concat bufs)),
      vf_poll_flush = (\<lambda>f s. (Ready (Inr ()), s)),
      vf_poll_shutdown = (\<lambda>f s. (Ready (Inr ()), s)),
      vf_last_accessed = (\<lambda>f s. 0),
      vf_last_modified = (\<lambda>f s. 0),
      vf_created_time = (\<lambda>f s. 0),
      vf_set_times = (\<lambda>f atime mtime s. (Inr (), s)),
      vf_size = (\<lambda>f s. of_nat (length (mem_bytes s f))),
      vf_set_len = (\<lambda>f n s. (Inl PermissionDenied, s)),
      vf_unlink = (\<lambda>f s. if f < length (ms_handles s) then mem_unlink (fst (ms_handles s ! f)) s else (Inr (), s)),
      vf_is_open = (\<lambda>f s. True),
      vf_get_special_fd = (\<lambda>f s. None),
      vf_write_from_mmap = (\<lambda>f offset len s. (Inl (ForeignIo 95), s)),
      vf_poll_read_ready = (\<lambda>f s. (Ready (Inr (length (mem_bytes s f))), s)),
      vf_poll_write_ready = (\<lambda>f s. (Ready (Inr 8192), s))\<rparr>"

definition mem_metadata :: "path \<Rightarrow> mem_state \<Rightarrow> fs_error + file_metadata" where
  "mem_metadata p s =
     (if mem_is_dir p s
      then Inr \<lparr>md_is_dir = True, md_accessed = 0, md_created = 0, md_modified = 0, md_len = 0\<rparr>
      else if mem_is_device p s
      then Inr \<lparr>md_is_dir = False, md_accessed = 0, md_created = 0, md_modified = 0, md_len = 0\<rparr>
      else case pm_get (ms_files s) p of
        Some bs \<Rightarrow>
          Inr \<lparr>md_is_dir = False, md_accessed = 0, md_created = 0, md_modified = 0, md_len = of_nat (length bs)\<rparr>
      | None \<Rightarrow> Inl EntryNotFound)"

definition mem_create_dir :: "path \<Rightarrow> mem_state \<Rightarrow> (fs_error + unit) \<times> mem_state" where
  "mem_create_dir p s =
     (if is_ok (mem_metadata p s) then (Inl (ForeignFs 17), s)
      else if mem_has_parent p s then (Inr (), s\<lparr>ms_dirs := ms_dirs s @ [p]\<rparr>)
      else (Inl EntryNotFound, s))"

definition mem_fs :: "(mem_state, nat, unit) file_system" where
  "mem_fs =
     \<lparr>fs_readlink = (\<lambda>p s. Inl EntryNotFound),
      fs_read_dir = (\<lambda>p s. Inr []),
      fs_create_dir = mem_create_dir,
      fs_remove_dir = (\<lambda>p s. (Inl PermissionDenied, s)),
      fs_rename = (\<lambda>p q s. (Inl PermissionDenied, s)),
      fs_metadata = mem_metadata,
      fs_symlink_metadata = mem_metadata,
      fs_remove_file = mem_unlink,
      fs_open = mem_open,
      fs_mount = (\<lambda>name p m s. (Inl PermissionDenied, s)),
      fs_file = mem_file\<rparr>"

lemmas mem_defs = mem_fs_def mem_file_def mem_open_def mem_read_def mem_write_def mem_seek_def mem_unlink_def
  mem_metadata_def mem_bytes_def mem_create_dir_def

definition mem_content :: "mem_state \<Rightarrow> (path \<times> bytes) list \<times> path list" where
  "mem_content s = (ms_files s, ms_dirs s)"

interpretation mem: read_safe_fs mem_fs mem_content
  by unfold_locales (auto simp: mem_content_def mem_defs Let_def split: option.splits prod.splits)

interpretation observed_mem: read_safe_fs "observable_fs would_mutate mem_fs" "\<lambda>sb. mem_content (fst sb)"
  for would_mutate by (rule mem.observed_read_safe)

text \<open>
  C3. A read-only host mount is never modified. For every host file system that keeps its content
  when it is only read, no sequence of directory operations, opens with any options, writes,
  truncations, unlinks or mounts through the read-only layer, on any handles, changes the content.
\<close>

theorem read_only_mount_unchanged:
  assumes "read_safe_fs fs content"
  shows "content (foldl (call_state (read_only_fs df fs)) s calls) = content s"
  using assms by (rule read_safe_fs.ro_run_keeps)

definition mem_example :: mem_state where
  "mem_example = \<lparr>ms_files = [(''/etc/hosts'', [1, 2, 3])], ms_dirs = [''/etc''], ms_handles = [(''/etc/hosts'', 0)],
     ms_devices = []\<rparr>"

definition mem_defaults :: file_defaults where
  "mem_defaults =
     \<lparr>df_set_times = (\<lambda>atime mtime. Inr ()), df_special_fd = None,
      df_write_from_mmap = (\<lambda>offset len. Inl (ForeignIo 95)), df_vectored = concat\<rparr>"

theorem read_only_mount_unchanged_witness:
  "mem_content (foldl (call_state (read_only_fs mem_defaults mem_fs)) mem_example
     [CallRemoveFile ''/etc/hosts'', CallCreateDir ''/new'', CallWrite (RoFile 0) [9], CallUnlink (RoFile 0),
      CallRead (RoFile 0) 2]) = ([(''/etc/hosts'', [1, 2, 3])], [''/etc'']) \<and>
   mem_content (call_state mem_fs mem_example (CallWrite 0 [9])) = ([(''/etc/hosts'', [9, 2, 3])], [''/etc''])"
proof
  show "mem_content (foldl (call_state (read_only_fs mem_defaults mem_fs)) mem_example
     [CallRemoveFile ''/etc/hosts'', CallCreateDir ''/new'', CallWrite (RoFile 0) [9], CallUnlink (RoFile 0),
      CallRead (RoFile 0) 2]) = ([(''/etc/hosts'', [1, 2, 3])], [''/etc''])"
    by (subst read_only_mount_unchanged [OF mem.read_safe_fs_axioms]) (simp add: mem_example_def mem_content_def)
qed (simp add: mem_example_def mem_defs mem_is_device_def write_at_def mem_content_def)

section \<open>The observing layer is transparent\<close>

text \<open>The same call on the handle that the layer wraps.\<close>

definition inner_call :: "('f obs_file, 'm) vfs_call \<Rightarrow> ('f, 'm) vfs_call" where
  "inner_call = map_vfs_call obs_inner id"

text \<open>
  The event that a call is to leave behind if it changes something, in terms of the inner file system;
  \<open>on_handle\<close> gives the event of a call on a handle. Mounts, reads, seeks and polls leave none.
\<close>

fun call_subject :: "('h \<Rightarrow> event_kind \<Rightarrow> (event_kind \<times> string \<times> string option) option) \<Rightarrow>
    ('s, 'f, 'm) file_system \<Rightarrow> 's \<Rightarrow> ('h, 'n) vfs_call \<Rightarrow> (event_kind \<times> string \<times> string option) option" where
  "call_subject on_handle fs s (CallCreateDir p) = Some (DirectoryCreated, event_path p, None)"
| "call_subject on_handle fs s (CallRemoveDir p) = Some (DirectoryRemoved, event_path p, None)"
| "call_subject on_handle fs s (CallRename p q) = Some (PathRenamed, event_path p, Some (event_path q))"
| "call_subject on_handle fs s (CallRemoveFile p) = Some (FileRemoved, event_path p, None)"
| "call_subject on_handle fs s (CallOpen p config) =
     Some (if is_ok (fs_metadata fs p s) \<or> \<not> (oc_create config \<or> oc_create_new config)
           then FileModified else FileCreated, event_path p, None)"
| "call_subject on_handle fs s (CallWrite f buf) = on_handle f FileModified"
| "call_subject on_handle fs s (CallWriteVectored f bufs) = on_handle f FileModified"
| "call_subject on_handle fs s (CallSetTimes f atime mtime) = on_handle f FileMetadataModified"
| "call_subject on_handle fs s (CallSetLen f n) = on_handle f FileModified"
| "call_subject on_handle fs s (CallUnlink f) = on_handle f FileRemoved"
| "call_subject on_handle fs s (CallWriteFromMmap f offset len) = on_handle f FileModified"
| "call_subject on_handle fs s c = None"

fun handle_event :: "'f obs_file \<Rightarrow> event_kind \<Rightarrow> (event_kind \<times> string \<times> string option) option" where
  "handle_event (Observed f path) kind = Some (kind, path, None)"
| "handle_event (Unobserved f) kind = None"

definition call_event :: "('s, 'f, 'm) file_system \<Rightarrow> 's \<Rightarrow> ('f obs_file, 'm) vfs_call \<Rightarrow>
    (event_kind \<times> string \<times> string option) option" where
  "call_event fs s c = (if call_changes fs s (inner_call c) then call_subject handle_event fs s c else None)"

definition emit_all :: "event_bus \<Rightarrow> (event_kind \<times> string \<times> string option) list \<Rightarrow> event_bus" where
  "emit_all = foldl (\<lambda>b (kind, path, target). emit kind path target b)"

lemmas obs_defs = observable_fs_def obs_virtual_file_def obs_create_dir_def obs_remove_dir_def
  obs_rename_def obs_remove_file_def obs_poll_write_def obs_poll_write_vectored_def obs_set_times_def
  obs_set_len_def obs_unlink_def obs_write_from_mmap_def obs_after_def pass_def emit_if_ok_def
  emit_if_written_def

lemma obs_open_state:
  "snd (obs_open would_mutate fs p config (s, b)) =
     (snd (fs_open fs p config s),
      emit_all b (case call_event fs s (CallOpen p config :: ('f obs_file, 'm) vfs_call) of None \<Rightarrow> [] | Some e \<Rightarrow> [e]))"
  for fs :: "('s, 'f, 'm) file_system"
  by (auto simp: obs_open_def Let_def call_event_def inner_call_def is_ok_def emit_all_def
      split: prod.splits sum.splits)

lemma obs_call_state:
  "call_state (observable_fs would_mutate fs) (s, b) c =
     (call_state fs s (inner_call c), emit_all b (case call_event fs s c of None \<Rightarrow> [] | Some e \<Rightarrow> [e]))"
proof (cases c)
  case (CallOpen p config)
  then show ?thesis
    by (simp add: observable_fs_def obs_open_state inner_call_def)
qed (auto simp: obs_defs call_event_def inner_call_def is_ok_def wrote_def emit_all_def case_prod_unfold
      split: sum.splits obs_file.splits poll.splits)

section \<open>Sessions\<close>

text \<open>
  A session works with the handles that its own opens returned: a call names a handle by its position in
  the list of the handles opened so far, which also records the path and the options of each open. A call
  on a handle that was never opened does nothing.
\<close>

type_synonym 'f opened = "('f \<times> path \<times> open_config) list"

fun call_handle :: "('f, 'm) vfs_call \<Rightarrow> 'f option" where
  "call_handle (CallRead f n) = Some f"
| "call_handle (CallSeek f position) = Some f"
| "call_handle (CallSeekComplete f) = Some f"
| "call_handle (CallWrite f buf) = Some f"
| "call_handle (CallWriteVectored f bufs) = Some f"
| "call_handle (CallFlush f) = Some f"
| "call_handle (CallShutdown f) = Some f"
| "call_handle (CallSetTimes f atime mtime) = Some f"
| "call_handle (CallSetLen f n) = Some f"
| "call_handle (CallUnlink f) = Some f"
| "call_handle (CallWriteFromMmap f offset len) = Some f"
| "call_handle (CallReadReady f) = Some f"
| "call_handle (CallWriteReady f) = Some f"
| "call_handle c = None"

definition bound_call :: "'f opened \<Rightarrow> (nat, 'm) vfs_call \<Rightarrow> bool" where
  "bound_call opened c = (case call_handle c of Some i \<Rightarrow> i < length opened | None \<Rightarrow> True)"

definition handle_call :: "'f opened \<Rightarrow> (nat, 'm) vfs_call \<Rightarrow> ('f, 'm) vfs_call" where
  "handle_call opened = map_vfs_call (\<lambda>i. fst (opened ! i)) id"

fun newly_opened :: "('s, 'f, 'm) file_system \<Rightarrow> 's \<Rightarrow> ('h, 'n) vfs_call \<Rightarrow> 'f opened" where
  "newly_opened fs s (CallOpen p config) =
     (case fst (fs_open fs p config s) of Inr f \<Rightarrow> [(f, p, config)] | Inl _ \<Rightarrow> [])"
| "newly_opened fs s c = []"

definition session_step ::
  "('s, 'f, 'm) file_system \<Rightarrow> 's \<times> 'f opened \<Rightarrow> (nat, 'm) vfs_call \<Rightarrow> 's \<times> 'f opened" where
  "session_step fs st c =
     (if bound_call (snd st) c
      then (call_state fs (fst st) (handle_call (snd st) c), snd st @ newly_opened fs (fst st) c)
      else st)"

text \<open>
  The specification of the event stream of a session: which opens make a handle whose changes are
  reported is a matter of the options alone.
\<close>

definition mutating :: "open_config \<Rightarrow> bool" where
  "mutating config \<longleftrightarrow>
     oc_write config \<or> oc_append config \<or> oc_create config \<or> oc_create_new config \<or> oc_truncate config"

definition opened_event :: "'f opened \<Rightarrow> nat \<Rightarrow> event_kind \<Rightarrow> (event_kind \<times> string \<times> string option) option" where
  "opened_event opened i kind =
     (case opened ! i of (f, path, config) \<Rightarrow>
        if mutating config then Some (kind, event_path path, None) else None)"

definition session_event ::
  "('s, 'f, 'm) file_system \<Rightarrow> 's \<times> 'f opened \<Rightarrow> (nat, 'm) vfs_call \<Rightarrow> (event_kind \<times> string \<times> string option) option" where
  "session_event fs st c =
     (if bound_call (snd st) c \<and> call_changes fs (fst st) (handle_call (snd st) c)
      then call_subject (opened_event (snd st)) fs (fst st) c else None)"

fun session_events ::
  "('s, 'f, 'm) file_system \<Rightarrow> 's \<times> 'f opened \<Rightarrow> (nat, 'm) vfs_call list \<Rightarrow> (event_kind \<times> string \<times> string option) list" where
  "session_events fs st [] = []"
| "session_events fs st (c # cs) =
     (case session_event fs st c of None \<Rightarrow> [] | Some e \<Rightarrow> [e]) @ session_events fs (session_step fs st c) cs"

definition obs_entry :: "'f \<times> path \<times> open_config \<Rightarrow> 'f obs_file \<times> path \<times> open_config" where
  "obs_entry entry =
     (case entry of (f, path, config) \<Rightarrow>
        (if mutating config then Observed f (event_path path) else Unobserved f, path, config))"

lemma bound_call_obs: "bound_call (map obs_entry opened) c = bound_call opened c"
  by (simp add: bound_call_def split: option.splits)

lemma obs_inner_entry: "obs_inner (fst (obs_entry e)) = fst e"
  by (simp add: obs_entry_def split: prod.splits)

lemma handle_event_entry: "handle_event (fst (obs_entry (opened ! i))) kind = opened_event opened i kind"
  by (simp add: obs_entry_def opened_event_def split: prod.splits)

lemma handle_call_inner:
  "bound_call opened c \<Longrightarrow> inner_call (handle_call (map obs_entry opened) c) = handle_call opened c"
  by (cases c) (simp_all add: inner_call_def handle_call_def bound_call_def obs_inner_entry)

lemma handle_call_subject:
  "bound_call opened c \<Longrightarrow>
   call_subject handle_event fs s (handle_call (map obs_entry opened) c) = call_subject (opened_event opened) fs s c"
  by (cases c) (simp_all add: handle_call_def bound_call_def handle_event_entry)

lemma newly_opened_obs:
  assumes "\<And>config. would_mutate config = mutating config"
  shows "newly_opened (observable_fs would_mutate fs) (s, b) c = map obs_entry (newly_opened fs s c)"
  by (cases c)
    (auto simp: observable_fs_def obs_open_def obs_entry_def assms Let_def split: prod.splits sum.splits)

lemma session_step_obs:
  assumes "\<And>config. would_mutate config = mutating config"
  shows "session_step (observable_fs would_mutate fs) ((s, b), map obs_entry opened) c =
    (case session_step fs (s, opened) c of (s', opened') \<Rightarrow>
       ((s', emit_all b (case session_event fs (s, opened) c of None \<Rightarrow> [] | Some e \<Rightarrow> [e])), map obs_entry opened'))"
  by (simp add: session_step_def session_event_def bound_call_obs newly_opened_obs [OF assms] obs_call_state
      call_event_def emit_all_def handle_call_inner handle_call_subject)

lemma emit_all_append: "emit_all b (xs @ ys) = emit_all (emit_all b xs) ys"
  by (simp add: emit_all_def)

text \<open>
  C7. The observing layer changes nothing and reports every change made through it. Let \<open>would_mutate\<close> be
  true exactly of options with write, append, create, create-new or truncate, as \<open>virtual_fs\<close> documents.
  Then for every file system and every session through the layer, the inner file system and the handles
  afterwards are those of the same session without the layer, the handles opened with such options being
  wrapped with their path and the others not; and the event bus received, in order, exactly one event for
  each call that succeeded in a change: a directory made or removed, a rename, a file removed, a creation or
  truncation by an open, and, on a handle opened with such options, a write of at least one byte, new
  times, a new length, an unlink. It received no event for any other call: none for failed calls, for
  mounts, and for calls on handles opened for reading only.
\<close>

theorem observed_run_exact:
  assumes "\<And>config. would_mutate config \<longleftrightarrow>
    oc_write config \<or> oc_append config \<or> oc_create config \<or> oc_create_new config \<or> oc_truncate config"
  shows "foldl (session_step (observable_fs would_mutate fs)) ((s, b), []) calls =
    (case foldl (session_step fs) (s, []) calls of (s', opened) \<Rightarrow>
       ((s', emit_all b (session_events fs (s, []) calls)),
        map (\<lambda>(f, path, config).
          (if oc_write config \<or> oc_append config \<or> oc_create config \<or> oc_create_new config \<or> oc_truncate config
           then Observed f (event_path path) else Unobserved f, path, config)) opened))"
proof -
  have wm: "\<And>config. would_mutate config = mutating config" using assms by (simp add: mutating_def)
  have "foldl (session_step (observable_fs would_mutate fs)) ((s, b), map obs_entry opened) calls =
    (case foldl (session_step fs) (s, opened) calls of (s', opened') \<Rightarrow>
       ((s', emit_all b (session_events fs (s, opened) calls)), map obs_entry opened'))" for opened
  proof (induction calls arbitrary: s b opened)
    case (Cons c cs)
    obtain s1 opened1 where "session_step fs (s, opened) c = (s1, opened1)" by fastforce
    with Cons.IH show ?case by (simp add: session_step_obs [OF wm] emit_all_append)
  qed (simp add: emit_all_def)
  from this [of "[]"] show ?thesis
    by (simp add: obs_entry_def mutating_def case_prod_unfold fun_eq_iff)
qed

definition read_options :: open_config where
  "read_options = \<lparr>oc_read = True, oc_write = False, oc_create_new = False, oc_create = False, oc_append = False,
     oc_truncate = False\<rparr>"

theorem observed_run_exact_witness:
  "snd (fst (foldl (session_step (observable_fs mutating mem_fs)) ((mem_example, set_enabled True (the (event_bus_new 4))), [])
     [CallOpen ''/etc/hosts'' (read_options\<lparr>oc_write := True\<rparr>), CallWrite 0 [9], CallRemoveFile ''/none'',
      CallOpen ''/etc/./hosts'' read_options, CallRead 1 2, CallUnlink 1])) =
   emit FileModified ''/etc/hosts'' None (set_enabled True (the (event_bus_new 4)))"
proof -
  let ?calls = "[CallOpen ''/etc/hosts'' (read_options\<lparr>oc_write := True\<rparr>), CallWrite 0 [9], CallRemoveFile ''/none'',
      CallOpen ''/etc/./hosts'' read_options, CallRead 1 2, CallUnlink 1]"
  have events: "session_events mem_fs (mem_example, []) ?calls = [(FileModified, ''/etc/hosts'', None)]" by code_simp
  have "mutating config \<longleftrightarrow>
    oc_write config \<or> oc_append config \<or> oc_create config \<or> oc_create_new config \<or> oc_truncate config" for config
    by (rule mutating_def)
  from observed_run_exact [OF this, of mem_fs mem_example "set_enabled True (the (event_bus_new 4))" ?calls]
  show ?thesis by (simp only: case_prod_unfold fst_conv snd_conv events) (simp add: emit_all_def)
qed

lemma ro_call_changes_not:
  assumes "\<And>offset len. \<not> is_ok (df_write_from_mmap df offset len)"
  shows "\<not> call_changes (read_only_fs df fs) s c"
  using assms
  by (cases c) (auto simp: read_only_fs_def ro_virtual_file_def is_ok_def wrote_def ro_open_def)

text \<open>
  Activity on a read-only mount is never reported as a change: as long as the provided
  \<open>write_from_mmap\<close> of the file trait fails, no sequence of calls through the observing layer over
  a read-only mount emits an event.
\<close>

theorem read_only_mount_no_events:
  assumes "\<And>offset len. \<not> is_ok (df_write_from_mmap df offset len)"
  shows "snd (foldl (call_state (observable_fs would_mutate (read_only_fs df fs))) (s, b) calls) = b"
proof (induction calls arbitrary: s b)
  case (Cons c cs)
  have "call_event (read_only_fs df fs) s c = None"
    by (simp add: call_event_def ro_call_changes_not [OF assms])
  with Cons show ?case by (simp add: obs_call_state emit_all_def)
qed simp

theorem read_only_mount_no_events_witness:
  "snd (foldl (call_state (observable_fs oc_write (read_only_fs mem_defaults mem_fs)))
     (mem_example, set_enabled True (the (event_bus_new 4)))
     [CallRemoveFile ''/etc/hosts'', CallWrite (Observed (RoFile 0) ''/etc/hosts'') [9]]) = set_enabled True (the (event_bus_new 4)) \<and>
   snd (call_state (observable_fs oc_write mem_fs) (mem_example, set_enabled True (the (event_bus_new 4)))
     (CallRemoveFile ''/etc/hosts'')) \<noteq> set_enabled True (the (event_bus_new 4))"
proof
  show "snd (foldl (call_state (observable_fs oc_write (read_only_fs mem_defaults mem_fs)))
     (mem_example, set_enabled True (the (event_bus_new 4)))
     [CallRemoveFile ''/etc/hosts'', CallWrite (Observed (RoFile 0) ''/etc/hosts'') [9]]) = set_enabled True (the (event_bus_new 4))"
    by (rule read_only_mount_no_events) (simp add: mem_defaults_def is_ok_def)
qed code_simp

end
