(* ===== verification/Exec_Layer.thy ===== *)
theory Exec_Layer
  imports File_Systems
begin

text \<open>
  The layers of \<open>src/core.rs\<close> that serve guest processes: \<open>VirtualExecutableBridgeFile\<close> (the device
  through which a guest asks for a virtual executable), \<open>VirtualExecutableFileSystem\<close> (the layer that
  puts the device at \<open>/dev/unix-sandbox-virtual-exec\<close>), \<open>RelativeOrAbsolutePathHack\<close> and their
  composition \<open>process_filesystem\<close>. The call \<open>VirtualExecutableRegistry::invoke_guest\<close> is the argument
  \<open>invoke\<close>, a function of the request and of everything outside the file system (\<open>'e\<close>).
\<close>

section \<open>The bridge device\<close>

record bridge_file =
  bf_request :: bytes
  bf_response :: "bytes option"
  bf_cursor :: nat

definition bridge_new :: bridge_file where
  "bridge_new = \<lparr>bf_request = [], bf_response = None, bf_cursor = 0\<rparr>"

definition bridge_path :: path where
  "bridge_path = ''/dev/unix-sandbox-virtual-exec''"

text \<open>\<open>now\<close> is the time since the epoch in nanoseconds, or \<open>None\<close> for a clock before the epoch.\<close>

definition current_time_nanos :: "nat option \<Rightarrow> u64" where
  "current_time_nanos now = (case now of Some nanos \<Rightarrow> of_nat (min nanos (2 ^ 64 - 1)) | None \<Rightarrow> 0)"

definition virtual_exec_bridge_metadata :: "nat option \<Rightarrow> file_metadata" where
  "virtual_exec_bridge_metadata now =
     (let time = current_time_nanos now in
      \<lparr>md_is_dir = False, md_accessed = time, md_created = time, md_modified = time, md_len = 0\<rparr>)"

definition bridge_poll_read ::
  "(bytes \<Rightarrow> 'e \<Rightarrow> bytes \<times> 'e) \<Rightarrow> nat \<Rightarrow> bridge_file \<Rightarrow> 'e \<Rightarrow> (io_error + bytes) poll \<times> bridge_file \<times> 'e" where
  "bridge_poll_read invoke remaining f e =
     (let (f, e) =
        (case bf_response f of
           None \<Rightarrow> (case invoke (bf_request f) e of (response, e') \<Rightarrow>
                     (f\<lparr>bf_response := Some response, bf_cursor := 0\<rparr>, e'))
         | Some _ \<Rightarrow> (f, e));
          response = (case bf_response f of Some r \<Rightarrow> r | None \<Rightarrow> []);
          available = drop (min (bf_cursor f) (length response)) response
      in if available = [] then (Ready (Inr []), f, e)
         else
           let len = min (length available) remaining
           in (Ready (Inr (take len available)), f\<lparr>bf_cursor := bf_cursor f + len\<rparr>, e))"

definition bridge_start_seek :: "seek_from \<Rightarrow> bridge_file \<Rightarrow> (io_error + unit) \<times> bridge_file" where
  "bridge_start_seek position f =
     (let response_len = (case bf_response f of Some r \<Rightarrow> int (length r) | None \<Rightarrow> 0);
          cursor = (case position of
                      SeekStart offset \<Rightarrow> uint offset
                    | SeekEnd offset \<Rightarrow> response_len + sint offset
                    | SeekCurrent offset \<Rightarrow> int (bf_cursor f) + sint offset)
      in if cursor < 0 then (Inl SeekBeforeStart, f)
         else (Inr (), f\<lparr>bf_cursor := min (nat cursor) usize_max\<rparr>))"

definition bridge_poll_complete :: "bridge_file \<Rightarrow> (io_error + u64) poll" where
  "bridge_poll_complete f = Ready (Inr (of_nat (bf_cursor f)))"

definition bridge_poll_write :: "bytes \<Rightarrow> bridge_file \<Rightarrow> (io_error + nat) poll \<times> bridge_file" where
  "bridge_poll_write buf f = (Ready (Inr (length buf)), f\<lparr>bf_request := bf_request f @ buf\<rparr>)"

definition bridge_poll_flush :: "(io_error + unit) poll" where
  "bridge_poll_flush = Ready (Inr ())"

definition bridge_poll_shutdown :: "(io_error + unit) poll" where
  "bridge_poll_shutdown = Ready (Inr ())"

definition bridge_size :: "bridge_file \<Rightarrow> u64" where
  "bridge_size f = (case bf_response f of Some r \<Rightarrow> of_nat (length r) | None \<Rightarrow> 0)"

definition bridge_set_len :: "fs_error + unit" where
  "bridge_set_len = Inl PermissionDenied"

definition bridge_unlink :: "fs_error + unit" where
  "bridge_unlink = Inl PermissionDenied"

definition bridge_poll_read_ready :: "(io_error + nat) poll" where
  "bridge_poll_read_ready = Ready (Inr 1)"

definition bridge_poll_write_ready :: "(io_error + nat) poll" where
  "bridge_poll_write_ready = Ready (Inr 1)"

section \<open>The layer of virtual executables\<close>

text \<open>
  The state adds the open bridge devices (a handle is an index) and the world of \<open>invoke\<close>; the clock
  is a function of that world.
\<close>

record ('s, 'e) exec_state =
  xs_inner :: 's
  xs_bridges :: "bridge_file list"
  xs_env :: 'e

datatype 'f exec_file = Inner 'f | Bridge nat

text \<open>\<open>collect::<Result<Vec<_>>>()\<close>: the first error, or all the entries.\<close>

fun those_ok :: "('e + 'a) list \<Rightarrow> 'e + 'a list" where
  "those_ok [] = Inr []"
| "those_ok (Inl e # xs) = Inl e"
| "those_ok (Inr x # xs) = (case those_ok xs of Inl e \<Rightarrow> Inl e | Inr ys \<Rightarrow> Inr (x # ys))"

definition exec_read_dir ::
  "('e \<Rightarrow> nat option) \<Rightarrow> ('s, 'f, 'm) file_system \<Rightarrow> path \<Rightarrow> ('s, 'e) exec_state \<Rightarrow> fs_error + (fs_error + dir_entry) list" where
  "exec_read_dir clock inner path s =
     (case fs_read_dir inner path (xs_inner s) of
        Inl e \<Rightarrow> Inl e
      | Inr items \<Rightarrow>
          (case those_ok items of
             Inl e \<Rightarrow> Inl e
           | Inr entries \<Rightarrow>
               let entries =
                 (if path_eq path ''/dev''
                  then entries @ [\<lparr>de_path = bridge_path,
                         de_metadata = Inr (virtual_exec_bridge_metadata (clock (xs_env s)))\<rparr>]
                  else entries)
               in Inr (map Inr entries)))"

definition exec_metadata ::
  "('e \<Rightarrow> nat option) \<Rightarrow> (path \<Rightarrow> 's \<Rightarrow> fs_error + file_metadata) \<Rightarrow> path \<Rightarrow> ('s, 'e) exec_state \<Rightarrow> fs_error + file_metadata" where
  "exec_metadata clock metadata path s =
     (if path_eq path bridge_path then Inr (virtual_exec_bridge_metadata (clock (xs_env s)))
      else metadata path (xs_inner s))"

text \<open>An operation that only touches the inner file system.\<close>

definition on_inner :: "('s \<Rightarrow> 'r \<times> 's) \<Rightarrow> ('s, 'e) exec_state \<Rightarrow> 'r \<times> ('s, 'e) exec_state" where
  "on_inner operation s = (case operation (xs_inner s) of (r, i) \<Rightarrow> (r, s\<lparr>xs_inner := i\<rparr>))"

definition exec_remove_file ::
  "('s, 'f, 'm) file_system \<Rightarrow> path \<Rightarrow> ('s, 'e) exec_state \<Rightarrow> (fs_error + unit) \<times> ('s, 'e) exec_state" where
  "exec_remove_file inner path s =
     (if path_eq path bridge_path then (Inl PermissionDenied, s) else on_inner (fs_remove_file inner path) s)"

definition exec_open ::
  "('s, 'f, 'm) file_system \<Rightarrow> path \<Rightarrow> open_config \<Rightarrow> ('s, 'e) exec_state \<Rightarrow>
     (fs_error + 'f exec_file) \<times> ('s, 'e) exec_state" where
  "exec_open inner path config s =
     (if path_eq path bridge_path
      then if \<not> oc_read config \<or> \<not> (oc_write config \<or> oc_append config)
           then (Inl PermissionDenied, s)
           else (Inr (Bridge (length (xs_bridges s))), s\<lparr>xs_bridges := xs_bridges s @ [bridge_new]\<rparr>)
      else
        case fs_open inner path config (xs_inner s) of
          (Inl e, i) \<Rightarrow> (Inl e, s\<lparr>xs_inner := i\<rparr>)
        | (Inr file, i) \<Rightarrow> (Inr (Inner file), s\<lparr>xs_inner := i\<rparr>))"

text \<open>An operation on the bridge device behind a handle.\<close>

definition on_bridge ::
  "nat \<Rightarrow> (bridge_file \<Rightarrow> 'r \<times> bridge_file) \<Rightarrow> ('s, 'e) exec_state \<Rightarrow> 'r \<times> ('s, 'e) exec_state" where
  "on_bridge n operation s =
     (case operation (xs_bridges s ! n) of (r, f) \<Rightarrow> (r, s\<lparr>xs_bridges := (xs_bridges s)[n := f]\<rparr>))"

fun exec_poll_read ::
  "(bytes \<Rightarrow> 'e \<Rightarrow> bytes \<times> 'e) \<Rightarrow> ('s, 'f) virtual_file \<Rightarrow> 'f exec_file \<Rightarrow> nat \<Rightarrow> ('s, 'e) exec_state \<Rightarrow>
     (io_error + bytes) poll \<times> ('s, 'e) exec_state" where
  "exec_poll_read invoke vf (Inner f) remaining s = on_inner (vf_poll_read vf f remaining) s"
| "exec_poll_read invoke vf (Bridge n) remaining s =
     (case bridge_poll_read invoke remaining (xs_bridges s ! n) (xs_env s) of (r, f, e) \<Rightarrow>
        (r, s\<lparr>xs_bridges := (xs_bridges s)[n := f], xs_env := e\<rparr>))"

definition exec_virtual_file ::
  "file_defaults \<Rightarrow> (bytes \<Rightarrow> 'e \<Rightarrow> bytes \<times> 'e) \<Rightarrow> ('e \<Rightarrow> nat option) \<Rightarrow> ('s, 'f) virtual_file \<Rightarrow>
     (('s, 'e) exec_state, 'f exec_file) virtual_file" where
  "exec_virtual_file df invoke clock vf =
     \<lparr>vf_poll_read = exec_poll_read invoke vf,
      vf_start_seek = (\<lambda>f position. case f of Inner i \<Rightarrow> on_inner (vf_start_seek vf i position)
        | Bridge n \<Rightarrow> on_bridge n (bridge_start_seek position)),
      vf_poll_complete = (\<lambda>f. case f of Inner i \<Rightarrow> on_inner (vf_poll_complete vf i)
        | Bridge n \<Rightarrow> (\<lambda>s. (bridge_poll_complete (xs_bridges s ! n), s))),
      vf_poll_write = (\<lambda>f buf. case f of Inner i \<Rightarrow> on_inner (vf_poll_write vf i buf)
        | Bridge n \<Rightarrow> on_bridge n (bridge_poll_write buf)),
      vf_poll_write_vectored = (\<lambda>f bufs. case f of Inner i \<Rightarrow> on_inner (vf_poll_write_vectored vf i bufs)
        | Bridge n \<Rightarrow> on_bridge n (bridge_poll_write (df_vectored df bufs))),
      vf_poll_flush = (\<lambda>f. case f of Inner i \<Rightarrow> on_inner (vf_poll_flush vf i)
        | Bridge n \<Rightarrow> (\<lambda>s. (bridge_poll_flush, s))),
      vf_poll_shutdown = (\<lambda>f. case f of Inner i \<Rightarrow> on_inner (vf_poll_shutdown vf i)
        | Bridge n \<Rightarrow> (\<lambda>s. (bridge_poll_shutdown, s))),
      vf_last_accessed = (\<lambda>f s. case f of Inner i \<Rightarrow> vf_last_accessed vf i (xs_inner s)
        | Bridge n \<Rightarrow> current_time_nanos (clock (xs_env s))),
      vf_last_modified = (\<lambda>f s. case f of Inner i \<Rightarrow> vf_last_modified vf i (xs_inner s)
        | Bridge n \<Rightarrow> current_time_nanos (clock (xs_env s))),
      vf_created_time = (\<lambda>f s. case f of Inner i \<Rightarrow> vf_created_time vf i (xs_inner s)
        | Bridge n \<Rightarrow> current_time_nanos (clock (xs_env s))),
      vf_set_times = (\<lambda>f atime mtime. case f of Inner i \<Rightarrow> on_inner (vf_set_times vf i atime mtime)
        | Bridge n \<Rightarrow> (\<lambda>s. (df_set_times df atime mtime, s))),
      vf_size = (\<lambda>f s. case f of Inner i \<Rightarrow> vf_size vf i (xs_inner s)
        | Bridge n \<Rightarrow> bridge_size (xs_bridges s ! n)),
      vf_set_len = (\<lambda>f new_size. case f of Inner i \<Rightarrow> on_inner (vf_set_len vf i new_size)
        | Bridge n \<Rightarrow> (\<lambda>s. (bridge_set_len, s))),
      vf_unlink = (\<lambda>f. case f of Inner i \<Rightarrow> on_inner (vf_unlink vf i)
        | Bridge n \<Rightarrow> (\<lambda>s. (bridge_unlink, s))),
      vf_is_open = (\<lambda>f s. case f of Inner i \<Rightarrow> vf_is_open vf i (xs_inner s) | Bridge n \<Rightarrow> True),
      vf_get_special_fd = (\<lambda>f s. case f of Inner i \<Rightarrow> vf_get_special_fd vf i (xs_inner s)
        | Bridge n \<Rightarrow> df_special_fd df),
      vf_write_from_mmap = (\<lambda>f offset len. case f of Inner i \<Rightarrow> on_inner (vf_write_from_mmap vf i offset len)
        | Bridge n \<Rightarrow> (\<lambda>s. (df_write_from_mmap df offset len, s))),
      vf_poll_read_ready = (\<lambda>f. case f of Inner i \<Rightarrow> on_inner (vf_poll_read_ready vf i)
        | Bridge n \<Rightarrow> (\<lambda>s. (bridge_poll_read_ready, s))),
      vf_poll_write_ready = (\<lambda>f. case f of Inner i \<Rightarrow> on_inner (vf_poll_write_ready vf i)
        | Bridge n \<Rightarrow> (\<lambda>s. (bridge_poll_write_ready, s)))\<rparr>"

definition exec_fs ::
  "file_defaults \<Rightarrow> (bytes \<Rightarrow> 'e \<Rightarrow> bytes \<times> 'e) \<Rightarrow> ('e \<Rightarrow> nat option) \<Rightarrow> ('s, 'f, 'm) file_system \<Rightarrow>
     (('s, 'e) exec_state, 'f exec_file, 'm) file_system" where
  "exec_fs df invoke clock inner =
     \<lparr>fs_readlink = (\<lambda>path s. fs_readlink inner path (xs_inner s)),
      fs_read_dir = exec_read_dir clock inner,
      fs_create_dir = (\<lambda>path. on_inner (fs_create_dir inner path)),
      fs_remove_dir = (\<lambda>path. on_inner (fs_remove_dir inner path)),
      fs_rename = (\<lambda>from to. on_inner (fs_rename inner from to)),
      fs_metadata = exec_metadata clock (fs_metadata inner),
      fs_symlink_metadata = exec_metadata clock (fs_symlink_metadata inner),
      fs_remove_file = exec_remove_file inner,
      fs_open = exec_open inner,
      fs_mount = (\<lambda>name path fs. on_inner (fs_mount inner name path fs)),
      fs_file = exec_virtual_file df invoke clock (fs_file inner)\<rparr>"

section \<open>Package files under relative names\<close>

definition hack_execute :: "path \<Rightarrow> (path \<Rightarrow> 's \<Rightarrow> (fs_error + 'r) \<times> 's) \<Rightarrow> 's \<Rightarrow> (fs_error + 'r) \<times> 's" where
  "hack_execute path operation s =
     (case operation path s of
        (Inr r, s') \<Rightarrow> (Inr r, s')
      | (Inl e, s') \<Rightarrow>
          if is_absolute path then (Inl e, s') else operation (path_push ''/'' path) s')"

definition hack_query :: "path \<Rightarrow> (path \<Rightarrow> 's \<Rightarrow> fs_error + 'r) \<Rightarrow> 's \<Rightarrow> fs_error + 'r" where
  "hack_query path operation s = fst (hack_execute path (\<lambda>candidate s. (operation candidate s, s)) s)"

definition path_hack :: "('s, 'f, 'm) file_system \<Rightarrow> ('s, 'f, 'm) file_system" where
  "path_hack inner =
     \<lparr>fs_readlink = (\<lambda>path. hack_query path (fs_readlink inner)),
      fs_read_dir = (\<lambda>path. hack_query path (fs_read_dir inner)),
      fs_create_dir = (\<lambda>path. hack_execute path (fs_create_dir inner)),
      fs_remove_dir = (\<lambda>path. hack_execute path (fs_remove_dir inner)),
      fs_rename = fs_rename inner,
      fs_metadata = (\<lambda>path. hack_query path (fs_metadata inner)),
      fs_symlink_metadata = (\<lambda>path. hack_query path (fs_symlink_metadata inner)),
      fs_remove_file = (\<lambda>path. hack_execute path (fs_remove_file inner)),
      fs_open = (\<lambda>path config. hack_execute path (\<lambda>candidate. fs_open inner candidate config)),
      fs_mount = (\<lambda>name path fs. hack_execute path (\<lambda>candidate. fs_mount inner name candidate fs)),
      fs_file = fs_file inner\<rparr>"

text \<open>The file system of a process; \<open>OverlayFileSystem\<close> of \<open>virtual_fs\<close> is the argument \<open>overlay\<close>.\<close>

definition process_filesystem ::
  "(('s, 'f, 'm) file_system \<Rightarrow> ('s, 'f, 'm) file_system list \<Rightarrow> ('s, 'f, 'm) file_system) \<Rightarrow> (open_config \<Rightarrow> bool) \<Rightarrow>
   file_defaults \<Rightarrow> (bytes \<Rightarrow> 'e \<Rightarrow> bytes \<times> 'e) \<Rightarrow> ('e \<Rightarrow> nat option) \<Rightarrow> ('s, 'f, 'm) file_system \<Rightarrow>
   ('s, 'f, 'm) file_system option \<Rightarrow> (('s, 'e) exec_state \<times> event_bus, 'f exec_file obs_file, 'm) file_system" where
  "process_filesystem overlay would_mutate df invoke clock root_fs package_files =
     (let filesystem = (case package_files of
            Some files \<Rightarrow> overlay root_fs [path_hack files]
          | None \<Rightarrow> root_fs)
      in observable_fs would_mutate (exec_fs df invoke clock filesystem))"

section \<open>One exchange per open device\<close>

text \<open>What a guest can do with one open device, and what each of its reads has returned so far.\<close>

datatype bridge_op = BWrite bytes | BRead nat | BSeek seek_from

fun bridge_step ::
  "(bytes \<Rightarrow> 'e \<Rightarrow> bytes \<times> 'e) \<Rightarrow> bridge_file \<times> 'e \<times> bytes list \<Rightarrow> bridge_op \<Rightarrow> bridge_file \<times> 'e \<times> bytes list" where
  "bridge_step invoke (f, e, received) (BWrite buf) = (snd (bridge_poll_write buf f), e, received)"
| "bridge_step invoke (f, e, received) (BSeek position) = (snd (bridge_start_seek position f), e, received)"
| "bridge_step invoke (f, e, received) (BRead n) =
     (case bridge_poll_read invoke n f e of (r, f', e') \<Rightarrow>
        (f', e', received @ (case r of Ready (Inr bs) \<Rightarrow> [bs] | _ \<Rightarrow> [])))"

definition bridge_run :: "(bytes \<Rightarrow> 'e \<Rightarrow> bytes \<times> 'e) \<Rightarrow> 'e \<Rightarrow> bridge_op list \<Rightarrow> bridge_file \<times> 'e \<times> bytes list" where
  "bridge_run invoke e = foldl (bridge_step invoke) (bridge_new, e, [])"

fun written :: "bridge_op list \<Rightarrow> bytes" where
  "written [] = []"
| "written (BWrite buf # ops) = buf @ written ops"
| "written (x # ops) = written ops"

fun requested :: "bridge_op list \<Rightarrow> nat" where
  "requested [] = 0"
| "requested (BRead n # ops) = n + requested ops"
| "requested (x # ops) = requested ops"

definition is_read :: "bridge_op \<Rightarrow> bool" where
  "is_read x = (case x of BRead _ \<Rightarrow> True | _ \<Rightarrow> False)"

text \<open>
  The specification of reading: a read-only file with fixed content. A read at position \<open>pos\<close> returns
  the bytes from there on, as many as fit, and moves past them; a seek sets the position unless its
  target is before the start.
\<close>

definition seek_position :: "bytes \<Rightarrow> nat \<Rightarrow> seek_from \<Rightarrow> nat" where
  "seek_position content pos position =
     (let target = (case position of
            SeekStart offset \<Rightarrow> uint offset
          | SeekEnd offset \<Rightarrow> int (length content) + sint offset
          | SeekCurrent offset \<Rightarrow> int pos + sint offset)
      in if target < 0 then pos else min (nat target) usize_max)"

fun file_reads :: "bytes \<Rightarrow> nat \<Rightarrow> bridge_op list \<Rightarrow> bytes list" where
  "file_reads content pos [] = []"
| "file_reads content pos (BRead n # ops) =
     (let chunk = take n (drop pos content) in chunk # file_reads content (pos + length chunk) ops)"
| "file_reads content pos (BSeek position # ops) = file_reads content (seek_position content pos position) ops"
| "file_reads content pos (BWrite buf # ops) = file_reads content pos ops"

text \<open>Reading in sequence: every seek goes to where the last read stopped, as the runtime's reads do.\<close>

fun sequential :: "bytes \<Rightarrow> nat \<Rightarrow> bridge_op list \<Rightarrow> bool" where
  "sequential content pos [] = True"
| "sequential content pos (BRead n # ops) = sequential content (pos + length (take n (drop pos content))) ops"
| "sequential content pos (BSeek position # ops) =
     (seek_position content pos position = pos \<and> sequential content pos ops)"
| "sequential content pos (BWrite buf # ops) = sequential content pos ops"

lemma sequential_reads:
  "sequential content pos ops \<Longrightarrow> concat (file_reads content pos ops) = take (requested ops) (drop pos content)"
proof (induction content pos ops rule: file_reads.induct)
  case (2 content pos n ops)
  have "drop (pos + length (take n (drop pos content))) content = drop n (drop pos content)"
    by (cases "n \<le> length content - pos") (simp_all add: add.commute)
  with 2 show ?case by (simp add: Let_def take_add)
qed simp_all

lemma seek_fields [frame]:
  "bf_request (snd (bridge_start_seek position f)) = bf_request f"
  "bf_response (snd (bridge_start_seek position f)) = bf_response f"
  by (simp_all add: bridge_start_seek_def Let_def)

lemma bridge_before_read:
  assumes "\<forall>x\<in>set ops. \<not> is_read x" "bf_response f = None"
  shows "\<exists>f'. foldl (bridge_step invoke) (f, e, received) ops = (f', e, received) \<and>
    bf_response f' = None \<and> bf_request f' = bf_request f @ written ops"
  using assms
proof (induction ops arbitrary: f)
  case (Cons x ops)
  show ?case
  proof (cases x)
    case (BWrite buf)
    with Cons.IH [of "snd (bridge_poll_write buf f)"] Cons.prems show ?thesis
      by (auto simp: bridge_poll_write_def is_read_def)
  next
    case (BSeek position)
    with Cons.IH [of "snd (bridge_start_seek position f)"] Cons.prems show ?thesis
      by (auto simp: is_read_def frame)
  qed (use Cons.prems in \<open>simp add: is_read_def\<close>)
qed auto

lemma bridge_read_cached:
  assumes "bf_response f = Some r"
  shows "bridge_poll_read invoke n f e =
    (Ready (Inr (take n (drop (bf_cursor f) r))),
     f\<lparr>bf_cursor := bf_cursor f + min (length r - bf_cursor f) n\<rparr>, e)"
  using assms by (auto simp: bridge_poll_read_def Let_def min_def)

lemma bridge_after_read_env:
  assumes "bf_response f = Some r"
  shows "fst (snd (foldl (bridge_step invoke) (f, e, received) ops)) = e"
  using assms
proof (induction ops arbitrary: f received)
  case (Cons x ops)
  then show ?case
    by (cases x) (simp_all add: bridge_poll_write_def frame bridge_read_cached)
qed simp

lemma bridge_seek_cached:
  "bf_response f = Some r \<Longrightarrow> bf_cursor (snd (bridge_start_seek position f)) = seek_position r (bf_cursor f) position"
  by (simp add: bridge_start_seek_def seek_position_def Let_def)

lemma bridge_after_read_data:
  assumes "bf_response f = Some r"
  shows "snd (snd (foldl (bridge_step invoke) (f, e, received) ops)) = received @ file_reads r (bf_cursor f) ops"
  using assms
proof (induction ops arbitrary: f received)
  case (Cons x ops)
  then show ?case
    by (cases x) (simp_all add: bridge_poll_write_def frame bridge_read_cached bridge_seek_cached Let_def min.commute)
qed simp

text \<open>
  C14. An open bridge device carries exactly one exchange, and what a guest reads from it is the response
  to that exchange. Whatever a guest writes, reads and seeks on it, the request that reaches the registry is
  the concatenation of everything written before the first read, it is sent once, and later writes and
  reads send nothing more. Each read returns what a read-only file with the response as its content
  returns: the first one starts at its beginning, wherever the guest had sought before, each further one
  continues where the last stopped, and a seek moves the position. When every seek goes to where the
  last read stopped, as with the runtime, which seeks to the descriptor's offset before each read, the
  bytes read are in total the beginning of the response.
\<close>

theorem bridge_single_exchange:
  assumes "\<forall>x\<in>set before. \<not> is_read x" "invoke (written before) e = (response, e')"
  shows "bridge_run invoke e before = (fst (bridge_run invoke e before), e, []) \<and>
    fst (snd (bridge_run invoke e (before @ BRead n # rest))) = e' \<and>
    snd (snd (bridge_run invoke e (before @ BRead n # rest))) = file_reads response 0 (BRead n # rest) \<and>
    (sequential response 0 (BRead n # rest) \<longrightarrow>
      concat (snd (snd (bridge_run invoke e (before @ BRead n # rest)))) = take (n + requested rest) response)"
proof -
  obtain f where f: "bridge_run invoke e before = (f, e, [])" "bf_response f = None"
      "bf_request f = written before"
    using bridge_before_read [OF assms(1), of bridge_new invoke e "[]"]
    by (auto simp: bridge_run_def bridge_new_def)
  let ?f = "f\<lparr>bf_response := Some response, bf_cursor := min (length response) n\<rparr>"
  have read: "bridge_poll_read invoke n f e = (Ready (Inr (take n response)), ?f, e')"
    using f assms(2) by (auto simp: bridge_poll_read_def Let_def min_def)
  have run: "bridge_run invoke e (before @ BRead n # rest) =
      foldl (bridge_step invoke) (?f, e', [take n response]) rest"
    using f(1) read by (simp add: bridge_run_def)
  have data: "snd (snd (bridge_run invoke e (before @ BRead n # rest))) = file_reads response 0 (BRead n # rest)"
    using bridge_after_read_data [of ?f response invoke e' "[take n response]" rest]
    by (simp add: run Let_def)
  have sent: "fst (snd (bridge_run invoke e (before @ BRead n # rest))) = e'"
    using bridge_after_read_env [of ?f response invoke e' "[take n response]" rest] by (simp add: run)
  show ?thesis
    unfolding data sent using f(1) sequential_reads [of response 0 "BRead n # rest"]
    by (simp del: file_reads.simps sequential.simps)
qed

theorem bridge_single_exchange_witness:
  "snd (snd (bridge_run (\<lambda>request calls. (request @ [7], Suc calls)) (0 :: nat)
     ([BWrite [1], BSeek (SeekStart 5), BWrite [2, 3]] @
      BRead 2 # [BWrite [9], BSeek (SeekStart 2), BRead 100, BRead 1, BSeek (SeekStart 1), BRead 1]))) =
     [[1, 2], [3, 7], [], [2]] \<and>
   fst (snd (bridge_run (\<lambda>request calls. (request @ [7], Suc calls)) (0 :: nat)
     ([BWrite [1], BSeek (SeekStart 5), BWrite [2, 3]] @
      BRead 2 # [BWrite [9], BSeek (SeekStart 2), BRead 100, BRead 1, BSeek (SeekStart 1), BRead 1]))) = 1"
  using bridge_single_exchange [of "[BWrite [1], BSeek (SeekStart 5), BWrite [2, 3]]"
      "\<lambda>request calls. (request @ [7], Suc calls)" "0 :: nat" "[1, 2, 3, 7]" 1 2
      "[BWrite [9], BSeek (SeekStart 2), BRead 100, BRead 1, BSeek (SeekStart 1), BRead 1]"]
  by (simp add: is_read_def seek_position_def usize_max_def Let_def)

section \<open>What the layer leaves alone\<close>

text \<open>A call on the inner file system as the guest makes it through the layer.\<close>

definition through_layer :: "('f, 'm) vfs_call \<Rightarrow> ('f exec_file, 'm) vfs_call" where
  "through_layer = map_vfs_call Inner id"

fun foreign_to_bridge :: "('f, 'm) vfs_call \<Rightarrow> bool" where
  "foreign_to_bridge (CallOpen p config) = (\<not> path_eq p bridge_path)"
| "foreign_to_bridge (CallRemoveFile p) = (\<not> path_eq p bridge_path)"
| "foreign_to_bridge c = True"

lemma on_inner_state [simp]: "snd (on_inner operation s) = s\<lparr>xs_inner := snd (operation (xs_inner s))\<rparr>"
  by (simp add: on_inner_def case_prod_unfold)

lemma exec_call_foreign:
  assumes "foreign_to_bridge c"
  shows "call_state (exec_fs df invoke clock fs) s (through_layer c) =
    s\<lparr>xs_inner := call_state fs (xs_inner s) c\<rparr>"
  using assms
  by (cases c) (auto simp: through_layer_def exec_fs_def exec_virtual_file_def exec_remove_file_def
      exec_open_def split: prod.splits sum.splits)

text \<open>
  Calls that do not concern the bridge device pass through the layer unchanged: whatever
  sequence of them a guest makes, the inner file system ends in the state the same calls produce on
  it directly, and neither the open bridge devices nor the host side is affected.
\<close>

theorem exec_layer_transparent:
  assumes "\<forall>c\<in>set calls. foreign_to_bridge c"
  shows "foldl (call_state (exec_fs df invoke clock fs)) s (map through_layer calls) =
    s\<lparr>xs_inner := foldl (call_state fs) (xs_inner s) calls\<rparr>"
  using assms
proof (induction calls arbitrary: s)
  case (Cons c cs)
  then show ?case by (simp add: exec_call_foreign)
qed simp

definition exec_example :: "(mem_state, nat) exec_state" where
  "exec_example = \<lparr>xs_inner = mem_example, xs_bridges = [], xs_env = 0\<rparr>"

theorem exec_layer_transparent_witness:
  "foldl (call_state (exec_fs mem_defaults (\<lambda>request n. ([], Suc n)) Some mem_fs)) exec_example
     (map through_layer [CallWrite 0 [4], CallRemoveFile ''/tmp/x'']) =
   exec_example\<lparr>xs_inner := mem_example\<lparr>ms_files := [(''/etc/hosts'', [4, 2, 3])], ms_handles := [(''/etc/hosts'', 1)]\<rparr>\<rparr>"
proof -
  have "\<not> path_eq ''/tmp/x'' bridge_path" "\<not> path_eq ''/etc/hosts'' ''/tmp/x''" by code_simp+
  then show ?thesis
    by (subst exec_layer_transparent)
      (simp_all add: exec_example_def mem_example_def mem_defs mem_is_device_def write_at_def)
qed

definition device_le :: "nat \<Rightarrow> ('s, 'e) exec_state \<Rightarrow> ('s, 'e) exec_state \<Rightarrow> bool" where
  "device_le m s t \<longleftrightarrow> (m < length (xs_bridges s) \<longrightarrow>
     m < length (xs_bridges t) \<and> xs_bridges t ! m = xs_bridges s ! m)"

lemma on_bridge_bridges [simp]:
  "xs_bridges (snd (on_bridge n operation s)) = (xs_bridges s)[n := snd (operation (xs_bridges s ! n))]"
  by (simp add: on_bridge_def case_prod_unfold)

lemma exec_call_device_le:
  assumes "Bridge m \<notin> set1_vfs_call c"
  shows "device_le m s (call_state (exec_fs df invoke clock fs) s c)"
proof (cases c)
  case (CallRead f n)
  with assms show ?thesis
    by (cases f) (simp_all add: exec_fs_def exec_virtual_file_def device_le_def case_prod_unfold)
qed (use assms in \<open>auto simp: exec_fs_def exec_virtual_file_def exec_remove_file_def exec_open_def
      device_le_def nth_append split: exec_file.splits prod.splits sum.splits\<close>)

interpretation device: growing_machine
  "\<lambda>s c. if Bridge m \<in> set1_vfs_call c then s else call_state (exec_fs df invoke clock fs) s c"
  "\<lambda>_. True" "device_le m" for m df invoke clock fs
proof unfold_locales
  fix s c
  show "device_le m s (if Bridge m \<in> set1_vfs_call c then s else call_state (exec_fs df invoke clock fs) s c)"
    by (cases "Bridge m \<in> set1_vfs_call c") (simp_all add: exec_call_device_le, simp add: device_le_def)
qed (auto simp: device_le_def)

text \<open>
  Bridge devices are not shared. Opening the device for reading and writing returns a handle with
  an empty request and no response, and as long as nobody uses that handle, no sequence of calls
  through the layer (opening further devices, writing and reading them, removing files) changes its
  request, response or position.
\<close>

theorem bridge_isolated:
  assumes "path_eq path bridge_path" "oc_read config" "oc_write config \<or> oc_append config"
    "fs_open (exec_fs df invoke clock fs) path config s = (Inr (Bridge m), s')"
    "\<forall>c\<in>set calls. Bridge m \<notin> set1_vfs_call c"
  shows "xs_bridges (foldl (call_state (exec_fs df invoke clock fs)) s' calls) ! m = bridge_new"
proof -
  have new: "m < length (xs_bridges s')" "xs_bridges s' ! m = bridge_new"
    using assms(1-4) by (auto simp: exec_fs_def exec_open_def)
  have "foldl (call_state (exec_fs df invoke clock fs)) s' calls =
      foldl (\<lambda>s c. if Bridge m \<in> set1_vfs_call c then s else call_state (exec_fs df invoke clock fs) s c) s' calls"
    using assms(5) by (auto intro!: foldl_cong)
  with new device.run_le [of m s' df invoke clock fs calls] show ?thesis
    by (simp add: device_le_def)
qed

definition rw_config :: open_config where
  "rw_config = \<lparr>oc_read = True, oc_write = True, oc_create_new = False, oc_create = False,
     oc_append = False, oc_truncate = False\<rparr>"

theorem bridge_isolated_witness:
  "xs_bridges (foldl (call_state (exec_fs mem_defaults (\<lambda>request n. ([], Suc n)) Some mem_fs))
     (exec_example\<lparr>xs_bridges := [bridge_new]\<rparr>)
     [CallOpen bridge_path rw_config, CallWrite (Bridge 1) [1, 2], CallRead (Bridge 1) 5]) ! 0 = bridge_new"
  by (rule bridge_isolated [of bridge_path rw_config _ _ _ _ exec_example 0])
    (simp_all add: rw_config_def exec_fs_def exec_open_def exec_example_def)

section \<open>The file system of a process\<close>

text \<open>
  A guest that starts a virtual executable is reported as modifying a file. In the file system of
  a process, writing a non-empty request to an open bridge device emits a \<open>file_modified\<close> event for
  the device although no file of the sandbox changes.
\<close>

theorem bridge_request_reported:
  assumes "buf \<noteq> []"
  shows "call_state (process_filesystem overlay would_mutate df invoke clock root files) (s, b)
      (CallWrite (Observed (Bridge n) bridge_path) buf) =
    (s\<lparr>xs_bridges := (xs_bridges s)[n := snd (bridge_poll_write buf (xs_bridges s ! n))]\<rparr>,
     emit FileModified bridge_path None b)"
  using assms
  by (simp only: process_filesystem_def Let_def obs_call_state)
    (simp add: call_event_def inner_call_def exec_fs_def exec_virtual_file_def on_bridge_def
      bridge_poll_write_def wrote_def emit_all_def)

theorem bridge_request_reported_witness:
  "call_state (process_filesystem (\<lambda>root files. root) oc_write mem_defaults (\<lambda>request n. ([], Suc n)) Some mem_fs None)
     (exec_example\<lparr>xs_bridges := [bridge_new]\<rparr>, set_enabled True (the (event_bus_new 4)))
     (CallWrite (Observed (Bridge 0) bridge_path) [1]) =
   (exec_example\<lparr>xs_bridges := [bridge_new\<lparr>bf_request := [1]\<rparr>]\<rparr>,
    emit FileModified bridge_path None (set_enabled True (the (event_bus_new 4))))"
  by (subst bridge_request_reported) (simp_all add: bridge_poll_write_def bridge_new_def)

end
