(* ===== verification/Host_Files.thy ===== *)
theory Host_Files
  imports Exec_Layer
begin

text \<open>
  What the host does to the sandbox's own file system (the free functions of \<open>src/core.rs\<close>):
  \<open>create_directories\<close>, \<open>create_parent_directories\<close>, \<open>read_file_from_fs\<close>, \<open>write_file_to_fs\<close>,
  \<open>write_file_to_fs_blocking\<close>, \<open>validate_directory\<close> and \<open>validate_host_mount_source\<close>. The file system
  (\<open>TmpFileSystem\<close>) is an arbitrary \<^typ>\<open>('s, 'f, 'm) file_system\<close>; the functions \<open>create_dir_all\<close> of
  \<open>virtual_fs\<close> and \<open>write_all\<close>, \<open>flush\<close>, \<open>read_to_end\<close> of \<open>tokio\<close> are the fields of \<open>host_io\<close>.
\<close>

section \<open>Errors and sequencing\<close>

definition bind_op ::
  "('s \<Rightarrow> (error + 'a) \<times> 's) \<Rightarrow> ('a \<Rightarrow> 's \<Rightarrow> (error + 'b) \<times> 's) \<Rightarrow> 's \<Rightarrow> (error + 'b) \<times> 's" where
  "bind_op m k s = (case m s of (Inl e, s') \<Rightarrow> (Inl e, s') | (Inr x, s') \<Rightarrow> k x s')"

definition fs_op :: "('s \<Rightarrow> (fs_error + 'a) \<times> 's) \<Rightarrow> 's \<Rightarrow> (error + 'a) \<times> 's" where
  "fs_op m s = (case m s of (r, s') \<Rightarrow> (map_sum FsErr id r, s'))"

definition io_op :: "('s \<Rightarrow> (io_error + 'a) \<times> 's) \<Rightarrow> 's \<Rightarrow> (error + 'a) \<times> 's" where
  "io_op m s = (case m s of (r, s') \<Rightarrow> (map_sum IoErr id r, s'))"

definition with_context :: "string \<Rightarrow> ('s \<Rightarrow> (error + 'a) \<times> 's) \<Rightarrow> 's \<Rightarrow> (error + 'a) \<times> 's" where
  "with_context msg m s = (case m s of (r, s') \<Rightarrow> (map_sum (Context msg) id r, s'))"

lemma map_sum_Inr [simp]: "map_sum f id r = Inr x \<longleftrightarrow> r = Inr x"
  by (cases r) simp_all

record ('s, 'f) host_io =
  io_create_dir_all :: "path \<Rightarrow> 's \<Rightarrow> (fs_error + unit) \<times> 's"
  io_write_all :: "'f \<Rightarrow> bytes \<Rightarrow> 's \<Rightarrow> (io_error + unit) \<times> 's"
  io_flush :: "'f \<Rightarrow> 's \<Rightarrow> (io_error + unit) \<times> 's"
  io_read_to_end :: "'f \<Rightarrow> 's \<Rightarrow> (io_error + bytes) \<times> 's"

section \<open>Directories\<close>

definition create_parent_directories :: "('s, 'f) host_io \<Rightarrow> path \<Rightarrow> 's \<Rightarrow> (error + unit) \<times> 's" where
  "create_parent_directories io path s =
     (case path_parent path of
        Some parent \<Rightarrow> with_context (''unable to create '' @ parent) (fs_op (io_create_dir_all io parent)) s
      | None \<Rightarrow> (Inr (), s))"

fun create_components ::
  "('s, 'f, 'm) file_system \<Rightarrow> component list \<Rightarrow> path \<Rightarrow> path list \<Rightarrow> 's \<Rightarrow> (error + path list) \<times> 's" where
  "create_components fs [] current created_paths s = (Inr created_paths, s)"
| "create_components fs (Normal name # rest) current created_paths s =
     (let current = path_push current name in
      case fs_metadata fs current s of
        Inr metadata \<Rightarrow>
          if md_is_dir metadata then create_components fs rest current created_paths s
          else (Inl (PathNotDirectory current), s)
      | Inl EntryNotFound \<Rightarrow>
          (case with_context (''unable to create '' @ current) (fs_op (fs_create_dir fs current)) s of
             (Inl e, s') \<Rightarrow> (Inl e, s')
           | (Inr _, s') \<Rightarrow> create_components fs rest current (created_paths @ [current]) s')
      | Inl e \<Rightarrow> (Inl (Context (''unable to inspect '' @ current) (FsErr e)), s))"
| "create_components fs (_ # rest) current created_paths s =
     create_components fs rest current created_paths s"

definition create_directories ::
  "('s, 'f, 'm) file_system \<Rightarrow> path \<Rightarrow> 's \<Rightarrow> (error + path list) \<times> 's" where
  "create_directories fs path s = create_components fs (components path) ''/'' [] s"

definition validate_directory ::
  "('s, 'f, 'm) file_system \<Rightarrow> path \<Rightarrow> string \<Rightarrow> 's \<Rightarrow> error + unit" where
  "validate_directory fs path name s =
     (case fs_metadata fs path s of
        Inr metadata \<Rightarrow> if md_is_dir metadata then Inr () else Inl (DirNotDirectory name path)
      | Inl EntryNotFound \<Rightarrow> Inl (DirMissing name path)
      | Inl BaseNotDirectory \<Rightarrow> Inl (DirNotDirectory name path)
      | Inl NotAFile \<Rightarrow> Inl (DirNotDirectory name path)
      | Inl e \<Rightarrow> Inl (Context (''unable to inspect '' @ name @ '': '' @ path) (FsErr e)))"

text \<open>
  The host's own file system: \<open>host_metadata\<close> is \<open>std::fs::metadata\<close> (whether a directory, or whether
  the error is \<open>NotFound\<close>) and \<open>host_canonicalize\<close> is \<open>Path::canonicalize\<close>.
\<close>

record host_view =
  host_metadata :: "path \<Rightarrow> (bool \<times> error) + bool"
  host_canonicalize :: "path \<Rightarrow> error + path"

definition validate_host_mount_source :: "host_view \<Rightarrow> string \<Rightarrow> error + path" where
  "validate_host_mount_source host path =
     (if NUL \<in> set path then Inl HostSourceNul
      else case host_metadata host path of
        Inl (not_found, e) \<Rightarrow>
          if not_found then Inl (HostSourceMissing path)
          else Inl (Context (''unable to inspect host mount source '' @ path) e)
      | Inr is_dir \<Rightarrow>
          if \<not> is_dir then Inl (HostSourceNotDir path)
          else map_sum (Context (''unable to resolve host mount source '' @ path)) id (host_canonicalize host path))"

section \<open>File contents\<close>

definition read_config :: open_config where
  "read_config = \<lparr>oc_read = True, oc_write = False, oc_create_new = False, oc_create = False,
     oc_append = False, oc_truncate = False\<rparr>"

definition write_config :: open_config where
  "write_config = \<lparr>oc_read = False, oc_write = True, oc_create_new = False, oc_create = True,
     oc_append = False, oc_truncate = True\<rparr>"

definition read_file_from_fs ::
  "('s, 'f) host_io \<Rightarrow> ('s, 'f, 'm) file_system \<Rightarrow> path \<Rightarrow> 's \<Rightarrow> (error + bytes) \<times> 's" where
  "read_file_from_fs io fs path =
     bind_op (fs_op (fs_open fs path read_config)) (\<lambda>file. io_op (io_read_to_end io file))"

definition write_file_to_fs ::
  "('s, 'f) host_io \<Rightarrow> ('s, 'f, 'm) file_system \<Rightarrow> path \<Rightarrow> bytes \<Rightarrow> 's \<Rightarrow> (error + unit) \<times> 's" where
  "write_file_to_fs io fs path data =
     bind_op (fs_op (fs_open fs path write_config)) (\<lambda>file.
       bind_op (io_op (io_write_all io file data)) (\<lambda>_. io_op (io_flush io file)))"

text \<open>\<open>runtime\<close> is the outcome of building the \<open>tokio\<close> runtime that drives the write.\<close>

definition write_file_to_fs_blocking ::
  "(error + unit) \<Rightarrow> ('s, 'f) host_io \<Rightarrow> ('s, 'f, 'm) file_system \<Rightarrow> path \<Rightarrow> bytes \<Rightarrow> 's \<Rightarrow> (error + unit) \<times> 's" where
  "write_file_to_fs_blocking runtime io fs path data =
     bind_op (create_parent_directories io path) (\<lambda>_.
       bind_op (with_context ''unable to create filesystem write runtime'' (\<lambda>s. (runtime, s))) (\<lambda>_.
         with_context (''unable to write '' @ path) (write_file_to_fs io fs path data)))"

section \<open>Making directories\<close>

text \<open>What a path is: a directory, something else, or an error.\<close>

definition fs_kind :: "('s, 'f, 'm) file_system \<Rightarrow> 's \<Rightarrow> path \<Rightarrow> fs_error + bool" where
  "fs_kind fs s p = map_sum id md_is_dir (fs_metadata fs p s)"

text \<open>
  What \<open>create_directories\<close> relies on: a successful \<open>create_dir\<close> makes exactly that path a
  directory, a failed one changes the kind of no path, and paths are looked up by their components.
\<close>

locale dir_fs =
  fixes fs :: "('s, 'f, 'm) file_system"
  assumes create_ok: "fs_create_dir fs p s = (Inr (), s') \<Longrightarrow>
      fs_kind fs s' q = (if path_eq p q then Inr True else fs_kind fs s q)"
    and create_err: "fs_create_dir fs p s = (Inl e, s') \<Longrightarrow> fs_kind fs s' q = fs_kind fs s q"
    and kind_cong: "path_eq p q \<Longrightarrow> fs_kind fs s p = fs_kind fs s q"

text \<open>The directories on the way from one directory to another, outermost first.\<close>

fun chain :: "string list \<Rightarrow> string list \<Rightarrow> path list" where
  "chain base [] = []"
| "chain base (n # ns) = render (base @ [n]) # chain (base @ [n]) ns"

lemma chain_below:
  "q \<in> set (chain base ns) \<Longrightarrow> \<exists>tail. q = render (base @ tail) \<and> tail \<noteq> [] \<and> set tail \<subseteq> set ns"
proof (induction ns arbitrary: base)
  case (Cons n ns)
  then consider "q = render (base @ [n])" | "q \<in> set (chain (base @ [n]) ns)" by auto
  then show ?case
  proof cases
    case 2
    with Cons.IH obtain tail where "q = render ((base @ [n]) @ tail)" "set tail \<subseteq> set ns" by blast
    then show ?thesis by (intro exI [of _ "n # tail"]) auto
  qed (intro exI [of _ "[n]"], simp)
qed simp

lemma chain_above_fresh:
  assumes "list_all valid_name (base @ ns)" "q \<in> set (chain base ns)"
  shows "\<not> path_eq (render base) q"
proof -
  from chain_below [OF assms(2)] obtain tail where
    "q = render (base @ tail)" "tail \<noteq> []" "set tail \<subseteq> set ns" by blast
  moreover have "list_all valid_name base" "list_all valid_name tail"
    using assms(1) calculation by (auto simp: list_all_iff subset_eq)
  ultimately show ?thesis by (auto simp: path_eq_def)
qed

context dir_fs
begin

lemma metadata_kind:
  "fs_metadata fs p s = Inr md \<Longrightarrow> fs_kind fs s p = Inr (md_is_dir md)"
  "fs_metadata fs p s = Inl e \<Longrightarrow> fs_kind fs s p = Inl e"
  by (simp_all add: fs_kind_def)

lemma create_components_exact:
  assumes "list_all valid_name (base @ ns)"
    "create_components fs (map Normal ns) (render base) created s = (Inr created', s')"
  shows "created' = created @ filter (\<lambda>q. \<not> is_ok (fs_kind fs s q)) (chain base ns) \<and>
    (\<forall>q. fs_kind fs s' q =
       (if \<exists>p\<in>set (chain base ns). path_eq p q then Inr True else fs_kind fs s q))"
  using assms
proof (induction ns arbitrary: base created s)
  case (Cons n ns)
  let ?p = "render (base @ [n])"
  have valid: "list_all valid_name base" "valid_name n" "list_all valid_name ((base @ [n]) @ ns)"
    using Cons.prems(1) by simp_all
  then have push: "path_push (render base) n = ?p" by simp
  have fresh: "\<not> path_eq ?p q" if "q \<in> set (chain (base @ [n]) ns)" for q
    using chain_above_fresh [OF valid(3) that] .
  show ?case
  proof (cases "fs_metadata fs ?p s")
    case (Inr md)
    then have dir: "md_is_dir md"
      and run: "create_components fs (map Normal ns) ?p created s = (Inr created', s')"
      using Cons.prems(2) push by (auto simp: Let_def split: if_splits)
    have "fs_kind fs s q = Inr True" if "path_eq ?p q" for q
      using kind_cong [OF that] metadata_kind(1) [OF Inr] dir by simp
    with Cons.IH [OF valid(3) run] metadata_kind(1) [OF Inr] show ?thesis
      by (auto simp: is_ok_def)
  next
    case (Inl e)
    then obtain s1 where e: "e = EntryNotFound" and mk: "fs_create_dir fs ?p s = (Inr (), s1)"
      and run: "create_components fs (map Normal ns) ?p (created @ [?p]) s1 = (Inr created', s')"
      using Cons.prems(2) push
      by (auto simp: Let_def with_context_def fs_op_def split: fs_error.splits prod.splits sum.splits)
    have "filter (\<lambda>q. \<not> is_ok (fs_kind fs s1 q)) (chain (base @ [n]) ns) =
        filter (\<lambda>q. \<not> is_ok (fs_kind fs s q)) (chain (base @ [n]) ns)"
      using fresh create_ok [OF mk] by (intro filter_cong) auto
    with Cons.IH [OF valid(3) run] create_ok [OF mk] metadata_kind(2) [OF Inl] show ?thesis
      by (auto simp: is_ok_def)
  qed
qed simp

lemma create_directories_exact:
  assumes "list_all valid_name names" "create_directories fs (render names) s = (Inr created, s')"
  shows "created = filter (\<lambda>q. \<not> is_ok (fs_kind fs s q)) (chain [] names) \<and>
    (\<forall>q. fs_kind fs s' q =
       (if \<exists>p\<in>set (chain [] names). path_eq p q then Inr True else fs_kind fs s q))"
  using create_components_exact [of "[]" names "[]" s created s'] assms
  by (simp add: create_directories_def root_is_render)

text \<open>The contract passes through the observing layer.\<close>

lemma observed_dir_fs: "dir_fs (observable_fs would_mutate fs)"
proof unfold_locales
  have kind: "fs_kind (observable_fs would_mutate fs) sb p = fs_kind fs (fst sb) p" for sb p
    by (simp add: fs_kind_def observable_fs_def)
  fix p q :: path and sb sb' :: "'s \<times> event_bus" and e
  show "fs_create_dir (observable_fs would_mutate fs) p sb = (Inr (), sb') \<Longrightarrow>
      fs_kind (observable_fs would_mutate fs) sb' q =
        (if path_eq p q then Inr True else fs_kind (observable_fs would_mutate fs) sb q)"
    unfolding kind by (auto simp: observable_fs_def obs_create_dir_def create_ok split: prod.splits)
  show "fs_create_dir (observable_fs would_mutate fs) p sb = (Inl e, sb') \<Longrightarrow>
      fs_kind (observable_fs would_mutate fs) sb' q = fs_kind (observable_fs would_mutate fs) sb q"
    unfolding kind by (auto simp: observable_fs_def obs_create_dir_def create_err split: prod.splits)
  show "path_eq p q \<Longrightarrow>
      fs_kind (observable_fs would_mutate fs) sb p = fs_kind (observable_fs would_mutate fs) sb q"
    unfolding kind by (rule kind_cong)
qed

end

lemma mem_is_dir_cong: "path_eq p q \<Longrightarrow> mem_is_dir p s = mem_is_dir q s"
  by (auto simp: mem_is_dir_def path_eq_def list_ex_iff)

lemma pm_get_cong: "path_eq p q \<Longrightarrow> pm_get m p = pm_get m q"
  by (induction m) (auto simp: path_eq_def)

lemma mem_is_device_cong: "path_eq p q \<Longrightarrow> mem_is_device p s = mem_is_device q s"
  by (auto simp: mem_is_device_def path_eq_def list_ex_iff)

lemma mem_is_device_frame [frame]:
  "mem_is_device p (s\<lparr>ms_dirs := ds\<rparr>) = mem_is_device p s"
  "mem_is_device p (s\<lparr>ms_files := fs\<rparr>) = mem_is_device p s"
  "mem_is_device p (s\<lparr>ms_handles := hs\<rparr>) = mem_is_device p s"
  by (simp_all add: mem_is_device_def)

lemma mem_fs_create_dir: "fs_create_dir mem_fs = mem_create_dir"
  by (simp add: mem_fs_def)

lemma mem_kind:
  "fs_kind mem_fs s p =
     (if mem_is_dir p s then Inr True
      else if mem_is_device p s then Inr False
      else case pm_get (ms_files s) p of Some _ \<Rightarrow> Inr False | None \<Rightarrow> Inl EntryNotFound)"
  by (simp add: fs_kind_def mem_fs_def mem_metadata_def split: option.splits)

lemma mem_is_dir_insert:
  "mem_is_dir q (s\<lparr>ms_dirs := ms_dirs s @ [p]\<rparr>) \<longleftrightarrow> path_eq p q \<or> mem_is_dir q s"
  by (auto simp: mem_is_dir_def)

interpretation mem_dirs: dir_fs mem_fs
proof unfold_locales
  fix p q :: path and s s' :: mem_state and e
  show "fs_create_dir mem_fs p s = (Inr (), s') \<Longrightarrow>
      fs_kind mem_fs s' q = (if path_eq p q then Inr True else fs_kind mem_fs s q)"
    unfolding mem_kind
    by (simp add: mem_fs_create_dir mem_create_dir_def split: if_splits) (auto simp: mem_is_dir_insert frame)
  show "fs_create_dir mem_fs p s = (Inl e, s') \<Longrightarrow> fs_kind mem_fs s' q = fs_kind mem_fs s q"
    by (simp add: mem_fs_create_dir mem_create_dir_def split: if_splits)
  show "path_eq p q \<Longrightarrow> fs_kind mem_fs s p = fs_kind mem_fs s q"
    by (simp add: mem_kind mem_is_dir_cong [of p q] mem_is_device_cong [of p q] pm_get_cong [of p q])
qed

interpretation observed_dirs: dir_fs "observable_fs would_mutate mem_fs" for would_mutate
  by (rule mem_dirs.observed_dir_fs)

text \<open>
  \<open>create_directories\<close> makes exactly the missing directories. On a file system whose \<open>create_dir\<close>
  does what it says, if the call succeeds on a normalized path then every directory on the way is
  there, the kind of every other path is what it was, and the paths it reports are the ones that did
  not exist before, outermost first.
\<close>

theorem create_directories_missing_only:
  assumes "dir_fs fs" "list_all valid_name names"
    "create_directories fs (render names) s = (Inr created, s')"
  shows "created = filter (\<lambda>q. \<not> is_ok (fs_kind fs s q)) (chain [] names) \<and>
    (\<forall>q. fs_kind fs s' q =
       (if \<exists>p\<in>set (chain [] names). path_eq p q then Inr True else fs_kind fs s q))"
  using assms by (rule dir_fs.create_directories_exact)

theorem create_directories_missing_only_witness:
  "fst (create_directories mem_fs (render [''etc'', ''ssl'', ''certs'']) mem_example) =
     Inr (filter (\<lambda>q. \<not> is_ok (fs_kind mem_fs mem_example q)) (chain [] [''etc'', ''ssl'', ''certs''])) \<and>
   filter (\<lambda>q. \<not> is_ok (fs_kind mem_fs mem_example q)) (chain [] [''etc'', ''ssl'', ''certs'']) =
     [''/etc/ssl'', ''/etc/ssl/certs'']"
proof
  obtain created s' where run:
    "create_directories mem_fs (render [''etc'', ''ssl'', ''certs'']) mem_example = (Inr created, s')"
  proof -
    have "is_ok (fst (create_directories mem_fs (render [''etc'', ''ssl'', ''certs'']) mem_example))" by code_simp
    then show ?thesis using that by (auto simp: is_ok_def split: sum.splits) (metis surjective_pairing)
  qed
  have "list_all valid_name [''etc'', ''ssl'', ''certs'']" by code_simp
  from create_directories_missing_only [OF mem_dirs.dir_fs_axioms this run] run
  show "fst (create_directories mem_fs (render [''etc'', ''ssl'', ''certs'']) mem_example) =
     Inr (filter (\<lambda>q. \<not> is_ok (fs_kind mem_fs mem_example q)) (chain [] [''etc'', ''ssl'', ''certs'']))"
    by simp
qed code_simp

end
