(* ===== verification/Bridge.thy ===== *)
theory Bridge
  imports Errors
begin

text \<open>
  Cancellation and the bridge to the host of \<open>src/core.rs\<close>: \<open>CancellationSource\<close>,
  \<open>CancellationToken\<close>, \<open>VirtualProcessRequest\<close> and \<open>VirtualExecutableBridge::invoke_blocking\<close>.

  \<open>invoke_blocking\<close> polls its surroundings: whether the process was cancelled, the clock, the bounded
  request channel and the response channel. One \<open>observation\<close> holds what one iteration of its loops
  sees, and a run consumes a list of them; \<open>Running\<close> is the result when the list ends before the
  function returned. The observations are arbitrary, so the theorems hold for every host, every
  scheduler and every clock. Instants are nanoseconds.
\<close>

section \<open>Cancellation\<close>

text \<open>
  A \<open>tokio::sync::watch\<close> channel of a flag: the value and the number of live receivers. As documented
  for \<open>watch::Sender::send\<close>, sending without a receiver fails and leaves the value alone.
\<close>

record cancellation_source =
  cs_value :: bool
  cs_receivers :: nat

definition cancellation_source_new :: cancellation_source where
  "cancellation_source_new = \<lparr>cs_value = False, cs_receivers = 0\<rparr>"

definition source_token :: "cancellation_source \<Rightarrow> cancellation_source" where
  "source_token c = c\<lparr>cs_receivers := Suc (cs_receivers c)\<rparr>"

definition source_cancel :: "cancellation_source \<Rightarrow> cancellation_source" where
  "source_cancel c = (if 0 < cs_receivers c then c\<lparr>cs_value := True\<rparr> else c)"

definition drop_token :: "cancellation_source \<Rightarrow> cancellation_source" where
  "drop_token c = c\<lparr>cs_receivers := cs_receivers c - 1\<rparr>"

definition is_cancelled :: "cancellation_source \<Rightarrow> bool" where
  "is_cancelled c = cs_value c"

text \<open>What \<open>changed().await\<close> can report: a new value, or that the source was dropped.\<close>

datatype watch_change = Changed bool | SourceDropped

fun cancelled_loop :: "watch_change list \<Rightarrow> unit poll" where
  "cancelled_loop [] = Pending"
| "cancelled_loop (SourceDropped # changes) = Ready ()"
| "cancelled_loop (Changed value # changes) = (if value then Ready () else cancelled_loop changes)"

definition cancelled :: "bool \<Rightarrow> watch_change list \<Rightarrow> unit poll" where
  "cancelled now changes = (if now then Ready () else cancelled_loop changes)"

section \<open>Requests\<close>

record process_request =
  pr_id :: u64
  pr_payload :: bytes

text \<open>The response channel: whether the receiving end is alive, and the responses not yet received.\<close>

record response_channel =
  rc_open :: bool
  rc_queue :: "bytes list"

definition respond :: "bytes \<Rightarrow> response_channel \<Rightarrow> (error + unit) \<times> response_channel" where
  "respond response ch =
     (if rc_open ch then (Inr (), ch\<lparr>rc_queue := rc_queue ch @ [response]\<rparr>)
      else (Inl ResponseReceiverClosed, ch))"

section \<open>The blocking call\<close>

datatype send_result = SendOk | SendFull | SendClosed

datatype recv_result = Received bytes | RecvTimeout | RecvDisconnected

record observation =
  ob_cancelled :: bool
  ob_now :: nat
  ob_send :: send_result
  ob_now_wait :: nat
  ob_recv :: recv_result

datatype invoke_result = Running | Panicked | Returned "error + bytes"

text \<open>
  What a run has done so far: the request handed to the host, whether \<open>request_cancellation.cancel()\<close>
  was called, and the blocking waits with the instant each began. The call is the \<open>source_cancel\<close> of
  the request's own source: it sets the flag that the request's token reads as long as one such token
  is alive, and a token exists from the creation of the request on.
\<close>

record invocation =
  iv_sent :: "process_request list"
  iv_cancelled :: bool
  iv_waits :: "(nat \<times> nat) list"

definition millis :: "nat \<Rightarrow> nat" where
  "millis n = n * 1000000"

text \<open>\<open>Instant + Duration\<close> panics when the seconds leave the range of \<open>i64\<close>.\<close>

definition instant_add :: "nat \<Rightarrow> nat \<Rightarrow> nat option" where
  "instant_add t d = (if (t + d) div 1000000000 < 2 ^ 63 then Some (t + d) else None)"

definition expired :: "nat option \<Rightarrow> nat \<Rightarrow> bool" where
  "expired deadline now = (case deadline of Some time \<Rightarrow> time \<le> now | None \<Rightarrow> False)"

definition wait_time :: "nat option \<Rightarrow> nat \<Rightarrow> nat" where
  "wait_time deadline now =
     (case deadline of None \<Rightarrow> millis 10 | Some time \<Rightarrow> min (time - now) (millis 10))"

definition give_up :: "(error + bytes) \<Rightarrow> invocation \<Rightarrow> invoke_result \<times> invocation" where
  "give_up r iv = (Returned r, iv\<lparr>iv_cancelled := True\<rparr>)"

fun await_response :: "nat option \<Rightarrow> observation list \<Rightarrow> invocation \<Rightarrow> invoke_result \<times> invocation" where
  "await_response deadline [] iv = (Running, iv)"
| "await_response deadline (ob # obs) iv =
     (if ob_cancelled ob then give_up (Inl ProcessCancelled) iv
      else if expired deadline (ob_now ob) then give_up (Inl ExecWallTime) iv
      else
        let iv = iv\<lparr>iv_waits := iv_waits iv @ [(ob_now_wait ob, wait_time deadline (ob_now_wait ob))]\<rparr> in
        case ob_recv ob of
          Received response \<Rightarrow> give_up (Inr response) iv
        | RecvTimeout \<Rightarrow> await_response deadline obs iv
        | RecvDisconnected \<Rightarrow> give_up (Inl ResponseChannelClosed) iv)"

fun send_request ::
  "nat option \<Rightarrow> process_request \<Rightarrow> observation list \<Rightarrow> invocation \<Rightarrow> invoke_result \<times> invocation" where
  "send_request deadline request [] iv = (Running, iv)"
| "send_request deadline request (ob # obs) iv =
     (if ob_cancelled ob then give_up (Inl ProcessCancelled) iv
      else if expired deadline (ob_now ob) then give_up (Inl ExecWallTime) iv
      else
        case ob_send ob of
          SendOk \<Rightarrow> await_response deadline obs (iv\<lparr>iv_sent := iv_sent iv @ [request]\<rparr>)
        | SendFull \<Rightarrow> send_request deadline request obs
            (iv\<lparr>iv_waits := iv_waits iv @ [(ob_now_wait ob, millis 1)]\<rparr>)
        | SendClosed \<Rightarrow> give_up (Inl DispatcherClosed) iv)"

text \<open>\<open>start\<close> is the instant of the call; \<open>sequence\<close> the counter of the bridge, which is advanced first.\<close>

definition invoke_blocking ::
  "bytes \<Rightarrow> nat option \<Rightarrow> nat \<Rightarrow> observation list \<Rightarrow> u64 \<Rightarrow> invoke_result \<times> invocation \<times> u64" where
  "invoke_blocking payload wall_time start obs sequence =
     (let id = sequence + 1;
          request = \<lparr>pr_id = id, pr_payload = payload\<rparr>;
          iv = \<lparr>iv_sent = [], iv_cancelled = False, iv_waits = []\<rparr>
      in case (case wall_time of None \<Rightarrow> Some None | Some timeout \<Rightarrow> map_option Some (instant_add start timeout)) of
           None \<Rightarrow> (Panicked, iv, id)
         | Some deadline \<Rightarrow>
             case send_request deadline request obs iv of (r, iv') \<Rightarrow> (r, iv', id))"

section \<open>Cancellation reaches the token holders\<close>

datatype source_op = MakeToken | DropToken | Cancel

fun source_step :: "cancellation_source \<Rightarrow> source_op \<Rightarrow> cancellation_source" where
  "source_step c MakeToken = source_token c"
| "source_step c DropToken = drop_token c"
| "source_step c Cancel = source_cancel c"

definition watched :: "source_op list \<Rightarrow> nat" where
  "watched ops = cs_receivers (foldl source_step cancellation_source_new ops)"

interpretation source: growing_machine source_step "\<lambda>_. True" "\<lambda>c d. is_cancelled c \<longrightarrow> is_cancelled d"
proof unfold_locales
  fix c x
  show "is_cancelled c \<longrightarrow> is_cancelled (source_step c x)"
    by (cases x) (simp_all add: source_token_def drop_token_def source_cancel_def is_cancelled_def)
qed auto

lemma source_step_cancels:
  "is_cancelled (source_step c x) \<longleftrightarrow> is_cancelled c \<or> x = Cancel \<and> 0 < cs_receivers c"
  by (cases x) (auto simp: source_token_def drop_token_def source_cancel_def is_cancelled_def)

text \<open>
  A cancellation is seen by every token, present and future, exactly if some token was alive when
  it was requested: after any sequence of making tokens, dropping tokens and cancelling, the source
  reads as cancelled iff one of the cancellations happened while a token existed. A cancellation
  before the first token is lost.
\<close>

theorem cancel_seen_iff:
  "is_cancelled (foldl source_step cancellation_source_new ops) \<longleftrightarrow>
     (\<exists>before rest. ops = before @ Cancel # rest \<and> 0 < watched before)"
proof (induction ops rule: rev_induct)
  case (snoc x ops)
  show ?case
  proof
    assume "is_cancelled (foldl source_step cancellation_source_new (ops @ [x]))"
    then consider "is_cancelled (foldl source_step cancellation_source_new ops)"
      | "x = Cancel" "0 < watched ops"
      by (auto simp: source_step_cancels watched_def)
    then show "\<exists>before rest. ops @ [x] = before @ Cancel # rest \<and> 0 < watched before"
      by cases (use snoc in \<open>fastforce\<close>)+
  next
    assume "\<exists>before rest. ops @ [x] = before @ Cancel # rest \<and> 0 < watched before"
    then obtain before rest where split: "ops @ [x] = before @ Cancel # rest" "0 < watched before"
      by blast
    then show "is_cancelled (foldl source_step cancellation_source_new (ops @ [x]))"
      using source.run_le [of "source_step (foldl source_step cancellation_source_new before) Cancel" rest]
      by (simp add: watched_def source_cancel_def is_cancelled_def)
  qed
qed (simp add: cancellation_source_new_def is_cancelled_def)

text \<open>
  Waiting for a cancellation ends exactly when the flag is or becomes set, or when the source is
  dropped: a token whose source is dropped without a cancellation behaves like a cancelled one.
\<close>

theorem cancelled_ends_iff:
  "cancelled now changes = Ready () \<longleftrightarrow> now \<or> Changed True \<in> set changes \<or> SourceDropped \<in> set changes"
proof -
  have "cancelled_loop changes = Ready () \<longleftrightarrow> Changed True \<in> set changes \<or> SourceDropped \<in> set changes"
    by (induction changes rule: cancelled_loop.induct) auto
  then show ?thesis by (simp add: cancelled_def)
qed

section \<open>Runs of the blocking call\<close>

text \<open>An observation that ends the run whatever the channels report.\<close>

definition stops :: "nat option \<Rightarrow> observation \<Rightarrow> bool" where
  "stops deadline ob \<longleftrightarrow> ob_cancelled ob \<or> expired deadline (ob_now ob)"

lemma give_up_simps [simp]:
  "fst (give_up r iv) = Returned r" "iv_sent (snd (give_up r iv)) = iv_sent iv"
  "iv_cancelled (snd (give_up r iv))" "iv_waits (snd (give_up r iv)) = iv_waits iv"
  by (simp_all add: give_up_def)

lemma await_sent [frame]: "iv_sent (snd (await_response deadline obs iv)) = iv_sent iv"
  by (induction deadline obs iv rule: await_response.induct)
    (auto simp: Let_def split: recv_result.splits)

lemma await_cancelled:
  "\<not> iv_cancelled iv \<Longrightarrow>
   iv_cancelled (snd (await_response deadline obs iv)) \<longleftrightarrow> fst (await_response deadline obs iv) \<noteq> Running"
  by (induction deadline obs iv rule: await_response.induct)
    (auto simp: Let_def split: recv_result.splits)

lemma send_cancelled:
  "\<not> iv_cancelled iv \<Longrightarrow>
   iv_cancelled (snd (send_request deadline request obs iv)) \<longleftrightarrow>
     fst (send_request deadline request obs iv) \<noteq> Running"
  by (induction deadline request obs iv rule: send_request.induct)
    (auto simp: await_cancelled split: send_result.splits)

lemma send_sent:
  "iv_sent iv = [] \<Longrightarrow> iv_sent (snd (send_request deadline request obs iv)) \<in> {[], [request]}"
  by (induction deadline request obs iv rule: send_request.induct)
    (auto simp: frame split: send_result.splits)

lemma await_not_panicked [simp]: "fst (await_response deadline obs iv) \<noteq> Panicked"
  by (induction deadline obs iv rule: await_response.induct)
    (auto simp: Let_def split: recv_result.splits)

lemma send_not_panicked [simp]: "fst (send_request deadline request obs iv) \<noteq> Panicked"
  by (induction deadline request obs iv rule: send_request.induct) (auto split: send_result.splits)

text \<open>
  C17. Every call hands at most one request to the host, with the next sequence number and the given
  payload, and the token of that request is cancelled exactly when the call returns: on success, on
  cancellation, at the deadline and on closed channels alike, and never while it is still waiting.
\<close>

theorem invoke_always_cancels_request:
  "(case invoke_blocking payload wall_time start obs sequence of (r, iv, sequence') \<Rightarrow>
     (iv_cancelled iv \<longleftrightarrow> (\<exists>x. r = Returned x)) \<and>
     iv_sent iv \<in> {[], [\<lparr>pr_id = sequence + 1, pr_payload = payload\<rparr>]} \<and>
     sequence' = sequence + 1)"
proof -
  let ?iv = "\<lparr>iv_sent = [], iv_cancelled = False, iv_waits = []\<rparr>"
  have "iv_cancelled (snd (send_request deadline request obs ?iv)) \<longleftrightarrow>
      (\<exists>x. fst (send_request deadline request obs ?iv) = Returned x)" for deadline request
    using send_cancelled [of ?iv deadline request obs] send_not_panicked [of deadline request obs ?iv]
    by (cases "fst (send_request deadline request obs ?iv)") auto
  moreover have "iv_sent (snd (send_request deadline request obs ?iv)) \<in> {[], [request]}" for deadline request
    by (rule send_sent) simp
  ultimately show ?thesis
    by (simp add: invoke_blocking_def Let_def case_prod_unfold split: option.splits)
qed

lemma await_success_iff:
  "fst (await_response deadline obs iv) = Returned (Inr response) \<longleftrightarrow>
     until (\<lambda>ob. \<not> stops deadline ob \<and> ob_recv ob = RecvTimeout)
       (\<lambda>ob rest. \<not> stops deadline ob \<and> ob_recv ob = Received response) obs"
  by (induction deadline obs iv rule: await_response.induct)
    (auto simp: stops_def Let_def split: recv_result.splits)

lemma send_success_iff:
  "fst (send_request deadline request obs iv) = Returned (Inr response) \<longleftrightarrow>
     until (\<lambda>ob. \<not> stops deadline ob \<and> ob_send ob = SendFull)
       (\<lambda>ob rest. \<not> stops deadline ob \<and> ob_send ob = SendOk \<and>
          until (\<lambda>ob. \<not> stops deadline ob \<and> ob_recv ob = RecvTimeout)
            (\<lambda>ob rest. \<not> stops deadline ob \<and> ob_recv ob = Received response) rest) obs"
  by (induction deadline request obs iv rule: send_request.induct)
    (auto simp: stops_def await_success_iff split: send_result.splits)

lemma await_returns: "ob \<in> set obs \<Longrightarrow> stops deadline ob \<Longrightarrow> fst (await_response deadline obs iv) \<noteq> Running"
  by (induction deadline obs iv rule: await_response.induct)
    (auto simp: stops_def Let_def split: recv_result.splits)

lemma send_returns:
  "ob \<in> set obs \<Longrightarrow> stops deadline ob \<Longrightarrow> fst (send_request deadline request obs iv) \<noteq> Running"
  by (induction deadline request obs iv rule: send_request.induct)
    (auto simp: stops_def await_returns split: send_result.splits)

text \<open>The deadline that a wall time sets at an instant, if the instant is representable.\<close>

definition deadline_of :: "nat option \<Rightarrow> nat \<Rightarrow> nat option option" where
  "deadline_of wall_time start =
     (case wall_time of None \<Rightarrow> Some None | Some timeout \<Rightarrow> map_option Some (instant_add start timeout))"

lemma invoke_blocking_fst:
  "deadline_of wall_time start = Some deadline \<Longrightarrow>
   fst (invoke_blocking payload wall_time start obs sequence) =
     fst (send_request deadline \<lparr>pr_id = sequence + 1, pr_payload = payload\<rparr> obs
       \<lparr>iv_sent = [], iv_cancelled = False, iv_waits = []\<rparr>)"
  by (simp add: invoke_blocking_def deadline_of_def Let_def case_prod_unfold)

text \<open>
  C15. The call returns a response exactly if the request was accepted after some full-channel retries
  and the response arrived after some timeouts, with neither a cancellation nor an expired deadline
  seen in any iteration up to then. A response that arrives together with a cancellation or after the
  deadline is not delivered.
\<close>

theorem invoke_success_iff:
  assumes "deadline_of wall_time start = Some deadline"
  shows "fst (invoke_blocking payload wall_time start obs sequence) = Returned (Inr response) \<longleftrightarrow>
    until (\<lambda>ob. \<not> stops deadline ob \<and> ob_send ob = SendFull)
      (\<lambda>ob rest. \<not> stops deadline ob \<and> ob_send ob = SendOk \<and>
         until (\<lambda>ob. \<not> stops deadline ob \<and> ob_recv ob = RecvTimeout)
           (\<lambda>ob rest. \<not> stops deadline ob \<and> ob_recv ob = Received response) rest) obs"
  using assms by (simp add: invoke_blocking_fst send_success_iff)

definition quiet :: "nat \<Rightarrow> observation" where
  "quiet now = \<lparr>ob_cancelled = False, ob_now = now, ob_send = SendOk, ob_now_wait = now, ob_recv = RecvTimeout\<rparr>"

theorem invoke_success_iff_witness:
  "fst (invoke_blocking [1] (Some 1000) 5
     [(quiet 6)\<lparr>ob_send := SendFull\<rparr>, quiet 7, quiet 8, (quiet 9)\<lparr>ob_recv := Received [42]\<rparr>] 0) =
   Returned (Inr [42])"
  by (subst invoke_success_iff [where deadline = "Some 1005"])
    (simp_all add: deadline_of_def instant_add_def quiet_def stops_def expired_def)

text \<open>
  C16. The call cannot hang past a cancellation or its deadline: as soon as one iteration sees the
  process cancelled or the clock at or after the deadline, the call has returned by that iteration,
  whatever the host does or fails to do.
\<close>

theorem invoke_returns:
  assumes "deadline_of wall_time start = Some deadline" "ob \<in> set obs"
    "ob_cancelled ob \<or> expired deadline (ob_now ob)"
  shows "\<exists>r. fst (invoke_blocking payload wall_time start obs sequence) = Returned r"
  using send_returns [OF assms(2), of deadline] assms(3)
  by (auto simp: invoke_blocking_fst [OF assms(1)] stops_def, metis invoke_result.exhaust send_not_panicked)+

theorem invoke_returns_witness:
  "\<exists>r. fst (invoke_blocking [1] (Some 10) 5 [quiet 6, quiet 9, quiet 15] 0) = Returned r"
  by (rule invoke_returns [where deadline = "Some 15" and ob = "quiet 15"])
    (simp_all add: deadline_of_def instant_add_def quiet_def expired_def)

lemma await_waits:
  "list_all Q (iv_waits iv) \<Longrightarrow> (\<And>t. Q (t, wait_time deadline t)) \<Longrightarrow>
   list_all Q (iv_waits (snd (await_response deadline obs iv)))"
  by (induction deadline obs iv rule: await_response.induct)
    (auto simp: Let_def split: recv_result.splits)

lemma send_waits:
  "list_all Q (iv_waits iv) \<Longrightarrow> (\<And>t. Q (t, wait_time deadline t)) \<Longrightarrow> (\<And>t. Q (t, millis 1)) \<Longrightarrow>
   list_all Q (iv_waits (snd (send_request deadline request obs iv)))"
  by (induction deadline request obs iv rule: send_request.induct)
    (auto simp: await_waits split: send_result.splits)

text \<open>
  C40. The call never sleeps long. Every blocking wait, of a call with a wall time and of one without,
  lasts at most ten milliseconds, and with a wall time no wait that starts before the deadline ends more
  than one millisecond after it. A cancellation is therefore noticed within ten milliseconds and an
  expired deadline within one.
\<close>

theorem invoke_waits_bounded:
  assumes "(t, w) \<in> set (iv_waits (fst (snd (invoke_blocking payload wall_time start obs sequence))))"
  shows "w \<le> millis 10 \<and> (\<forall>timeout. wall_time = Some timeout \<longrightarrow> t + w \<le> max t (start + timeout) + millis 1)"
proof (cases "deadline_of wall_time start")
  case None
  with assms show ?thesis by (simp add: invoke_blocking_def deadline_of_def Let_def)
next
  case (Some deadline)
  let ?Q = "\<lambda>(t, w). w \<le> millis 10 \<and> (\<forall>d. deadline = Some d \<longrightarrow> t + w \<le> max t d + millis 1)"
  have "list_all ?Q (iv_waits (snd (send_request deadline
      \<lparr>pr_id = sequence + 1, pr_payload = payload\<rparr> obs \<lparr>iv_sent = [], iv_cancelled = False, iv_waits = []\<rparr>)))"
    by (rule send_waits) (auto simp: wait_time_def millis_def split: option.splits)
  then have "?Q (t, w)"
    using assms Some by (auto simp: invoke_blocking_def deadline_of_def Let_def case_prod_unfold list_all_iff)
  moreover have "deadline = Some (start + timeout)" if "wall_time = Some timeout" for timeout
    using Some that by (auto simp: deadline_of_def instant_add_def split: if_splits)
  ultimately show ?thesis by simp
qed

theorem invoke_waits_bounded_witness:
  "(7, millis 10) \<in> set (iv_waits (fst (snd (invoke_blocking [1] None 5 [quiet 6, quiet 7] 0)))) \<and>
   millis 10 \<le> millis 10 \<and>
   (7, 3) \<in> set (iv_waits (fst (snd (invoke_blocking [1] (Some 5) 5 [quiet 6, quiet 7] 0)))) \<and>
   7 + 3 \<le> max 7 (5 + 5) + millis 1"
proof (intro conjI)
  show 1: "(7, millis 10) \<in> set (iv_waits (fst (snd (invoke_blocking [1] None 5 [quiet 6, quiet 7] 0))))"
    by (simp add: invoke_blocking_def quiet_def expired_def wait_time_def)
  show "millis 10 \<le> millis 10" using invoke_waits_bounded [OF 1] by blast
  show 2: "(7, 3) \<in> set (iv_waits (fst (snd (invoke_blocking [1] (Some 5) 5 [quiet 6, quiet 7] 0))))"
    by (simp add: invoke_blocking_def instant_add_def quiet_def expired_def wait_time_def millis_def)
  show "7 + 3 \<le> max 7 (5 + 5) + millis 1" using invoke_waits_bounded [OF 2] by blast
qed

text \<open>
  A wall time that does not fit the clock makes the call panic instead of returning an error: no
  request is sent and the token is not cancelled.
\<close>

theorem invoke_panics_iff:
  "fst (invoke_blocking payload wall_time start obs sequence) = Panicked \<longleftrightarrow>
     (\<exists>timeout. wall_time = Some timeout \<and> 2 ^ 63 \<le> (start + timeout) div 1000000000)"
  by (auto simp: invoke_blocking_def instant_add_def Let_def case_prod_unfold split: option.splits)

end
