(* ===== verification/Registry.thy ===== *)
theory Registry
  imports Host_Files Bridge Wire
begin

text \<open>
  The registry of virtual executables of \<open>src/core.rs\<close>: \<open>VirtualExecutableRegistry\<close> with \<open>register\<close>,
  \<open>unregister\<close>, \<open>resolve_command\<close>, \<open>resolve_path\<close>, \<open>invoke_guest\<close> and \<open>invoke_guest_result\<close>, and the
  launcher files it writes (\<open>virtual_executable_wasm\<close>, \<open>wat_string\<close>). The crates \<open>wat\<close> and
  \<open>serde_json\<close> are arguments (\<open>wat_parse\<close>, \<open>to_json\<close>).
\<close>

section \<open>State\<close>

record exec_target =
  tg_token :: u64
  tg_path :: string

record registry =
  reg_poisoned :: bool
  reg_paths :: "(path \<times> exec_target) list"

record resolved_executable =
  re_token :: u64
  re_path :: string

record process_payload =
  vp_handler_token :: u64
  vp_executable_path :: string
  vp_argv :: "string list"
  vp_cwd :: string
  vp_env :: "(string \<times> string) list"
  vp_stdin :: string

definition registry_new :: registry where
  "registry_new = \<lparr>reg_poisoned = False, reg_paths = []\<rparr>"

section \<open>Launcher files\<close>

text \<open>\<open>str::replace\<close> with a non-empty pattern: occurrences from the left, without overlap.\<close>

function str_replace :: "string \<Rightarrow> string \<Rightarrow> string \<Rightarrow> string" where
  "str_replace pattern to [] = []"
| "str_replace pattern to (c # cs) =
     (if pattern \<noteq> [] \<and> take (length pattern) (c # cs) = pattern
      then to @ str_replace pattern to (drop (length pattern) (c # cs))
      else c # str_replace pattern to cs)"
  by pat_completeness auto
termination
  by (relation "measure (\<lambda>(_, _, s). length s)") (auto simp: length_greater_0_conv)

definition hex_digit :: "nat \<Rightarrow> char" where
  "hex_digit n = (if n < 10 then char_of (48 + n) else char_of (87 + n))"

fun wat_string :: "bytes \<Rightarrow> string" where
  "wat_string [] = []"
| "wat_string (byte # data) =
     CHR 0x5C # hex_digit (unat byte div 16) # hex_digit (unat byte mod 16) # wat_string data"

text \<open>\<open>template\<close> is the text \<open>VIRTUAL_EXECUTABLE_WASM\<close>.\<close>

definition virtual_executable_wasm ::
  "string \<Rightarrow> (string \<Rightarrow> error + bytes) \<Rightarrow> string \<Rightarrow> error + bytes" where
  "virtual_executable_wasm template wat_parse path =
     (let wat = str_replace ''__VIRTUAL_EXEC_PATH__'' (wat_string (into_bytes path))
                  (str_replace ''__VIRTUAL_EXEC_PATH_LEN__'' (show_nat (length path)) template)
      in map_sum (Context ''unable to build virtual executable launcher'') id (wat_parse wat))"

section \<open>Registration\<close>

fun normalize_exec_paths :: "string list \<Rightarrow> error + path list" where
  "normalize_exec_paths [] = Inr []"
| "normalize_exec_paths (path # paths) =
     (case normalize_path path of
        Inl e \<Rightarrow> Inl e
      | Inr normalized \<Rightarrow>
          if path_eq normalized ''/'' then Inl ExecPathIsRoot
          else (case normalize_exec_paths paths of
                  Inl e \<Rightarrow> Inl e
                | Inr rest \<Rightarrow> Inr (normalized # rest)))"

fun check_exec_paths ::
  "('s, 'f, 'm) file_system \<Rightarrow> bool \<Rightarrow> (path \<times> exec_target) list \<Rightarrow> path list \<Rightarrow> 's \<Rightarrow> error + unit" where
  "check_exec_paths fs replace registered [] s = Inr ()"
| "check_exec_paths fs replace registered (path # paths) s =
     (if \<not> replace \<and> is_ok (fs_metadata fs path s) then Inl (ExecPathExists path)
      else if \<not> replace \<and> pm_get registered path \<noteq> None then Inl (ExecPathRegistered path)
      else check_exec_paths fs replace registered paths s)"

text \<open>What the loop of \<open>register\<close> does for one path before the table is updated.\<close>

definition install_executable ::
  "(string \<Rightarrow> error + bytes) \<Rightarrow> (error + unit) \<Rightarrow> ('s, 'f) host_io \<Rightarrow> ('s, 'f, 'm) file_system \<Rightarrow> path \<Rightarrow> 's \<Rightarrow>
     (error + unit) \<times> 's" where
  "install_executable launcher runtime io fs path =
     bind_op (create_parent_directories io path) (\<lambda>_.
       bind_op (\<lambda>s. (launcher path, s)) (\<lambda>executable.
         write_file_to_fs_blocking runtime io fs path executable))"

fun install_executables ::
  "(path \<Rightarrow> 's \<Rightarrow> (error + unit) \<times> 's) \<Rightarrow> u64 \<Rightarrow> path list \<Rightarrow> (path \<times> exec_target) list \<Rightarrow> 's \<Rightarrow>
     (error + unit) \<times> (path \<times> exec_target) list \<times> 's" where
  "install_executables install token [] registered s = (Inr (), registered, s)"
| "install_executables install token (path # paths) registered s =
     (case install path s of
        (Inl e, s') \<Rightarrow> (Inl e, registered, s')
      | (Inr _, s') \<Rightarrow>
          install_executables install token paths
            (pm_insert path \<lparr>tg_token = token, tg_path = path\<rparr> registered) s')"

text \<open>
  \<open>register\<close>. \<open>launcher\<close> is \<open>virtual_executable_wasm\<close> with its template and parser applied.
\<close>

definition register ::
  "(string \<Rightarrow> error + bytes) \<Rightarrow> (error + unit) \<Rightarrow> ('s, 'f) host_io \<Rightarrow> ('s, 'f, 'm) file_system \<Rightarrow>
     u64 \<Rightarrow> string list \<Rightarrow> bool \<Rightarrow> registry \<times> 's \<Rightarrow> (error + unit) \<times> registry \<times> 's" where
  "register launcher runtime io fs token paths replace rs =
     (case rs of (reg, s) \<Rightarrow>
      if paths = [] then (Inl ExecPathsEmpty, reg, s)
      else case normalize_exec_paths paths of
        Inl e \<Rightarrow> (Inl e, reg, s)
      | Inr normalized_paths \<Rightarrow>
          if reg_poisoned reg then (Inl RegistryLockFailed, reg, s)
          else case check_exec_paths fs replace (reg_paths reg) normalized_paths s of
            Inl e \<Rightarrow> (Inl e, reg, s)
          | Inr _ \<Rightarrow>
              (case install_executables (install_executable launcher runtime io fs) token normalized_paths
                      (reg_paths reg) s of
                 (r, registered, s') \<Rightarrow> (r, reg\<lparr>reg_paths := registered\<rparr>, s')))"

definition unregister ::
  "('s, 'f, 'm) file_system \<Rightarrow> u64 \<Rightarrow> registry \<times> 's \<Rightarrow> (error + unit) \<times> registry \<times> 's" where
  "unregister fs token rs =
     (case rs of (reg, s) \<Rightarrow>
      if reg_poisoned reg then (Inl RegistryLockFailed, reg, s)
      else
        let paths = map fst (filter (\<lambda>(path, target). tg_token target = token) (reg_paths reg))
        in (Inr (), reg\<lparr>reg_paths := fold pm_remove paths (reg_paths reg)\<rparr>,
            fold (\<lambda>path s. snd (fs_remove_file fs path s)) paths s))"

section \<open>Resolution\<close>

definition resolve_path :: "registry \<Rightarrow> path \<Rightarrow> error + resolved_executable option" where
  "resolve_path reg path =
     (if reg_poisoned reg then Inl RegistryLockFailed
      else Inr (map_option (\<lambda>target. \<lparr>re_token = tg_token target, re_path = tg_path target\<rparr>)
                  (pm_get (reg_paths reg) path)))"

text \<open>The search along \<open>PATH\<close>; \<open>look\<close> looks one candidate up.\<close>

fun search_path :: "(path \<Rightarrow> error + 'a option) \<Rightarrow> string \<Rightarrow> path \<Rightarrow> string list \<Rightarrow> error + 'a option" where
  "search_path look command cwd [] = Inr None"
| "search_path look command cwd (directory # directories) =
     (case command_path_from_path_entry directory command cwd of
        Inl e \<Rightarrow> Inl e
      | Inr candidate \<Rightarrow>
          (case look candidate of
             Inl e \<Rightarrow> Inl e
           | Inr (Some target) \<Rightarrow> Inr (Some target)
           | Inr None \<Rightarrow> search_path look command cwd directories))"

definition path_entries :: "string option \<Rightarrow> string list" where
  "path_entries path_env = split_on (CHR '':'') (case path_env of Some p \<Rightarrow> p | None \<Rightarrow> [])"

definition resolve_virtual_command ::
  "registry \<Rightarrow> string \<Rightarrow> path \<Rightarrow> string option \<Rightarrow> error + resolved_executable option" where
  "resolve_virtual_command reg command cwd path_env =
     (if NUL \<in> set command then Inl CommandNul
      else if command = [] then Inl CommandEmpty
      else if slash \<in> set command then
        (case normalize_command_path command cwd of
           Inl e \<Rightarrow> Inl e
         | Inr path \<Rightarrow> resolve_path reg path)
      else search_path (resolve_path reg) command cwd (path_entries path_env))"

section \<open>Requests of guests\<close>

text \<open>\<open>Error::to_string\<close> prints the outermost message; \<open>show_foreign\<close> prints errors of other crates.\<close>

fun error_to_string :: "(error \<Rightarrow> string) \<Rightarrow> error \<Rightarrow> string" where
  "error_to_string show_foreign (Msg msg) = msg"
| "error_to_string show_foreign (Context msg e) = msg"
| "error_to_string show_foreign e = show_foreign e"

text \<open>\<open>call\<close> is \<open>invoke_blocking\<close> on the bridge, with the wall time and the token of the process.\<close>

definition invoke_guest_result ::
  "(bytes \<Rightarrow> string) \<Rightarrow> (process_payload \<Rightarrow> error + bytes) \<Rightarrow> (bytes \<Rightarrow> 'e \<Rightarrow> (error + bytes) \<times> 'e) \<Rightarrow>
     registry \<Rightarrow> bytes \<Rightarrow> 'e \<Rightarrow> (error + bytes) \<times> 'e" where
  "invoke_guest_result b64 to_json call reg payload e =
     (case parse_guest_payload b64 payload of
        Inl err \<Rightarrow> (Inl (Context ''invalid virtual executable request'' err), e)
      | Inr guest \<Rightarrow>
          (case normalize_path (gp_executable_path guest) of
             Inl err \<Rightarrow> (Inl err, e)
           | Inr executable_path \<Rightarrow>
               (case resolve_path reg executable_path of
                  Inl err \<Rightarrow> (Inl err, e)
                | Inr None \<Rightarrow> (Inl (ExecNotRegistered executable_path), e)
                | Inr (Some target) \<Rightarrow>
                    (case to_json \<lparr>vp_handler_token = re_token target, vp_executable_path = re_path target,
                            vp_argv = gp_argv guest, vp_cwd = gp_cwd guest, vp_env = gp_env guest,
                            vp_stdin = gp_stdin guest\<rparr> of
                       Inl err \<Rightarrow> (Inl err, e)
                     | Inr json \<Rightarrow> call json e))))"

definition invoke_guest ::
  "(error \<Rightarrow> string) \<Rightarrow> (bytes \<Rightarrow> string) \<Rightarrow> (process_payload \<Rightarrow> error + bytes) \<Rightarrow>
     (bytes \<Rightarrow> 'e \<Rightarrow> (error + bytes) \<times> 'e) \<Rightarrow> registry \<Rightarrow> bytes \<Rightarrow> 'e \<Rightarrow> bytes \<times> 'e" where
  "invoke_guest show_foreign b64 to_json call reg payload e =
     (case invoke_guest_result b64 to_json call reg payload e of
        (Inr response, e') \<Rightarrow> (response, e')
      | (Inl err, e') \<Rightarrow> (error_response (error_to_string show_foreign err), e'))"

section \<open>Launcher text\<close>

text \<open>The reader of a WAT string of two-digit escapes.\<close>

definition hex_value :: "char \<Rightarrow> nat option" where
  "hex_value c =
     (let n = of_char c in
      if 48 \<le> n \<and> n \<le> 57 then Some (n - 48)
      else if 97 \<le> n \<and> n \<le> 102 then Some (n - 87)
      else None)"

fun wat_unescape :: "string \<Rightarrow> bytes option" where
  "wat_unescape [] = Some []"
| "wat_unescape (b # h # l # cs) =
     (if b = CHR 0x5C then
        (case (hex_value h, hex_value l, wat_unescape cs) of
           (Some x, Some y, Some bs) \<Rightarrow> Some (of_nat (16 * x + y) # bs)
         | _ \<Rightarrow> None)
      else None)"
| "wat_unescape _ = None"

lemma hex_value_digit: "n < 16 \<Longrightarrow> hex_value (hex_digit n) = Some n"
  by (auto simp: hex_value_def hex_digit_def of_char_of Let_def)

lemma hex_digit_safe:
  assumes "n < 16"
  shows "hex_digit n \<noteq> CHR 0x22" "hex_digit n \<noteq> CHR 0x5C" "hex_digit n \<noteq> CHR 0x0A"
proof -
  have "hex_value (CHR 0x22) = None" "hex_value (CHR 0x5C) = None" "hex_value (CHR 0x0A) = None"
    by code_simp+
  with hex_value_digit [OF assms] show "hex_digit n \<noteq> CHR 0x22" "hex_digit n \<noteq> CHR 0x5C" "hex_digit n \<noteq> CHR 0x0A"
    by force+
qed

text \<open>
  The path of a virtual executable cannot break out of its launcher's source text: whatever bytes
  it has, the escaped text contains neither a quotation mark nor a line break, and a WAT reader of
  two-digit escapes recovers exactly the bytes of the path.
\<close>

theorem wat_string_faithful:
  "CHR 0x22 \<notin> set (wat_string data) \<and> CHR 0x0A \<notin> set (wat_string data) \<and>
   wat_unescape (wat_string data) = Some data"
proof (induction data)
  case (Cons byte data)
  have "unat byte < 256" using unsigned_less [of byte] by simp
  then have digits: "unat byte div 16 < 16" "unat byte mod 16 < 16" by simp_all
  have "(of_nat (16 * (unat byte div 16) + unat byte mod 16) :: u8) = byte"
    by (simp only: mult_div_mod_eq word_of_nat_eq_iff) simp
  with Cons digits show ?case
    by (auto simp: hex_value_digit hex_digit_safe [OF digits(1)] hex_digit_safe [OF digits(2)]
        hex_digit_safe [OF digits(1), symmetric] hex_digit_safe [OF digits(2), symmetric])
qed simp

section \<open>What registration does\<close>

definition registry_ok :: "registry \<Rightarrow> bool" where
  "registry_ok reg \<longleftrightarrow> pm_wf (reg_paths reg) \<and>
     list_all (\<lambda>(path, target). canonical path \<and> tg_path target = path) (reg_paths reg)"

definition insert_targets :: "u64 \<Rightarrow> path list \<Rightarrow> (path \<times> exec_target) list \<Rightarrow> (path \<times> exec_target) list" where
  "insert_targets token = fold (\<lambda>p. pm_insert p \<lparr>tg_token = token, tg_path = p\<rparr>)"

lemma normalize_exec_paths_canonical:
  "normalize_exec_paths paths = Inr ps \<Longrightarrow> list_all canonical ps"
  by (induction paths arbitrary: ps)
    (auto dest: canonical_normalized split: sum.splits if_splits)

lemma get_insert_targets:
  "list_all canonical ps \<Longrightarrow> canonical q \<Longrightarrow>
   pm_get (insert_targets token ps m) q =
     (if q \<in> set ps then Some \<lparr>tg_token = token, tg_path = q\<rparr> else pm_get m q)"
proof (induction ps arbitrary: m)
  case (Cons p ps)
  then have "path_eq p q \<longleftrightarrow> p = q" by (simp add: path_eq_canonical)
  with Cons show ?case by (auto simp: insert_targets_def pm.get_ins)
qed (simp add: insert_targets_def)

lemma install_prefix:
  "install_executables install token ps m s = (r, m', s') \<Longrightarrow>
   \<exists>installed rest. ps = installed @ rest \<and> m' = insert_targets token installed m \<and> (is_ok r \<longleftrightarrow> rest = [])"
proof (induction ps arbitrary: m s)
  case (Cons p ps)
  show ?case
  proof (cases "install p s")
    case (Pair x s1)
    show ?thesis
    proof (cases x)
      case (Inl e)
      with Pair Cons.prems have "m' = insert_targets token [] m" "\<not> is_ok r"
        by (auto simp: insert_targets_def is_ok_def)
      then show ?thesis by (metis append_Nil list.distinct(1))
    next
      case (Inr u)
      with Pair Cons.prems have
        "install_executables install token ps (pm_insert p \<lparr>tg_token = token, tg_path = p\<rparr> m) s1 = (r, m', s')"
        by simp
      from Cons.IH [OF this] obtain installed rest where
        "ps = installed @ rest" "m' = insert_targets token (p # installed) m" "is_ok r \<longleftrightarrow> rest = []"
        by (auto simp: insert_targets_def)
      then show ?thesis by (metis append_Cons)
    qed
  qed
qed (auto simp: insert_targets_def is_ok_def)

lemma check_exec_paths_new:
  "check_exec_paths fs False m ps s = Inr () \<Longrightarrow>
   list_all (\<lambda>p. pm_get m p = None \<and> \<not> is_ok (fs_metadata fs p s)) ps"
  by (induction ps) (auto split: if_splits)

text \<open>The outcome of \<open>register\<close> in terms of the paths whose launcher was written.\<close>

lemma register_outcome:
  assumes "register launcher runtime io fs token paths replace (reg, s) = (r, reg', s')"
  obtains (rejected) e where "r = Inl e" "reg' = reg" "s' = s"
  | (installed) installed rest where "normalize_exec_paths paths = Inr (installed @ rest)"
      "reg' = reg\<lparr>reg_paths := insert_targets token installed (reg_paths reg)\<rparr>" "is_ok r \<longleftrightarrow> rest = []"
      "\<not> reg_poisoned reg" "check_exec_paths fs replace (reg_paths reg) (installed @ rest) s = Inr ()"
proof (cases "\<exists>ps. paths \<noteq> [] \<and> normalize_exec_paths paths = Inr ps \<and> \<not> reg_poisoned reg \<and>
    check_exec_paths fs replace (reg_paths reg) ps s = Inr ()")
  case False
  with assms have "\<exists>e. r = Inl e \<and> reg' = reg \<and> s' = s"
    by (auto simp: register_def dest: sym split: if_splits sum.splits)
  then show ?thesis using rejected by blast
next
  case True
  then obtain ps where ps: "normalize_exec_paths paths = Inr ps" "\<not> reg_poisoned reg"
    "check_exec_paths fs replace (reg_paths reg) ps s = Inr ()" "paths \<noteq> []" by blast
  obtain m' where run: "install_executables (install_executable launcher runtime io fs) token ps (reg_paths reg) s = (r, m', s')"
    and reg': "reg' = reg\<lparr>reg_paths := m'\<rparr>"
    using assms ps by (auto simp: register_def split: prod.splits)
  from install_prefix [OF run] obtain installed rest where
    "ps = installed @ rest" "m' = insert_targets token installed (reg_paths reg)" "is_ok r \<longleftrightarrow> rest = []" by blast
  with ps reg' show ?thesis by (intro installed) auto
qed


lemma canonical_root_targets: "list_all (\<lambda>(path, target). canonical path \<and> tg_path target = path) m \<Longrightarrow>
  list_all canonical ps \<Longrightarrow>
  list_all (\<lambda>(path, target). canonical path \<and> tg_path target = path) (insert_targets token ps m)"
proof (induction ps arbitrary: m)
  case (Cons p ps)
  have "list_all (\<lambda>(path, target). canonical path \<and> tg_path target = path)
      (pm_insert p \<lparr>tg_token = token, tg_path = p\<rparr> m)"
    using Cons.prems
    by (induction m) (auto simp: path_eq_canonical)
  with Cons show ?case by (simp add: insert_targets_def)
qed (simp add: insert_targets_def)

lemma pm_wf_insert_targets: "pm_wf m \<Longrightarrow> pm_wf (insert_targets token ps m)"
  by (induction ps arbitrary: m) (simp_all add: insert_targets_def pm.wf_ins)

lemma register_ok:
  assumes "registry_ok reg" "register launcher runtime io fs token paths replace (reg, s) = (r, reg', s')"
  shows "registry_ok reg'"
  using assms(2)
proof (cases rule: register_outcome)
  case (installed installed rest)
  then have "list_all canonical installed" using normalize_exec_paths_canonical by force
  with installed assms(1) show ?thesis
    by (simp add: registry_ok_def pm_wf_insert_targets canonical_root_targets)
qed (use assms(1) in simp)

lemma list_all_fold_pm_remove: "list_all P m \<Longrightarrow> list_all P (fold pm_remove ps m)"
proof (induction ps arbitrary: m)
  case (Cons p ps)
  then have "list_all P (pm_remove p m)" by (auto simp: pm_remove_def list_all_iff)
  with Cons.IH show ?case by simp
qed simp

lemma unregister_ok:
  assumes "registry_ok reg" "unregister fs token (reg, s) = (r, reg', s')"
  shows "registry_ok reg'"
  using assms
  by (auto simp: unregister_def registry_ok_def Let_def pm.wf_fold_del list_all_fold_pm_remove split: if_splits)

text \<open>
  C32. A successful registration is visible at once and disturbs nothing: every path of the
  registration resolves to its handler under its own normalized name, every other path resolves as
  before, and unless replacement was asked for none of the paths existed in the sandbox or was
  registered before.
\<close>

theorem register_success:
  assumes "register launcher runtime io fs token paths replace (reg, s) = (Inr (), reg', s')"
    "normalize_exec_paths paths = Inr ps" "canonical q"
  shows "resolve_path reg' q =
      (if q \<in> set ps then Inr (Some \<lparr>re_token = token, re_path = q\<rparr>) else resolve_path reg q) \<and>
    (replace \<or> list_all (\<lambda>p. resolve_path reg p = Inr None \<and> \<not> is_ok (fs_metadata fs p s)) ps)"
  using assms(1)
proof (cases rule: register_outcome)
  case (installed installed rest)
  then have "installed = ps" "rest = []" using assms(2) by (auto simp: is_ok_def)
  with installed assms(2,3) normalize_exec_paths_canonical [OF assms(2)] show ?thesis
    by (cases replace)
      (auto simp: resolve_path_def get_insert_targets list_all_iff dest: check_exec_paths_new)
qed simp

text \<open>
  C34. A failed registration may leave paths behind. The paths that resolve to the handler afterwards
  are an initial part of the requested ones, everything else resolves as before, and the first path
  whose launcher could not be written is not registered; the paths before it are.
\<close>

theorem register_failure:
  assumes "register launcher runtime io fs token paths replace (reg, s) = (Inl e, reg', s')"
  shows "reg' = reg \<and> s' = s \<or>
    (\<exists>installed rest. normalize_exec_paths paths = Inr (installed @ rest) \<and> rest \<noteq> [] \<and>
      (\<forall>q. canonical q \<longrightarrow> resolve_path reg' q =
        (if q \<in> set installed then Inr (Some \<lparr>re_token = token, re_path = q\<rparr>) else resolve_path reg q)))"
  using assms
proof (cases rule: register_outcome)
  case (installed installed rest)
  then have "rest \<noteq> []" "list_all canonical installed"
    using normalize_exec_paths_canonical by (force simp: is_ok_def)+
  with installed have "normalize_exec_paths paths = Inr (installed @ rest) \<and> rest \<noteq> [] \<and>
      (\<forall>q. canonical q \<longrightarrow> resolve_path reg' q =
        (if q \<in> set installed then Inr (Some \<lparr>re_token = token, re_path = q\<rparr>) else resolve_path reg q))"
    by (simp add: resolve_path_def get_insert_targets)
  then show ?thesis by blast
qed simp

definition mem_io :: "(mem_state, nat) host_io" where
  "mem_io =
     \<lparr>io_create_dir_all = (\<lambda>p s. case create_directories mem_fs p s of
         (Inl _, s') \<Rightarrow> (Inl BaseNotDirectory, s') | (Inr _, s') \<Rightarrow> (Inr (), s')),
      io_write_all = (\<lambda>f buf s. case mem_write f buf s of
         (Ready (Inr _), s') \<Rightarrow> (Inr (), s') | (_, s') \<Rightarrow> (Inl (ForeignIo 9), s')),
      io_flush = (\<lambda>f s. (Inr (), s)),
      io_read_to_end = (\<lambda>f s. case mem_read f (length (mem_bytes s f)) s of
         (Ready r, s') \<Rightarrow> (r, s') | (_, s') \<Rightarrow> (Inl (ForeignIo 9), s'))\<rparr>"

definition launcher_example :: "string \<Rightarrow> error + bytes" where
  "launcher_example = virtual_executable_wasm ''__VIRTUAL_EXEC_PATH__'' (\<lambda>wat. Inr (into_bytes wat))"

text \<open>Two aliases of which the second lies below the first: the first is installed, the second fails.\<close>

definition partial_registration :: "(error + unit) \<times> registry \<times> mem_state" where
  "partial_registration =
     register launcher_example (Inr ()) mem_io mem_fs 7 [''/bin/tool'', ''/bin/tool/sub''] False
       (registry_new, mem_example)"

lemma partial_registration_fails:
  "\<not> is_ok (fst partial_registration)"
  "resolve_path (fst (snd partial_registration)) ''/bin/tool'' = Inr (Some \<lparr>re_token = 7, re_path = ''/bin/tool''\<rparr>)"
  by code_simp+

theorem register_failure_witness:
  "\<not> is_ok (fst partial_registration) \<and>
   resolve_path (fst (snd partial_registration)) ''/bin/tool'' \<noteq> resolve_path registry_new ''/bin/tool'' \<and>
   (\<exists>installed rest. normalize_exec_paths [''/bin/tool'', ''/bin/tool/sub''] = Inr (installed @ rest) \<and> rest \<noteq> [])"
proof -
  obtain e reg' s' where run: "partial_registration = (Inl e, reg', s')"
    using partial_registration_fails(1) by (auto simp: is_ok_def split: sum.splits) (metis surjective_pairing)
  from register_failure [OF run [unfolded partial_registration_def]]
  have "reg' = registry_new \<or>
      (\<exists>installed rest. normalize_exec_paths [''/bin/tool'', ''/bin/tool/sub''] = Inr (installed @ rest) \<and> rest \<noteq> [])"
    by blast
  moreover have "resolve_path reg' ''/bin/tool'' \<noteq> resolve_path registry_new ''/bin/tool''"
    using partial_registration_fails(2) unfolding run by (auto simp: resolve_path_def registry_new_def)
  ultimately show ?thesis using partial_registration_fails(1) unfolding run by auto
qed

definition registration_example :: "(error + unit) \<times> registry \<times> mem_state" where
  "registration_example =
     register launcher_example (Inr ()) mem_io mem_fs 7 [''/bin/./tool'', ''/opt/x/../tool''] False
       (registry_new, mem_example)"

theorem register_success_witness:
  "resolve_path (fst (snd registration_example)) ''/opt/tool'' = Inr (Some \<lparr>re_token = 7, re_path = ''/opt/tool''\<rparr>)"
proof -
  have "fst registration_example = Inr ()" by code_simp
  then obtain reg' s' where run: "registration_example = (Inr (), reg', s')"
    by (metis surjective_pairing)
  have ps: "normalize_exec_paths [''/bin/./tool'', ''/opt/x/../tool''] = Inr [''/bin/tool'', ''/opt/tool'']"
    by code_simp
  have "canonical ''/opt/tool''"
    by (rule canonical_normalized [of "''/opt/tool''"]) code_simp
  from register_success [OF run [unfolded registration_example_def] ps this] show ?thesis
    unfolding run by simp
qed

section \<open>Removal\<close>

datatype registry_op = Register u64 "string list" bool | Unregister u64

fun registry_step ::
  "(string \<Rightarrow> error + bytes) \<Rightarrow> (error + unit) \<Rightarrow> ('s, 'f) host_io \<Rightarrow> ('s, 'f, 'm) file_system \<Rightarrow>
     registry \<times> 's \<Rightarrow> registry_op \<Rightarrow> registry \<times> 's" where
  "registry_step launcher runtime io fs rs (Register token paths replace) =
     snd (register launcher runtime io fs token paths replace rs)"
| "registry_step launcher runtime io fs rs (Unregister token) = snd (unregister fs token rs)"

interpretation registry: machine "registry_step launcher runtime io fs" "\<lambda>rs. registry_ok (fst rs)"
  for launcher runtime io fs
proof unfold_locales
  fix rs :: "registry \<times> 'a" and x
  assume ok: "registry_ok (fst rs)"
  obtain reg s where rs: "rs = (reg, s)" by fastforce
  show "registry_ok (fst (registry_step launcher runtime io fs rs x))"
  proof (cases x)
    case (Register token paths replace)
    with ok rs register_ok [of reg] show ?thesis
      by (cases "register launcher runtime io fs token paths replace (reg, s)") auto
  next
    case (Unregister token)
    with ok rs unregister_ok [of reg] show ?thesis
      by (cases "unregister fs token (reg, s)") auto
  qed
qed

lemma registry_new_ok: "registry_ok registry_new"
  by (simp add: registry_ok_def registry_new_def pm_wf_def)

lemma get_unregistered:
  assumes "pm_wf m"
  shows "pm_get (fold pm_remove (map fst (filter (\<lambda>(path, target). tg_token target = token) m)) m) q =
    (case pm_get m q of Some t \<Rightarrow> if tg_token t = token then None else Some t | None \<Rightarrow> None)"
proof (cases "\<exists>k t. (k, t) \<in> set m \<and> tg_token t = token \<and> path_eq k q")
  case True
  then obtain k t where kt: "(k, t) \<in> set m" "tg_token t = token" "path_eq k q" by blast
  then have "pm_get m q = Some t" using pm_get_mem [OF assms kt(1)] pm_get_cong [OF kt(3)] by metis
  with kt show ?thesis by (force simp: pm.get_fold_del)
next
  case False
  then have "tg_token t \<noteq> token" if "pm_get m q = Some t" for t
    using pm_get_SomeD [OF that] by blast
  with False show ?thesis by (auto simp: pm.get_fold_del split: option.splits)
qed

text \<open>
  C33. Closing a registration removes exactly its paths. In every state the registry can reach,
  unregistering a handler succeeds, no path resolves to that handler any more, every other path
  resolves as before, and in the sandbox only \<open>remove_file\<close> is called, on paths that resolved to the
  handler.
\<close>

theorem unregister_exact:
  assumes "foldl (registry_step launcher runtime io fs) (registry_new, s) ops = (reg, s1)"
    "\<not> reg_poisoned reg"
  shows "\<exists>reg' paths. unregister fs token (reg, s1) =
      (Inr (), reg', fold (\<lambda>path s. snd (fs_remove_file fs path s)) paths s1) \<and>
    (\<forall>p\<in>set paths. resolve_path reg p = Inr (Some \<lparr>re_token = token, re_path = p\<rparr>)) \<and>
    (\<forall>q. resolve_path reg' q =
      (case resolve_path reg q of
         Inr (Some target) \<Rightarrow> if re_token target = token then Inr None else Inr (Some target)
       | r \<Rightarrow> r))"
proof -
  have ok: "registry_ok reg"
    using registry.run_inv [of "(registry_new, s)" launcher runtime io fs ops] registry_new_ok assms(1) by simp
  let ?paths = "map fst (filter (\<lambda>(path, target). tg_token target = token) (reg_paths reg))"
  let ?reg = "reg\<lparr>reg_paths := fold pm_remove ?paths (reg_paths reg)\<rparr>"
  have "unregister fs token (reg, s1) =
      (Inr (), ?reg, fold (\<lambda>path s. snd (fs_remove_file fs path s)) ?paths s1)"
    using assms(2) by (simp add: unregister_def Let_def)
  moreover have "\<forall>p\<in>set ?paths. resolve_path reg p = Inr (Some \<lparr>re_token = token, re_path = p\<rparr>)"
    using ok assms(2) pm_get_mem by (fastforce simp: registry_ok_def resolve_path_def list_all_iff)
  moreover have "\<forall>q. resolve_path ?reg q =
      (case resolve_path reg q of
         Inr (Some target) \<Rightarrow> if re_token target = token then Inr None else Inr (Some target)
       | r \<Rightarrow> r)"
    using ok assms(2) by (auto simp: registry_ok_def resolve_path_def get_unregistered split: option.splits)
  ultimately show ?thesis by blast
qed

theorem unregister_exact_witness:
  "resolve_path (fst (snd (unregister mem_fs 7 (snd registration_example)))) ''/opt/tool'' = Inr None"
proof -
  have facts: "resolve_path (fst (snd registration_example)) ''/opt/tool'' =
      Inr (Some \<lparr>re_token = 7, re_path = ''/opt/tool''\<rparr>)"
    "\<not> reg_poisoned (fst (snd registration_example))" by code_simp+
  obtain reg s1 where run: "snd registration_example = (reg, s1)" by fastforce
  have "foldl (registry_step launcher_example (Inr ()) mem_io mem_fs) (registry_new, mem_example)
      [Register 7 [''/bin/./tool'', ''/opt/x/../tool''] False] = (reg, s1)"
    using run by (simp add: registration_example_def)
  from unregister_exact [OF this] facts run obtain reg' s' where
    out: "unregister mem_fs 7 (reg, s1) = (Inr (), reg', s')"
    and "resolve_path reg' ''/opt/tool'' =
      (case resolve_path reg ''/opt/tool'' of
         Inr (Some target) \<Rightarrow> if re_token target = 7 then Inr None else Inr (Some target) | r \<Rightarrow> r)"
    by fastforce
  with facts(1) run show ?thesis by simp
qed

section \<open>What guests can reach\<close>

text \<open>
  C8. A guest reaches the host only through a registered path. Whatever bytes it writes to the bridge
  device, if anything on the host side happens at all then the bytes are a well-formed request, its
  normalized executable path is registered, and what reaches the host is the request with exactly the
  handler and the name registered for that path; otherwise the host side is untouched and the guest
  gets an error response.
\<close>

theorem guest_reaches_registered_only:
  "(\<exists>guest path target json response.
      parse_guest_payload b64 payload = Inr guest \<and> normalize_path (gp_executable_path guest) = Inr path \<and>
      resolve_path reg path = Inr (Some target) \<and>
      to_json \<lparr>vp_handler_token = re_token target, vp_executable_path = re_path target,
        vp_argv = gp_argv guest, vp_cwd = gp_cwd guest, vp_env = gp_env guest, vp_stdin = gp_stdin guest\<rparr> = Inr json \<and>
      invoke_guest show_foreign b64 to_json call reg payload e = (response, snd (call json e))) \<or>
    (\<exists>message. invoke_guest show_foreign b64 to_json call reg payload e = (error_response message, e))"
proof (cases "parse_guest_payload b64 payload")
  case (Inr guest)
  show ?thesis
  proof (cases "normalize_path (gp_executable_path guest)")
    case path: (Inr path)
    show ?thesis
    proof (cases "resolve_path reg path")
      case target: (Inr found)
      then show ?thesis
        using Inr path
        by (cases found)
          (auto simp: invoke_guest_def invoke_guest_result_def split: sum.splits prod.splits)
    qed (use Inr path in \<open>auto simp: invoke_guest_def invoke_guest_result_def\<close>)
  qed (use Inr in \<open>auto simp: invoke_guest_def invoke_guest_result_def\<close>)
qed (auto simp: invoke_guest_def invoke_guest_result_def)

section \<open>Searching \<open>PATH\<close>\<close>

definition entry_misses :: "(path \<Rightarrow> error + 'a option) \<Rightarrow> string \<Rightarrow> path \<Rightarrow> string \<Rightarrow> bool" where
  "entry_misses look command cwd directory \<longleftrightarrow>
     (\<exists>candidate. command_path_from_path_entry directory command cwd = Inr candidate \<and> look candidate = Inr None)"

lemma search_path_found:
  "search_path look command cwd directories = Inr (Some target) \<longleftrightarrow>
     until (entry_misses look command cwd)
       (\<lambda>directory rest. \<exists>candidate. command_path_from_path_entry directory command cwd = Inr candidate \<and>
          look candidate = Inr (Some target)) directories"
  by (induction directories) (auto simp: entry_misses_def split: sum.splits option.splits)

lemma search_path_none:
  "search_path look command cwd directories = Inr None \<longleftrightarrow> list_all (entry_misses look command cwd) directories"
  by (induction directories) (auto simp: entry_misses_def split: sum.splits option.splits)

lemma search_path_error:
  "search_path look command cwd directories = Inl e \<longleftrightarrow>
     until (entry_misses look command cwd)
       (\<lambda>directory rest. command_path_from_path_entry directory command cwd = Inl e \<or>
          (\<exists>candidate. command_path_from_path_entry directory command cwd = Inr candidate \<and>
             look candidate = Inl e)) directories"
  by (induction directories) (auto simp: entry_misses_def split: sum.splits option.splits)

lemmas search_path_iff = search_path_found search_path_none search_path_error

end
