(* ===== verification/Catalog.thy ===== *)
theory Catalog
  imports Registry "HOL-Library.Multiset"
begin

text \<open>
  Packages and command resolution of \<open>src/core.rs\<close>: \<open>resolve_package_specs\<close> and its validators,
  \<open>register_package\<close>, \<open>register_command_alias\<close>, \<open>PackageCatalog::load\<close>, \<open>resolve_command\<close>,
  \<open>resolve_path_command\<close>, \<open>injected_packages\<close> and \<open>process_package_files\<close>. Of a \<open>BinaryPackage\<close>,
  which is a type of \<open>wasmer_wasix\<close>, the sources use the names of its commands and its files (\<open>'u\<close>).
\<close>

section \<open>Package specifications\<close>

record command_alias =
  al_alias :: string
  al_command :: string

record package_spec =
  ps_name :: string
  ps_webc_path :: string
  ps_content_sha256 :: string
  ps_command_aliases :: "command_alias list"

record resolved_package_spec =
  rs_name :: string
  rs_webc_path :: path
  rs_command_aliases :: "command_alias list"

definition validate_package_name :: "string \<Rightarrow> error + unit" where
  "validate_package_name name =
     (if name = [] then Inl PackageNameEmpty
      else if NUL \<in> set name then Inl PackageNameNul
      else Inr ())"

definition validate_command_name :: "string \<Rightarrow> string \<Rightarrow> error + unit" where
  "validate_command_name command label =
     (if command = [] then Inl (CommandNameEmpty label)
      else if NUL \<in> set command then Inl (CommandNameNul label)
      else if slash \<in> set command then Inl (CommandNameSlash label)
      else Inr ())"

definition is_ascii_hexdigit :: "char \<Rightarrow> bool" where
  "is_ascii_hexdigit c \<longleftrightarrow>
     (let n = of_char c :: nat in
      48 \<le> n \<and> n \<le> 57 \<or> 65 \<le> n \<and> n \<le> 70 \<or> 97 \<le> n \<and> n \<le> 102)"

definition validate_sha256 :: "string \<Rightarrow> string \<Rightarrow> error + unit" where
  "validate_sha256 digest package_name =
     (if length digest \<noteq> 64 then Inl (Sha256Invalid package_name)
      else if list_all is_ascii_hexdigit digest then Inr ()
      else Inl (Sha256Invalid package_name))"

fun validate_aliases :: "command_alias list \<Rightarrow> error + unit" where
  "validate_aliases [] = Inr ()"
| "validate_aliases (alias # aliases) =
     (case validate_command_name (al_alias alias) ''alias'' of
        Inl e \<Rightarrow> Inl e
      | Inr _ \<Rightarrow>
          (case validate_command_name (al_command alias) ''command'' of
             Inl e \<Rightarrow> Inl e
           | Inr _ \<Rightarrow> validate_aliases aliases))"

fun resolve_specs ::
  "(path \<Rightarrow> error + path) \<Rightarrow> string list \<Rightarrow> package_spec list \<Rightarrow> error + resolved_package_spec list" where
  "resolve_specs canonicalize names [] = Inr []"
| "resolve_specs canonicalize names (package # packages) =
     (case validate_package_name (ps_name package) of
        Inl e \<Rightarrow> Inl e
      | Inr _ \<Rightarrow>
          if ps_name package \<in> set names then Inl (PackageDuplicate (ps_name package))
          else (case validate_sha256 (ps_content_sha256 package) (ps_name package) of
             Inl e \<Rightarrow> Inl e
           | Inr _ \<Rightarrow>
               (case validate_aliases (ps_command_aliases package) of
                  Inl e \<Rightarrow> Inl e
                | Inr _ \<Rightarrow>
                    (case canonicalize (ps_webc_path package) of
                       Inl e \<Rightarrow> Inl (Context (''unable to resolve package '' @ ps_name package) e)
                     | Inr webc_path \<Rightarrow>
                         (case resolve_specs canonicalize (ps_name package # names) packages of
                            Inl e \<Rightarrow> Inl e
                          | Inr resolved \<Rightarrow>
                              Inr (\<lparr>rs_name = ps_name package, rs_webc_path = webc_path,
                                    rs_command_aliases = ps_command_aliases package\<rparr> # resolved))))))"

definition resolve_package_specs ::
  "(path \<Rightarrow> error + path) \<Rightarrow> package_spec list \<Rightarrow> error + resolved_package_spec list" where
  "resolve_package_specs canonicalize packages = resolve_specs canonicalize [] packages"

section \<open>The table of commands\<close>

record command_target =
  ct_package :: string
  ct_command :: string

definition command_path_prefixes :: "path list" where
  "command_path_prefixes = [''/bin'', ''/usr/bin'']"

fun register_alias_at ::
  "path list \<Rightarrow> string \<Rightarrow> command_target \<Rightarrow> (path \<times> command_target) list \<Rightarrow>
     (error + unit) \<times> (path \<times> command_target) list" where
  "register_alias_at [] alias target command_paths = (Inr (), command_paths)"
| "register_alias_at (prefix # prefixes) alias target command_paths =
     (let path = path_push prefix alias in
      case pm_get command_paths path of
        Some existing \<Rightarrow>
          if ct_package existing = ct_package target \<and> ct_command existing = ct_command target
          then register_alias_at prefixes alias target command_paths
          else (Inl (CommandCollision path (ct_command target) (ct_package target)
                  (ct_command existing) (ct_package existing)), command_paths)
      | None \<Rightarrow> register_alias_at prefixes alias target (pm_insert path target command_paths))"

definition register_command_alias ::
  "string \<Rightarrow> string \<Rightarrow> string \<Rightarrow> (path \<times> command_target) list \<Rightarrow> (error + unit) \<times> (path \<times> command_target) list" where
  "register_command_alias alias package command command_paths =
     register_alias_at command_path_prefixes alias \<lparr>ct_package = package, ct_command = command\<rparr> command_paths"

text \<open>Both loops over a package's commands: \<open>register_package\<close> and the aliases of its specification.\<close>

fun register_aliases ::
  "(string \<times> string) list \<Rightarrow> string \<Rightarrow> (path \<times> command_target) list \<Rightarrow> (error + unit) \<times> (path \<times> command_target) list" where
  "register_aliases [] package command_paths = (Inr (), command_paths)"
| "register_aliases ((alias, command) # rest) package command_paths =
     (case register_command_alias alias package command command_paths of
        (Inl e, command_paths') \<Rightarrow> (Inl e, command_paths')
      | (Inr _, command_paths') \<Rightarrow> register_aliases rest package command_paths')"

record 'u binary_package =
  bp_commands :: "string list"
  bp_webc_fs :: "'u option"

definition register_package ::
  "string \<Rightarrow> 'u binary_package \<Rightarrow> (path \<times> command_target) list \<Rightarrow> (error + unit) \<times> (path \<times> command_target) list" where
  "register_package name package command_paths =
     register_aliases (map (\<lambda>command. (command, command)) (bp_commands package)) name command_paths"

record 'u catalog =
  cat_packages :: "(string \<times> 'u binary_package) list"
  cat_command_paths :: "(path \<times> command_target) list"

fun load_packages ::
  "(path \<Rightarrow> error + 'u binary_package) \<Rightarrow> resolved_package_spec list \<Rightarrow> 'u catalog \<Rightarrow> error + 'u catalog" where
  "load_packages load_package [] cat = Inr cat"
| "load_packages load_package (spec # specs) cat =
     (case load_package (rs_webc_path spec) of
        Inl e \<Rightarrow> Inl e
      | Inr package \<Rightarrow>
          (case register_package (rs_name spec) package (cat_command_paths cat) of
             (Inl e, _) \<Rightarrow> Inl e
           | (Inr _, command_paths1) \<Rightarrow>
               (case register_aliases (map (\<lambda>alias. (al_alias alias, al_command alias)) (rs_command_aliases spec))
                       (rs_name spec) command_paths1 of
                  (Inl e, _) \<Rightarrow> Inl e
                | (Inr _, command_paths2) \<Rightarrow>
                    load_packages load_package specs
                      \<lparr>cat_packages = AList.update (rs_name spec) package (cat_packages cat),
                       cat_command_paths = command_paths2\<rparr>)))"

text \<open>
  \<open>PackageCatalog::load\<close>: \<open>runtime\<close> is the outcome of building the \<open>tokio\<close> runtime, \<open>source\<close> that of
  \<open>package_source\<close> and \<open>load_package\<close> reads one package file.
\<close>

definition catalog_load ::
  "(error + unit) \<Rightarrow> (resolved_package_spec list \<Rightarrow> error + unit) \<Rightarrow> (path \<Rightarrow> error + 'u binary_package) \<Rightarrow>
     resolved_package_spec list \<Rightarrow> error + 'u catalog" where
  "catalog_load runtime source load_package specs =
     (case runtime of
        Inl e \<Rightarrow> Inl (Context ''unable to create Wasmer runtime'' e)
      | Inr _ \<Rightarrow>
          (case source specs of
             Inl e \<Rightarrow> Inl e
           | Inr _ \<Rightarrow> load_packages load_package specs \<lparr>cat_packages = [], cat_command_paths = []\<rparr>))"

definition catalog_for ::
  "(path \<Rightarrow> error + path) \<Rightarrow> (error + unit) \<Rightarrow> (resolved_package_spec list \<Rightarrow> error + unit) \<Rightarrow>
     (path \<Rightarrow> error + 'u binary_package) \<Rightarrow> package_spec list \<Rightarrow> error + 'u catalog" where
  "catalog_for canonicalize runtime source load_package packages =
     (case resolve_package_specs canonicalize packages of
        Inl e \<Rightarrow> Inl e
      | Inr specs \<Rightarrow> catalog_load runtime source load_package specs)"

section \<open>Resolving a command\<close>

datatype resolved_command = Package command_target | Virtual resolved_executable

definition resolve_path_command ::
  "'u catalog \<Rightarrow> string \<Rightarrow> path \<Rightarrow> string option \<Rightarrow> error + command_target option" where
  "resolve_path_command cat command cwd path_env =
     search_path (\<lambda>candidate. Inr (pm_get (cat_command_paths cat) candidate)) command cwd (path_entries path_env)"

definition resolve_command ::
  "'u catalog \<Rightarrow> registry \<Rightarrow> string \<Rightarrow> path \<Rightarrow> string option \<Rightarrow> error + resolved_command" where
  "resolve_command cat reg command cwd path_env =
     (if NUL \<in> set command then Inl CommandNul
      else if command = [] then Inl CommandEmpty
      else case resolve_virtual_command reg command cwd path_env of
        Inl e \<Rightarrow> Inl e
      | Inr (Some target) \<Rightarrow> Inr (Virtual target)
      | Inr None \<Rightarrow>
          if slash \<in> set command then
            (case normalize_command_path command cwd of
               Inl e \<Rightarrow> Inl e
             | Inr path \<Rightarrow>
                 (case pm_get (cat_command_paths cat) path of
                    Some target \<Rightarrow> Inr (Package target)
                  | None \<Rightarrow> Inl (CommandNotFound command)))
          else
            (case resolve_path_command cat command cwd path_env of
               Inl e \<Rightarrow> Inl e
             | Inr (Some target) \<Rightarrow> Inr (Package target)
             | Inr None \<Rightarrow> Inl (CommandNotFound command)))"

definition injected_packages :: "'u catalog \<Rightarrow> string \<Rightarrow> 'u binary_package list" where
  "injected_packages cat target_package =
     map snd (filter (\<lambda>(name, package). name \<noteq> target_package) (cat_packages cat))"

text \<open>\<open>merge\<close> and \<open>duplicate\<close> are methods of \<open>UnionFileSystem\<close>.\<close>

fun merge_injected ::
  "('u \<Rightarrow> 'u \<Rightarrow> error + 'u) \<Rightarrow> ('u \<Rightarrow> 'u) \<Rightarrow> 'u binary_package list \<Rightarrow> 'u option \<Rightarrow> error + 'u option" where
  "merge_injected merge duplicate [] package_files = Inr package_files"
| "merge_injected merge duplicate (injected_package # rest) package_files =
     (case bp_webc_fs injected_package of
        None \<Rightarrow> merge_injected merge duplicate rest package_files
      | Some injected_files \<Rightarrow>
          (case package_files of
             Some files \<Rightarrow>
               (case merge files injected_files of
                  Inl e \<Rightarrow> Inl e
                | Inr files' \<Rightarrow> merge_injected merge duplicate rest (Some files'))
           | None \<Rightarrow> merge_injected merge duplicate rest (Some (duplicate injected_files))))"

definition process_package_files ::
  "('u \<Rightarrow> 'u \<Rightarrow> error + 'u) \<Rightarrow> ('u \<Rightarrow> 'u) \<Rightarrow> 'u binary_package \<Rightarrow> 'u binary_package list \<Rightarrow> error + 'u option" where
  "process_package_files merge duplicate package injected =
     merge_injected merge duplicate injected (map_option duplicate (bp_webc_fs package))"

section \<open>Commands are never overwritten\<close>

definition keeps_targets :: "(path \<times> 'v) list \<Rightarrow> (path \<times> 'v) list \<Rightarrow> bool" where
  "keeps_targets m m' \<longleftrightarrow> (\<forall>q target. pm_get m q = Some target \<longrightarrow> pm_get m' q = Some target)"

lemma keeps_targets_refl [simp]: "keeps_targets m m"
  by (simp add: keeps_targets_def)

lemma keeps_targets_trans: "keeps_targets a b \<Longrightarrow> keeps_targets b c \<Longrightarrow> keeps_targets a c"
  by (simp add: keeps_targets_def)

lemma keeps_targets_insert: "pm_get m p = None \<Longrightarrow> keeps_targets m (pm_insert p v m)"
  unfolding keeps_targets_def pm.get_ins using pm_get_cong by (metis option.distinct(1))

lemma register_alias_at_keeps: "keeps_targets m (snd (register_alias_at prefixes alias target m))"
proof (induction prefixes arbitrary: m)
  case (Cons prefix prefixes)
  then show ?case
    by (auto simp: Let_def split: option.splits intro: keeps_targets_trans [OF keeps_targets_insert])
qed simp

lemma register_alias_at_ok:
  "register_alias_at prefixes alias target m = (Inr (), m') \<Longrightarrow>
   \<forall>prefix\<in>set prefixes. pm_get m' (path_push prefix alias) = Some target"
proof (induction prefixes arbitrary: m)
  case (Cons prefix prefixes)
  show ?case
  proof (cases "pm_get m (path_push prefix alias)")
    case None
    with Cons.prems have run: "register_alias_at prefixes alias target (pm_insert (path_push prefix alias) target m) = (Inr (), m')"
      by (simp add: Let_def)
    then have "pm_get m' (path_push prefix alias) = Some target"
      using register_alias_at_keeps [of "pm_insert (path_push prefix alias) target m" prefixes "alias" target]
      by (simp add: keeps_targets_def pm.get_ins)
    with Cons.IH [OF run] show ?thesis by simp
  next
    case (Some existing)
    with Cons.prems have eq: "existing = target" and run: "register_alias_at prefixes alias target m = (Inr (), m')"
      by (auto simp: Let_def split: if_splits intro: command_target.equality)
    have "pm_get m' (path_push prefix alias) = Some target"
      using register_alias_at_keeps [of m prefixes "alias" target] run Some eq by (simp add: keeps_targets_def)
    with Cons.IH [OF run] show ?thesis by simp
  qed
qed simp

text \<open>The table offers a command of a package under a name in every command directory.\<close>

definition offers :: "(path \<times> command_target) list \<Rightarrow> string \<Rightarrow> string \<Rightarrow> string \<Rightarrow> bool" where
  "offers m alias package command \<longleftrightarrow>
     list_all (\<lambda>prefix. pm_get m (path_push prefix alias) = Some \<lparr>ct_package = package, ct_command = command\<rparr>)
       command_path_prefixes"

lemma offers_keeps: "offers m alias package command \<Longrightarrow> keeps_targets m m' \<Longrightarrow> offers m' alias package command"
  by (auto simp: offers_def keeps_targets_def list_all_iff)

lemma register_aliases_keeps: "keeps_targets m (snd (register_aliases pairs package m))"
proof (induction pairs package m rule: register_aliases.induct)
  case (2 alias_name command rest package m)
  have "keeps_targets m (snd (register_command_alias alias_name package command m))"
    by (simp add: register_command_alias_def register_alias_at_keeps)
  with 2 show ?case
    by (auto simp: split: prod.splits sum.splits intro: keeps_targets_trans)
qed simp

lemma register_aliases_ok:
  "register_aliases pairs package m = (Inr (), m') \<Longrightarrow>
   list_all (\<lambda>(alias, command). offers m' alias package command) pairs"
proof (induction pairs package m rule: register_aliases.induct)
  case (2 alias_name command rest package m)
  then obtain m1 where one: "register_command_alias alias_name package command m = (Inr (), m1)"
    and run: "register_aliases rest package m1 = (Inr (), m')"
    by (auto split: prod.splits sum.splits)
  then have "offers m1 alias_name package command"
    using register_alias_at_ok by (fastforce simp: register_command_alias_def offers_def list_all_iff)
  then have "offers m' alias_name package command"
    using register_aliases_keeps [of m1 rest package] run by (simp add: offers_keeps)
  with 2 one run show ?case by simp
qed simp

lemma load_packages_keeps:
  "load_packages load_package specs cat = Inr cat' \<Longrightarrow>
   keeps_targets (cat_command_paths cat) (cat_command_paths cat')"
proof (induction load_package specs cat rule: load_packages.induct)
  case (2 load_package spec specs cat)
  from "2.prems" obtain package m1 m2 where steps: "load_package (rs_webc_path spec) = Inr package"
    "register_package (rs_name spec) package (cat_command_paths cat) = (Inr (), m1)"
    "register_aliases (map (\<lambda>alias. (al_alias alias, al_command alias)) (rs_command_aliases spec)) (rs_name spec) m1 = (Inr (), m2)"
    by (auto split: sum.splits prod.splits)
  have "keeps_targets (cat_command_paths cat) m1" "keeps_targets m1 m2"
    using register_aliases_keeps [of "cat_command_paths cat" _ "rs_name spec"] register_aliases_keeps [of m1 _ "rs_name spec"]
      steps(2,3) by (metis register_package_def snd_conv)+
  moreover have "keeps_targets m2 (cat_command_paths cat')"
    using 2 steps by simp
  ultimately show ?case by (blast intro: keeps_targets_trans)
qed simp

lemma load_packages_offers:
  assumes "load_packages load_package specs cat = Inr cat'" "spec \<in> set specs"
  shows "\<exists>package. load_package (rs_webc_path spec) = Inr package \<and>
    list_all (\<lambda>command. offers (cat_command_paths cat') command (rs_name spec) command) (bp_commands package) \<and>
    list_all (\<lambda>alias. offers (cat_command_paths cat') (al_alias alias) (rs_name spec) (al_command alias))
      (rs_command_aliases spec)"
  using assms
proof (induction load_package specs cat rule: load_packages.induct)
  case (2 load_package first specs cat)
  from "2.prems"(1) obtain package m1 m2 where steps: "load_package (rs_webc_path first) = Inr package"
    "register_package (rs_name first) package (cat_command_paths cat) = (Inr (), m1)"
    "register_aliases (map (\<lambda>alias. (al_alias alias, al_command alias)) (rs_command_aliases first)) (rs_name first) m1 = (Inr (), m2)"
    and rest: "load_packages load_package specs
      \<lparr>cat_packages = AList.update (rs_name first) package (cat_packages cat), cat_command_paths = m2\<rparr> = Inr cat'"
    by (auto split: sum.splits prod.splits)
  show ?case
  proof (cases "spec = first")
    case True
    have later: "keeps_targets m1 m2" "keeps_targets m2 (cat_command_paths cat')"
      using register_aliases_keeps [of m1 _ "rs_name first"] steps(3) load_packages_keeps [OF rest]
      by (metis snd_conv, simp)
    have "list_all (\<lambda>command. offers m1 command (rs_name first) command) (bp_commands package)"
      "list_all (\<lambda>alias. offers m2 (al_alias alias) (rs_name first) (al_command alias)) (rs_command_aliases first)"
      using register_aliases_ok [OF steps(2) [unfolded register_package_def]] register_aliases_ok [OF steps(3)]
      by (simp_all add: list_all_iff)
    with later True steps(1) show ?thesis
      by (auto simp: list_all_iff intro: offers_keeps keeps_targets_trans)
  next
    case False
    with 2 steps rest show ?thesis by simp
  qed
qed simp

text \<open>
  C19. Every command of an image is reachable under its name. If a catalog loads, then for every
  package, every command the package has and every alias of its specification is found in \<open>/bin\<close> and
  in \<open>/usr/bin\<close> and leads to exactly that command of that package, whatever packages follow.
\<close>

theorem catalog_offers_every_command:
  assumes "catalog_load runtime source load_package specs = Inr cat" "spec \<in> set specs"
  shows "\<exists>package. load_package (rs_webc_path spec) = Inr package \<and>
    list_all (\<lambda>command. offers (cat_command_paths cat) command (rs_name spec) command) (bp_commands package) \<and>
    list_all (\<lambda>alias. offers (cat_command_paths cat) (al_alias alias) (rs_name spec) (al_command alias))
      (rs_command_aliases spec)"
  using assms by (auto simp: catalog_load_def split: sum.splits intro: load_packages_offers)

definition spec_example :: "string \<Rightarrow> resolved_package_spec" where
  "spec_example name = \<lparr>rs_name = name, rs_webc_path = ''/'' @ name,
     rs_command_aliases = [\<lparr>al_alias = name @ ''3'', al_command = name\<rparr>]\<rparr>"

definition load_example :: "path \<Rightarrow> error + unit binary_package" where
  "load_example path = Inr \<lparr>bp_commands = [tl path, tl path @ ''-config''], bp_webc_fs = None\<rparr>"

theorem catalog_offers_every_command_witness:
  "\<exists>cat. catalog_load (Inr ()) (\<lambda>_. Inr ()) load_example [spec_example ''python'', spec_example ''perl''] = Inr cat \<and>
     offers (cat_command_paths cat) ''python3'' ''python'' ''python''"
proof -
  have "is_ok (catalog_load (Inr ()) (\<lambda>_. Inr ()) load_example [spec_example ''python'', spec_example ''perl''])"
    by code_simp
  then obtain cat where
    run: "catalog_load (Inr ()) (\<lambda>_. Inr ()) load_example [spec_example ''python'', spec_example ''perl''] = Inr cat"
    by (auto simp: is_ok_def split: sum.splits)
  from catalog_offers_every_command [OF run, of "spec_example ''python''"] run show ?thesis
    by (auto simp: spec_example_def)
qed

lemma offers_unique: "offers m name p c \<Longrightarrow> offers m name p' c' \<Longrightarrow> p = p' \<and> c = c'"
  by (simp add: offers_def command_path_prefixes_def)

lemma resolve_specs_names:
  "resolve_specs canonicalize names packages = Inr specs \<Longrightarrow>
   distinct (map rs_name specs) \<and> set (map rs_name specs) \<inter> set names = {}"
proof (induction packages arbitrary: names specs)
  case (Cons package packages)
  then obtain rest spec where "resolve_specs canonicalize (ps_name package # names) packages = Inr rest"
    "specs = spec # rest" "rs_name spec = ps_name package" "ps_name package \<notin> set names"
    by (auto split: sum.splits if_splits)
  with Cons.IH [of "ps_name package # names" rest] show ?case by auto
qed simp

text \<open>
  C20. Colliding images are refused. If two different packages of an image both have a command of the
  same name, the catalog does not load, in whatever order the packages are given.
\<close>

theorem command_collision_refused:
  assumes "resolve_package_specs canonicalize packages = Inr specs"
    "i < length specs" "j < length specs" "i \<noteq> j"
    "load_package (rs_webc_path (specs ! i)) = Inr p" "load_package (rs_webc_path (specs ! j)) = Inr q"
    "name \<in> set (bp_commands p)" "name \<in> set (bp_commands q)"
  shows "\<exists>e. catalog_for canonicalize runtime source load_package packages = Inl e"
proof (rule ccontr)
  assume "\<not> ?thesis"
  then obtain cat where "catalog_load runtime source load_package specs = Inr cat"
    using assms(1) by (cases "catalog_load runtime source load_package specs") (auto simp: catalog_for_def)
  then have run: "load_packages load_package specs \<lparr>cat_packages = [], cat_command_paths = []\<rparr> = Inr cat"
    by (auto simp: catalog_load_def split: sum.splits)
  have "offers (cat_command_paths cat) name (rs_name (specs ! i)) name"
    "offers (cat_command_paths cat) name (rs_name (specs ! j)) name"
    using load_packages_offers [OF run nth_mem [OF assms(2)]] load_packages_offers [OF run nth_mem [OF assms(3)]] assms(5-8)
    by (auto simp: list_all_iff)
  then have "rs_name (specs ! i) = rs_name (specs ! j)" using offers_unique by blast
  moreover have "distinct (map rs_name specs)"
    using resolve_specs_names assms(1) by (auto simp: resolve_package_specs_def)
  ultimately show False
    using assms(2-4) nth_eq_iff_index_eq [of "map rs_name specs" i j] by simp
qed

definition package_example :: "string \<Rightarrow> package_spec" where
  "package_example name = \<lparr>ps_name = name, ps_webc_path = name, ps_content_sha256 = replicate 64 CHR ''0'',
     ps_command_aliases = []\<rparr>"

theorem command_collision_refused_witness:
  "\<exists>e. catalog_for Inr (Inr ()) (\<lambda>_. Inr ())
     (\<lambda>path. Inr \<lparr>bp_commands = [path, ''ls''], bp_webc_fs = None :: unit option\<rparr>)
     [package_example ''coreutils'', package_example ''busybox''] = Inl e"
proof -
  let ?specs = "[\<lparr>rs_name = ''coreutils'', rs_webc_path = ''coreutils'', rs_command_aliases = []\<rparr>,
    \<lparr>rs_name = ''busybox'', rs_webc_path = ''busybox'', rs_command_aliases = []\<rparr>]"
  have "resolve_package_specs Inr [package_example ''coreutils'', package_example ''busybox''] = Inr ?specs"
    by code_simp
  then show ?thesis
    by (rule command_collision_refused [where i = 0 and j = 1 and name = "''ls''" and
        p = "\<lparr>bp_commands = [''coreutils'', ''ls''], bp_webc_fs = None\<rparr>" and
        q = "\<lparr>bp_commands = [''busybox'', ''ls''], bp_webc_fs = None\<rparr>"]) simp_all
qed

section \<open>What a command name means\<close>

definition entry_hits :: "(path \<Rightarrow> error + 'a option) \<Rightarrow> string \<Rightarrow> path \<Rightarrow> 'a \<Rightarrow> string \<Rightarrow> bool" where
  "entry_hits look command cwd target directory \<longleftrightarrow>
     (\<exists>candidate. command_path_from_path_entry directory command cwd = Inr candidate \<and>
        look candidate = Inr (Some target))"

text \<open>
  C18. How a plain command name is resolved: it denotes a virtual executable exactly if some entry of
  \<open>PATH\<close> leads to a registered path and no earlier entry is unusable, and it denotes a package command
  exactly if all entries are usable, none leads to a registered path and some entry leads to a path
  of the command table, the first such entry deciding. A virtual executable therefore wins over a
  package command even when the package's directory comes first in \<open>PATH\<close>.
\<close>

theorem plain_command_resolution:
  assumes "command \<noteq> []" "NUL \<notin> set command" "slash \<notin> set command"
  shows "(resolve_command cat reg command cwd path_env = Inr (Virtual v) \<longleftrightarrow>
      until (entry_misses (resolve_path reg) command cwd)
        (\<lambda>directory rest. entry_hits (resolve_path reg) command cwd v directory) (path_entries path_env)) \<and>
    (resolve_command cat reg command cwd path_env = Inr (Package c) \<longleftrightarrow>
      list_all (entry_misses (resolve_path reg) command cwd) (path_entries path_env) \<and>
      until (entry_misses (\<lambda>path. Inr (pm_get (cat_command_paths cat) path)) command cwd)
        (\<lambda>directory rest. entry_hits (\<lambda>path. Inr (pm_get (cat_command_paths cat) path)) command cwd c directory)
        (path_entries path_env))"
  using assms
  unfolding entry_hits_def search_path_found [symmetric] search_path_none [symmetric]
  by (auto simp: resolve_command_def resolve_virtual_command_def resolve_path_command_def
      split: sum.splits option.splits)

definition catalog_example :: "unit catalog" where
  "catalog_example = \<lparr>cat_packages = [],
     cat_command_paths = [(''/bin/tool'', \<lparr>ct_package = ''p'', ct_command = ''tool''\<rparr>)]\<rparr>"

definition registry_example :: registry where
  "registry_example = \<lparr>reg_poisoned = False, reg_paths = [(''/opt/tool'', \<lparr>tg_token = 7, tg_path = ''/opt/tool''\<rparr>)]\<rparr>"

theorem plain_command_resolution_witness:
  "resolve_command catalog_example registry_example ''tool'' ''/'' (Some ''/bin:/opt'') =
     Inr (Virtual \<lparr>re_token = 7, re_path = ''/opt/tool''\<rparr>)"
proof -
  have entry: "command_path_from_path_entry ''/bin'' ''tool'' ''/'' = Inr ''/bin/tool''"
    "command_path_from_path_entry ''/opt'' ''tool'' ''/'' = Inr ''/opt/tool''"
    "path_entries (Some ''/bin:/opt'') = [''/bin'', ''/opt'']"
    "resolve_path registry_example ''/bin/tool'' = Inr None"
    "resolve_path registry_example ''/opt/tool'' = Inr (Some \<lparr>re_token = 7, re_path = ''/opt/tool''\<rparr>)"
    by code_simp+
  then show ?thesis
    by (subst plain_command_resolution [THEN conjunct1]) (simp_all add: entry_misses_def entry_hits_def)
qed

text \<open>
  A command that contains a slash means exactly that path: it resolves to what is registered or
  installed at its normalized path, seen from the working directory, and to nothing else; \<open>PATH\<close> and
  the last component of the command play no role.
\<close>

theorem path_command_resolution:
  assumes "slash \<in> set command" "NUL \<notin> set command" "\<not> reg_poisoned reg"
  shows "(resolve_command cat reg command cwd path_env = Inr (Virtual v) \<longleftrightarrow>
      (\<exists>path. normalize_command_path command cwd = Inr path \<and> resolve_path reg path = Inr (Some v))) \<and>
    (resolve_command cat reg command cwd path_env = Inr (Package c) \<longleftrightarrow>
      (\<exists>path. normalize_command_path command cwd = Inr path \<and> resolve_path reg path = Inr None \<and>
        pm_get (cat_command_paths cat) path = Some c))"
  using assms
  by (auto simp: resolve_command_def resolve_virtual_command_def split: sum.splits option.splits)

theorem path_command_resolution_witness:
  "resolve_command catalog_example registry_example ''../bin/tool'' ''/work'' (Some ''/opt'') =
     Inr (Package \<lparr>ct_package = ''p'', ct_command = ''tool''\<rparr>)"
proof -
  have "normalize_command_path ''../bin/tool'' ''/work'' = Inr ''/bin/tool''"
    "resolve_path registry_example ''/bin/tool'' = Inr None"
    "pm_get (cat_command_paths catalog_example) ''/bin/tool'' = Some \<lparr>ct_package = ''p'', ct_command = ''tool''\<rparr>"
    "\<not> reg_poisoned registry_example" by code_simp+
  then show ?thesis
    by (subst path_command_resolution [THEN conjunct2]) simp_all
qed

section \<open>The package files of a process\<close>

text \<open>
  The specification of \<open>process_package_files\<close>: a list of file systems is combined by duplicating the
  first and merging each further one into the result; the first error ends it. Nothing is assumed of
  \<open>merge\<close> and \<open>duplicate\<close>.
\<close>

fun merge_files :: "('u \<Rightarrow> 'u \<Rightarrow> error + 'u) \<Rightarrow> 'u \<Rightarrow> 'u list \<Rightarrow> error + 'u" where
  "merge_files merge files [] = Inr files"
| "merge_files merge files (u # us) =
     (case merge files u of Inl e \<Rightarrow> Inl e | Inr files' \<Rightarrow> merge_files merge files' us)"

fun merge_in_order :: "('u \<Rightarrow> 'u \<Rightarrow> error + 'u) \<Rightarrow> ('u \<Rightarrow> 'u) \<Rightarrow> 'u list \<Rightarrow> error + 'u option" where
  "merge_in_order merge duplicate [] = Inr None"
| "merge_in_order merge duplicate (u # us) = map_sum id Some (merge_files merge (duplicate u) us)"

lemma map_filter_Cons:
  "List.map_filter f (x # xs) = (case f x of Some y \<Rightarrow> y # List.map_filter f xs | None \<Rightarrow> List.map_filter f xs)"
  by (simp add: List.map_filter_def split: option.split)

lemma merge_injected_some:
  "merge_injected merge duplicate injected (Some files) =
     map_sum id Some (merge_files merge files (List.map_filter bp_webc_fs injected))"
proof (induction injected arbitrary: files)
  case (Cons package injected)
  then show ?case by (simp add: map_filter_Cons split: option.split sum.split)
qed (simp add: List.map_filter_def)

lemma merge_injected_none:
  "merge_injected merge duplicate injected None =
     merge_in_order merge duplicate (List.map_filter bp_webc_fs injected)"
  by (induction injected) (auto simp: List.map_filter_def map_filter_Cons merge_injected_some split: option.split)

lemma process_files_in_order:
  "process_package_files merge duplicate package injected =
     merge_in_order merge duplicate (List.map_filter bp_webc_fs (package # injected))"
  by (cases "bp_webc_fs package")
    (simp_all add: process_package_files_def map_filter_Cons merge_injected_none merge_injected_some)

lemma update_fresh: "k \<notin> fst ` set al \<Longrightarrow> AList.update k v al = al @ [(k, v)]"
  by (induction al) auto

text \<open>The entry of a loaded package in the table of the catalog.\<close>

definition loaded_entry ::
  "(path \<Rightarrow> error + 'u binary_package) \<Rightarrow> resolved_package_spec \<Rightarrow> string \<times> 'u binary_package" where
  "loaded_entry load_package spec = (rs_name spec, projr (load_package (rs_webc_path spec)))"

lemma load_packages_entries:
  assumes "load_packages load_package specs cat = Inr cat'" "distinct (map rs_name specs)"
    "fst ` set (cat_packages cat) \<inter> rs_name ` set specs = {}"
  shows "cat_packages cat' = cat_packages cat @ map (loaded_entry load_package) specs"
  using assms
proof (induction specs arbitrary: cat)
  case (Cons spec specs)
  then obtain package m where load: "load_package (rs_webc_path spec) = Inr package"
    and rest: "load_packages load_package specs
      \<lparr>cat_packages = AList.update (rs_name spec) package (cat_packages cat), cat_command_paths = m\<rparr> = Inr cat'"
    by (auto split: sum.splits prod.splits)
  have "AList.update (rs_name spec) package (cat_packages cat) = cat_packages cat @ [loaded_entry load_package spec]"
    using Cons.prems(3) load by (simp add: update_fresh loaded_entry_def)
  with Cons.IH [OF rest] Cons.prems show ?case by (auto simp: loaded_entry_def)
qed simp

lemma mset_map_order: "mset ys = mset (map g xs) \<Longrightarrow> \<exists>zs. mset zs = mset xs \<and> ys = map g zs"
proof (induction ys arbitrary: xs)
  case (Cons y ys)
  then have "y \<in> set (map g xs)" by (metis list.set_intros(1) mset_eq_setD)
  then obtain us x vs where xs: "xs = us @ x # vs" "y = g x" by (auto dest: split_list)
  with Cons.prems have "mset ys = mset (map g (us @ vs))" by simp
  from Cons.IH [OF this] obtain zs where "mset zs = mset (us @ vs)" "ys = map g zs" by blast
  with xs show ?case by (intro exI [of _ "x # zs"]) simp
qed simp

lemma injected_entries:
  "injected_packages (cat\<lparr>cat_packages := map (loaded_entry load_package) specs\<rparr>) name =
     map (\<lambda>spec. projr (load_package (rs_webc_path spec))) (filter (\<lambda>spec. rs_name spec \<noteq> name) specs)"
  by (induction specs) (simp_all add: injected_packages_def loaded_entry_def)

text \<open>
  C39. A process gets the files of its own package first and those of every other package of the image
  exactly once. For a catalog that loaded, and in whatever order the hash map of packages is iterated, the
  package files of a process are those of the package that is run, if it has any, merged one after the
  other with the files of the other packages that have some, each package of the image once and none
  left out, in some order; the first merge that fails ends it with its error. The order among the other
  packages is the iteration order.
\<close>

theorem package_files_merged:
  assumes "resolve_package_specs canonicalize packages = Inr specs"
    "catalog_for canonicalize runtime source load_package packages = Inr cat"
    "mset iteration = mset (cat_packages cat)"
  shows "\<exists>order. mset order = mset (filter (\<lambda>spec. rs_name spec \<noteq> name) specs) \<and>
    process_package_files merge duplicate package (injected_packages (cat\<lparr>cat_packages := iteration\<rparr>) name) =
      merge_in_order merge duplicate (List.map_filter bp_webc_fs
        (package # map (\<lambda>spec. projr (load_package (rs_webc_path spec))) order))"
proof -
  have "load_packages load_package specs \<lparr>cat_packages = [], cat_command_paths = []\<rparr> = Inr cat"
    using assms(1,2) by (auto simp: catalog_for_def catalog_load_def split: sum.splits)
  moreover have "distinct (map rs_name specs)"
    using resolve_specs_names assms(1) by (auto simp: resolve_package_specs_def)
  ultimately have "cat_packages cat = map (loaded_entry load_package) specs"
    by (simp add: load_packages_entries)
  with assms(3) obtain order where order: "mset order = mset specs" "iteration = map (loaded_entry load_package) order"
    using mset_map_order by metis
  from order(1) have "mset (filter (\<lambda>spec. rs_name spec \<noteq> name) order) = mset (filter (\<lambda>spec. rs_name spec \<noteq> name) specs)"
    by simp
  then show ?thesis
    unfolding order(2) injected_entries process_files_in_order by blast
qed

text \<open>Three packages, the map iterated backwards; merging is recorded as concatenation.\<close>

definition files_example :: "path \<Rightarrow> error + string list binary_package" where
  "files_example path = Inr \<lparr>bp_commands = [path], bp_webc_fs = if path = ''b'' then None else Some [path]\<rparr>"

definition files_catalog :: "error + string list catalog" where
  "files_catalog = catalog_for Inr (Inr ()) (\<lambda>_. Inr ()) files_example
     [package_example ''a'', package_example ''b'', package_example ''c'']"

theorem package_files_merged_witness:
  "\<exists>cat order. files_catalog = Inr cat \<and> mset order = mset [''b'', ''c''] \<and>
     process_package_files (\<lambda>u v. Inr (u @ v)) id \<lparr>bp_commands = [], bp_webc_fs = Some [''a'']\<rparr>
       (injected_packages (cat\<lparr>cat_packages := rev (cat_packages cat)\<rparr>) ''a'') =
     merge_in_order (\<lambda>u v. Inr (u @ v)) id (List.map_filter bp_webc_fs
       (\<lparr>bp_commands = [], bp_webc_fs = Some [''a'']\<rparr> # map (\<lambda>name. projr (files_example name)) order))"
proof -
  let ?specs = "map (\<lambda>name. \<lparr>rs_name = name, rs_webc_path = name, rs_command_aliases = []\<rparr>) [''a'', ''b'', ''c'']"
  have specs: "resolve_package_specs Inr [package_example ''a'', package_example ''b'', package_example ''c''] = Inr ?specs"
    by code_simp
  have "is_ok files_catalog" by code_simp
  then obtain cat where cat: "files_catalog = Inr cat" by (auto simp: is_ok_def split: sum.splits)
  obtain order where order: "mset order = mset (filter (\<lambda>spec. rs_name spec \<noteq> ''a'') ?specs)"
    and files: "process_package_files (\<lambda>u v. Inr (u @ v)) id \<lparr>bp_commands = [], bp_webc_fs = Some [''a'']\<rparr>
       (injected_packages (cat\<lparr>cat_packages := rev (cat_packages cat)\<rparr>) ''a'') =
     merge_in_order (\<lambda>u v. Inr (u @ v)) id (List.map_filter bp_webc_fs
       (\<lparr>bp_commands = [], bp_webc_fs = Some [''a'']\<rparr> #
        map (\<lambda>spec. projr (files_example (rs_webc_path spec))) order))"
    using package_files_merged [OF specs cat [unfolded files_catalog_def], of "rev (cat_packages cat)" "''a''"
        "\<lambda>u v. Inr (u @ v)" id "\<lparr>bp_commands = [], bp_webc_fs = Some [''a'']\<rparr>"] by auto
  have "mset (map rs_webc_path order) = mset [''b'', ''c'']"
    using arg_cong [OF order, of "image_mset rs_webc_path"] by simp
  with files cat show ?thesis by (intro exI [of _ cat] exI [of _ "map rs_webc_path order"]) (simp add: comp_def)
qed

end
