(* ===== verification/Sandbox.thy ===== *)
theory Sandbox
  imports Catalog
begin

text \<open>
  \<open>SandboxState\<close> of \<open>src/core.rs\<close>: construction (\<open>SandboxState::new\<close>, \<open>create_default_layout\<close>,
  \<open>default_env\<close>), the host's file operations (\<open>exists\<close>, \<open>read_file\<close>, \<open>write_file\<close>, \<open>listdir\<close>),
  host mounts and the registration of virtual executables. What belongs to other crates is the
  argument \<open>world\<close>: the in-memory file system with its own \<open>mount\<close> and device files, the host's file
  system, and the constructor of a host-backed file system.
\<close>

section \<open>State\<close>

datatype 'h mounted = ReadOnly 'h | ReadWrite 'h

record ('s, 'f, 'm, 'h) world =
  w_fs :: "('s, 'f, 'm) file_system"
  w_io :: "('s, 'f) host_io"
  w_mount :: "path \<Rightarrow> 'h mounted \<Rightarrow> 's \<Rightarrow> (fs_error + unit) \<times> 's"
  w_insert_device :: "path \<Rightarrow> 's \<Rightarrow> (fs_error + unit) \<times> 's"
  w_host :: host_view
  w_host_fs :: "path \<Rightarrow> error + 'h"
  w_launcher :: "string \<Rightarrow> error + bytes"
  w_runtime :: "error + unit"

record ('s, 'u) sandbox =
  sb_fs :: 's
  sb_cwd :: string
  sb_env :: "(string \<times> string) list"
  sb_catalog :: "'u catalog"
  sb_events :: event_bus
  sb_virtual :: registry

record host_mount =
  hm_source :: string
  hm_target :: string
  hm_read_only :: bool

text \<open>An operation on the file system of a sandbox.\<close>

definition in_fs ::
  "('s \<Rightarrow> (error + 'a) \<times> 's) \<Rightarrow> ('s, 'u) sandbox \<Rightarrow> (error + 'a) \<times> ('s, 'u) sandbox" where
  "in_fs m sb = (case m (sb_fs sb) of (r, s) \<Rightarrow> (r, sb\<lparr>sb_fs := s\<rparr>))"

section \<open>Defaults\<close>

definition default_env :: "(string \<times> string) list" where
  "default_env =
     [(''HOME'', ''/home/sandbox''), (''LANG'', ''C.UTF-8''), (''LOGNAME'', ''sandbox''),
      (''PATH'', ''/bin:/usr/bin''), (''TMPDIR'', ''/tmp''), (''USER'', ''sandbox'')]"

text \<open>\<open>HashMap::extend\<close>.\<close>

definition extend_env :: "(string \<times> string) list \<Rightarrow> (string \<times> string) list \<Rightarrow> (string \<times> string) list" where
  "extend_env env overrides = fold (\<lambda>(key, value). AList.update key value) overrides env"

definition default_directories :: "path list" where
  "default_directories =
     [''/bin'', ''/usr'', ''/usr/bin'', ''/dev'', ''/tmp'', ''/work'', ''/home'', ''/home/sandbox'', ''/etc'']"

fun create_all :: "('s, 'f) host_io \<Rightarrow> path list \<Rightarrow> 's \<Rightarrow> (error + unit) \<times> 's" where
  "create_all io [] s = (Inr (), s)"
| "create_all io (path # paths) s =
     bind_op (with_context (''unable to create '' @ path) (fs_op (io_create_dir_all io path)))
       (\<lambda>_. create_all io paths) s"

definition create_default_layout :: "('s, 'f, 'm, 'h) world \<Rightarrow> 's \<Rightarrow> (error + unit) \<times> 's" where
  "create_default_layout w =
     bind_op (create_all (w_io w) default_directories) (\<lambda>_.
     bind_op (write_file_to_fs (w_io w) (w_fs w) ''/etc/passwd''
                (into_bytes (''sandbox:x:1000:1000:Sandbox User:/home/sandbox:/bin/sh'' @ [CHR 0x0A]))) (\<lambda>_.
     bind_op (write_file_to_fs (w_io w) (w_fs w) ''/etc/group''
                (into_bytes (''sandbox:x:1000:'' @ [CHR 0x0A]))) (\<lambda>_.
     with_context ''unable to create /dev/null'' (fs_op (w_insert_device w ''/dev/null'')))))"

section \<open>Files\<close>

definition sandbox_exists :: "('s, 'f, 'm, 'h) world \<Rightarrow> string \<Rightarrow> ('s, 'u) sandbox \<Rightarrow> error + bool" where
  "sandbox_exists w path sb =
     (case normalize_path path of
        Inl e \<Rightarrow> Inl e
      | Inr path \<Rightarrow> Inr (is_ok (fs_metadata (w_fs w) path (sb_fs sb))))"

definition read_file ::
  "('s, 'f, 'm, 'h) world \<Rightarrow> string \<Rightarrow> ('s, 'u) sandbox \<Rightarrow> (error + bytes) \<times> ('s, 'u) sandbox" where
  "read_file w path sb =
     (case normalize_path path of
        Inl e \<Rightarrow> (Inl e, sb)
      | Inr path \<Rightarrow>
          in_fs (with_context (''unable to read '' @ path) (read_file_from_fs (w_io w) (w_fs w) path)) sb)"

fun emit_created :: "path list \<Rightarrow> event_bus \<Rightarrow> event_bus" where
  "emit_created [] b = b"
| "emit_created (created_path # rest) b =
     emit_created rest (emit DirectoryCreated (event_path created_path) None b)"

definition sandbox_create_parent_directories ::
  "('s, 'f, 'm, 'h) world \<Rightarrow> path \<Rightarrow> ('s, 'u) sandbox \<Rightarrow> (error + unit) \<times> ('s, 'u) sandbox" where
  "sandbox_create_parent_directories w path sb =
     (case path_parent path of
        None \<Rightarrow> (Inr (), sb)
      | Some parent \<Rightarrow>
          (case in_fs (create_directories (w_fs w) parent) sb of
             (Inl e, sb') \<Rightarrow> (Inl e, sb')
           | (Inr created, sb') \<Rightarrow> (Inr (), sb'\<lparr>sb_events := emit_created created (sb_events sb')\<rparr>)))"

definition write_file ::
  "('s, 'f, 'm, 'h) world \<Rightarrow> string \<Rightarrow> bytes \<Rightarrow> ('s, 'u) sandbox \<Rightarrow> (error + unit) \<times> ('s, 'u) sandbox" where
  "write_file w path data sb =
     (case normalize_path path of
        Inl e \<Rightarrow> (Inl e, sb)
      | Inr path \<Rightarrow>
          let existed = is_ok (fs_metadata (w_fs w) path (sb_fs sb)) in
          (case sandbox_create_parent_directories w path sb of
             (Inl e, sb1) \<Rightarrow> (Inl e, sb1)
           | (Inr _, sb1) \<Rightarrow>
               (case in_fs (with_context (''unable to write '' @ path)
                        (write_file_to_fs (w_io w) (w_fs w) path data)) sb1 of
                  (Inl e, sb2) \<Rightarrow> (Inl e, sb2)
                | (Inr _, sb2) \<Rightarrow>
                    (Inr (), sb2\<lparr>sb_events :=
                       emit (if existed then FileModified else FileCreated) (event_path path) None
                         (sb_events sb2)\<rparr>))))"

definition write_file_silent ::
  "('s, 'f, 'm, 'h) world \<Rightarrow> string \<Rightarrow> bytes \<Rightarrow> ('s, 'u) sandbox \<Rightarrow> (error + unit) \<times> ('s, 'u) sandbox" where
  "write_file_silent w path data sb =
     (case normalize_path path of
        Inl e \<Rightarrow> (Inl e, sb)
      | Inr path \<Rightarrow>
          in_fs (bind_op (create_parent_directories (w_io w) path) (\<lambda>_.
            with_context (''unable to write '' @ path) (write_file_to_fs (w_io w) (w_fs w) path data))) sb)"

definition create_directory_silent ::
  "('s, 'f, 'm, 'h) world \<Rightarrow> string \<Rightarrow> ('s, 'u) sandbox \<Rightarrow> (error + unit) \<times> ('s, 'u) sandbox" where
  "create_directory_silent w path sb =
     (case normalize_path path of
        Inl e \<Rightarrow> (Inl e, sb)
      | Inr path \<Rightarrow>
          in_fs (with_context (''unable to create '' @ path) (fs_op (io_create_dir_all (w_io w) path))) sb)"

text \<open>\<open>Vec<String>::sort\<close>: the byte-wise order of strings.\<close>

fun string_le :: "string \<Rightarrow> string \<Rightarrow> bool" where
  "string_le [] t = True"
| "string_le (c # cs) [] = False"
| "string_le (c # cs) (d # ds) \<longleftrightarrow>
     (of_char c :: nat) < of_char d \<or> c = d \<and> string_le cs ds"

fun insort_name :: "string \<Rightarrow> string list \<Rightarrow> string list" where
  "insort_name x [] = [x]"
| "insort_name x (y # ys) = (if string_le x y then x # y # ys else y # insort_name x ys)"

definition sort_names :: "string list \<Rightarrow> string list" where
  "sort_names names = foldr insort_name names []"

definition listdir :: "('s, 'f, 'm, 'h) world \<Rightarrow> string \<Rightarrow> ('s, 'u) sandbox \<Rightarrow> error + string list" where
  "listdir w path sb =
     (case normalize_path path of
        Inl e \<Rightarrow> Inl e
      | Inr path \<Rightarrow>
          (case fs_read_dir (w_fs w) path (sb_fs sb) of
             Inl e \<Rightarrow> Inl (Context (''unable to list '' @ path) (FsErr e))
           | Inr items \<Rightarrow>
               Inr (sort_names (List.map_filter
                 (\<lambda>item. case item of Inl _ \<Rightarrow> None | Inr entry \<Rightarrow> file_name (de_path entry)) items))))"

section \<open>Mounts\<close>

definition mount_host ::
  "('s, 'f, 'm, 'h) world \<Rightarrow> host_mount \<Rightarrow> ('s, 'u) sandbox \<Rightarrow> (error + unit) \<times> ('s, 'u) sandbox" where
  "mount_host w mount sb =
     (case normalize_path (hm_target mount) of
        Inl e \<Rightarrow> (Inl e, sb)
      | Inr target \<Rightarrow>
          if path_eq target ''/'' then (Inl MountTargetIsRoot, sb)
          else (case in_fs (create_parent_directories (w_io w) target) sb of
             (Inl e, sb1) \<Rightarrow> (Inl e, sb1)
           | (Inr _, sb1) \<Rightarrow>
               if (case fs_metadata (w_fs w) target (sb_fs sb1) of Inr md \<Rightarrow> \<not> md_is_dir md | Inl _ \<Rightarrow> False)
               then (Inl (MountTargetNotDir target), sb1)
               else (case validate_host_mount_source (w_host w) (hm_source mount) of
                  Inl e \<Rightarrow> (Inl e, sb1)
                | Inr source \<Rightarrow>
                    (case w_host_fs w source of
                       Inl e \<Rightarrow> (Inl (Context (''unable to mount host source '' @ source) e), sb1)
                     | Inr host_fs \<Rightarrow>
                         let mounted_fs = (if hm_read_only mount then ReadOnly host_fs else ReadWrite host_fs)
                         in in_fs (with_context (''unable to mount host source at '' @ target)
                              (fs_op (w_mount w target mounted_fs))) sb1))))"

section \<open>Virtual executables\<close>

definition register_virtual_executable ::
  "('s, 'f, 'm, 'h) world \<Rightarrow> u64 \<Rightarrow> string list \<Rightarrow> bool \<Rightarrow> ('s, 'u) sandbox \<Rightarrow> (error + unit) \<times> ('s, 'u) sandbox" where
  "register_virtual_executable w token paths replace sb =
     (case register (w_launcher w) (w_runtime w) (w_io w) (w_fs w) token paths replace (sb_virtual sb, sb_fs sb) of
        (r, reg, s) \<Rightarrow> (r, sb\<lparr>sb_virtual := reg, sb_fs := s\<rparr>))"

definition unregister_virtual_executable ::
  "('s, 'f, 'm, 'h) world \<Rightarrow> u64 \<Rightarrow> ('s, 'u) sandbox \<Rightarrow> (error + unit) \<times> ('s, 'u) sandbox" where
  "unregister_virtual_executable w token sb =
     (case unregister (w_fs w) token (sb_virtual sb, sb_fs sb) of
        (r, reg, s) \<Rightarrow> (r, sb\<lparr>sb_virtual := reg, sb_fs := s\<rparr>))"

section \<open>Construction\<close>

fun write_initial_files ::
  "('s, 'f, 'm, 'h) world \<Rightarrow> (string \<times> bytes option) list \<Rightarrow> ('s, 'u) sandbox \<Rightarrow> (error + unit) \<times> ('s, 'u) sandbox" where
  "write_initial_files w [] sb = (Inr (), sb)"
| "write_initial_files w ((path, contents) # files) sb =
     (case (case contents of
              Some data \<Rightarrow> write_file_silent w path data sb
            | None \<Rightarrow> create_directory_silent w path sb) of
        (Inl e, sb') \<Rightarrow> (Inl e, sb')
      | (Inr _, sb') \<Rightarrow> write_initial_files w files sb')"

fun mount_hosts ::
  "('s, 'f, 'm, 'h) world \<Rightarrow> host_mount list \<Rightarrow> ('s, 'u) sandbox \<Rightarrow> (error + unit) \<times> ('s, 'u) sandbox" where
  "mount_hosts w [] sb = (Inr (), sb)"
| "mount_hosts w (mount # mounts) sb =
     (case mount_host w mount sb of
        (Inl e, sb') \<Rightarrow> (Inl e, sb')
      | (Inr _, sb') \<Rightarrow> mount_hosts w mounts sb')"

text \<open>\<open>catalog\<close> is the outcome of \<open>catalog_for\<close>, \<open>new_fs\<close> a new \<open>TmpFileSystem\<close>; the entries of \<open>files\<close> are
  in the iteration order of the hash map.\<close>

definition sandbox_new ::
  "('s, 'f, 'm, 'h) world \<Rightarrow> 's \<Rightarrow> (error + 'u catalog) \<Rightarrow> (string \<times> bytes option) list \<Rightarrow> host_mount list \<Rightarrow>
     string \<Rightarrow> (string \<times> string) list \<Rightarrow> event_bus \<Rightarrow> error + ('s, 'u) sandbox" where
  "sandbox_new w new_fs catalog files host_mounts cwd env events =
     (case catalog of
        Inl e \<Rightarrow> Inl e
      | Inr cat \<Rightarrow>
          (case create_default_layout w new_fs of
             (Inl e, _) \<Rightarrow> Inl e
           | (Inr _, s) \<Rightarrow>
               (case normalize_path cwd of
                  Inl e \<Rightarrow> Inl e
                | Inr cwd \<Rightarrow>
                    let state = \<lparr>sb_fs = s, sb_cwd = cwd, sb_env = extend_env default_env env,
                          sb_catalog = cat, sb_events = events, sb_virtual = registry_new\<rparr>
                    in (case write_initial_files w files state of
                          (Inl e, _) \<Rightarrow> Inl e
                        | (Inr _, state1) \<Rightarrow>
                            (case mount_hosts w host_mounts state1 of
                               (Inl e, _) \<Rightarrow> Inl e
                             | (Inr _, state2) \<Rightarrow> Inr state2)))))"

section \<open>A sandbox after construction and use\<close>

lemma in_fs_frame [simp]:
  "sb_cwd (snd (in_fs m sb)) = sb_cwd sb" "sb_env (snd (in_fs m sb)) = sb_env sb"
  "sb_catalog (snd (in_fs m sb)) = sb_catalog sb" "sb_events (snd (in_fs m sb)) = sb_events sb"
  "sb_virtual (snd (in_fs m sb)) = sb_virtual sb"
  by (simp_all add: in_fs_def case_prod_unfold)

text \<open>An operation that changes nothing but the file system.\<close>

definition fs_only :: "('s, 'u) sandbox \<Rightarrow> ('s, 'u) sandbox \<Rightarrow> bool" where
  "fs_only sb sb' \<longleftrightarrow> sb' = sb\<lparr>sb_fs := sb_fs sb'\<rparr>"

lemma fs_only_refl [simp]: "fs_only sb sb"
  by (simp add: fs_only_def)

lemma fs_only_trans: "fs_only a b \<Longrightarrow> fs_only b c \<Longrightarrow> fs_only a c"
  unfolding fs_only_def by (metis sandbox.update_convs(1) sandbox.cases_scheme sandbox.select_convs(1))

lemma fs_only_fields:
  "fs_only sb sb' \<Longrightarrow> sb_cwd sb' = sb_cwd sb \<and> sb_env sb' = sb_env sb \<and> sb_catalog sb' = sb_catalog sb \<and>
     sb_events sb' = sb_events sb \<and> sb_virtual sb' = sb_virtual sb"
  by (metis fs_only_def sandbox.select_convs sandbox.surjective sandbox.update_convs(1))

lemma fs_only_in_fs [simp]: "fs_only sb (snd (in_fs m sb))"
  by (simp add: fs_only_def in_fs_def case_prod_unfold)

lemma fs_only_in_fsD: "in_fs m sb = (r, sb') \<Longrightarrow> fs_only sb sb'"
  using fs_only_in_fs [of sb m] by simp

lemma mount_host_fs_only: "mount_host w mount sb = (r, sb') \<Longrightarrow> fs_only sb sb'"
  by (auto simp: mount_host_def Let_def split: sum.splits if_splits prod.splits
      dest!: fs_only_in_fsD intro: fs_only_trans)

lemma mount_hosts_fs_only: "mount_hosts w mounts sb = (r, sb') \<Longrightarrow> fs_only sb sb'"
proof (induction w mounts sb rule: mount_hosts.induct)
  case (2 w mount mounts sb)
  then show ?case
    by (auto split: prod.splits sum.splits dest: mount_host_fs_only intro: fs_only_trans)
qed simp

lemma silent_fs_only:
  "write_file_silent w path data sb = (r, sb') \<Longrightarrow> fs_only sb sb'"
  "create_directory_silent w path sb = (r, sb') \<Longrightarrow> fs_only sb sb'"
  by (auto simp: write_file_silent_def create_directory_silent_def split: sum.splits dest: fs_only_in_fsD)

lemma write_initial_fs_only: "write_initial_files w files sb = (r, sb') \<Longrightarrow> fs_only sb sb'"
proof (induction w files sb rule: write_initial_files.induct)
  case (2 w path contents files sb)
  then show ?case
    by (cases contents) (auto split: prod.splits sum.splits dest: silent_fs_only intro: fs_only_trans)
qed simp

lemma extend_env_get: "map_of (extend_env env overrides) k = (map_of env ++ map_of (rev overrides)) k"
proof (induction overrides arbitrary: env)
  case (Cons kv overrides)
  obtain key v where kv: "kv = (key, v)" by fastforce
  have "extend_env env (kv # overrides) = extend_env (AList.update key v env) overrides"
    by (simp add: extend_env_def kv)
  then show ?case
    by (simp add: Cons.IH kv map_add_def update_conv' split: option.splits)
qed (simp add: extend_env_def)

text \<open>A new sandbox is its configuration with some state of the file system.\<close>

lemma sandbox_new_fields:
  assumes "sandbox_new w new_fs catalog files host_mounts cwd env events = Inr sb"
  obtains cat dir where "catalog = Inr cat" "normalize_path cwd = Inr dir" "sb_cwd sb = dir"
    "sb_env sb = extend_env default_env env" "sb_catalog sb = cat" "sb_events sb = events"
    "sb_virtual sb = registry_new"
proof -
  obtain cat s dir state1 where steps: "catalog = Inr cat" "normalize_path cwd = Inr dir"
    and files: "write_initial_files w files
      \<lparr>sb_fs = s, sb_cwd = dir, sb_env = extend_env default_env env, sb_catalog = cat, sb_events = events,
       sb_virtual = registry_new\<rparr> = (Inr (), state1)"
    and mounts: "mount_hosts w host_mounts state1 = (Inr (), sb)"
    using assms by (auto simp: sandbox_new_def Let_def split: sum.splits prod.splits)
  from fs_only_fields [OF fs_only_trans [OF write_initial_fs_only [OF files] mount_hosts_fs_only [OF mounts]]] steps
  show ?thesis by (intro that) simp_all
qed

text \<open>
  What a new sandbox is: its working directory is a normalized absolute path, its environment is
  the default one with the given variables taking precedence, no virtual executable is registered,
  and nothing done during construction (the default layout, the initial files, the host mounts)
  appears on the event stream.
\<close>

theorem sandbox_new_state:
  assumes "sandbox_new w new_fs catalog files host_mounts cwd env events = Inr sb"
  shows "canonical (sb_cwd sb) \<and>
    map_of (sb_env sb) k =
      (case map_of (rev env) k of Some v \<Rightarrow> Some v | None \<Rightarrow> map_of default_env k) \<and>
    sb_virtual sb = registry_new \<and> sb_events sb = events \<and> catalog = Inr (sb_catalog sb)"
  using assms
  by (rule sandbox_new_fields) (auto simp: extend_env_get map_add_def intro: canonical_normalized)

definition mem_world :: "(mem_state, nat, unit, unit) world" where
  "mem_world =
     \<lparr>w_fs = mem_fs, w_io = mem_io, w_mount = (\<lambda>p m s. (Inr (), s)),
      w_insert_device = (\<lambda>p s. (Inr (), s\<lparr>ms_devices := ms_devices s @ [p]\<rparr>)),
      w_host = \<lparr>host_metadata = (\<lambda>p. Inr True), host_canonicalize = Inr\<rparr>,
      w_host_fs = (\<lambda>p. Inr ()), w_launcher = launcher_example, w_runtime = Inr ()\<rparr>"

definition mem_empty :: mem_state where
  "mem_empty = \<lparr>ms_files = [], ms_dirs = [], ms_handles = [], ms_devices = []\<rparr>"

definition new_example :: "error + (mem_state, unit) sandbox" where
  "new_example =
     sandbox_new mem_world mem_empty (Inr catalog_example) [(''/work/a'', Some [1]), (''/work/d'', None)]
       [\<lparr>hm_source = ''/srv'', hm_target = ''/mnt/srv'', hm_read_only = True\<rparr>] ''/work/./x/..'' [(''LANG'', ''C'')]
       (set_enabled True (the (event_bus_new 8)))"

lemma new_example_ok: "is_ok new_example"
  by code_simp

theorem sandbox_new_state_witness:
  "\<exists>sb. new_example = Inr sb \<and> canonical (sb_cwd sb) \<and> map_of (sb_env sb) ''LANG'' = Some ''C'' \<and>
     map_of (sb_env sb) ''USER'' = Some ''sandbox''"
proof -
  obtain sb where run: "new_example = Inr sb" using new_example_ok by (auto simp: is_ok_def split: sum.splits)
  note state = sandbox_new_state [OF run [unfolded new_example_def]]
  from state [of "''LANG''"] state [of "''USER''"] run show ?thesis
    by (intro exI [of _ sb]) (simp add: default_env_def)
qed

section \<open>Reading back what was written\<close>

text \<open>
  What the host relies on in its file system, one operation at a time. \<open>contents\<close> are the bytes of the
  regular file at a path, \<open>device\<close> says whether a path is that of a device, and \<open>handle\<close> gives the path and the
  cursor of an open handle. Opening with write, create and truncate a path that is not a device gives a
  handle at the start of an empty file; \<open>write_all\<close> writes at the cursor; flushing and making directories
  change no file; a regular file can be opened for reading, with the handle at its start; \<open>read_to_end\<close>
  returns the bytes from the cursor on. Nothing is assumed of what devices do.
\<close>

locale file_store =
  fixes fs :: "('s, 'f, 'm) file_system"
    and io :: "('s, 'f) host_io"
    and contents :: "'s \<Rightarrow> path \<Rightarrow> bytes option"
    and device :: "'s \<Rightarrow> path \<Rightarrow> bool"
    and handle :: "'s \<Rightarrow> 'f \<Rightarrow> (path \<times> nat) option"
  assumes open_write: "fs_open fs p write_config s = (Inr f, s') \<Longrightarrow> \<not> device s p \<Longrightarrow>
      handle s' f = Some (p, 0) \<and> contents s' q = (if path_eq p q then Some [] else contents s q)"
    and write_all: "io_write_all io f d s = (Inr (), s') \<Longrightarrow> handle s f = Some (p, c) \<Longrightarrow>
      contents s p = Some bs \<Longrightarrow> contents s' q = (if path_eq p q then Some (write_at bs c d) else contents s q)"
    and flush_keeps: "contents (snd (io_flush io f s)) = contents s"
    and mkdir_keeps: "contents (snd (fs_create_dir fs p s)) = contents s"
    and mkdir_device: "device (snd (fs_create_dir fs p s)) = device s"
    and open_read: "contents s p = Some bs \<Longrightarrow>
      \<exists>f s'. fs_open fs p read_config s = (Inr f, s') \<and> contents s' = contents s \<and> handle s' f = Some (p, 0)"
    and read_to_end: "handle s f = Some (p, c) \<Longrightarrow> contents s p = Some bs \<Longrightarrow>
      fst (io_read_to_end io f s) = Inr (drop c bs)"
begin

lemma write_to_fs_contents:
  assumes "write_file_to_fs io fs p d s = (Inr (), s')" "\<not> device s p"
  shows "contents s' q = (if path_eq p q then Some d else contents s q)"
proof -
  obtain f s1 s2 where opened: "fs_open fs p write_config s = (Inr f, s1)"
    and written: "io_write_all io f d s1 = (Inr (), s2)" and flushed: "io_flush io f s2 = (Inr (), s')"
    using assms(1) by (auto simp: write_file_to_fs_def bind_op_def fs_op_def io_op_def split: prod.splits sum.splits)
  note fresh = open_write [OF opened assms(2)]
  have "contents s2 q = (if path_eq p q then Some d else contents s1 q)" for q
    using write_all [OF written, of p 0 "[]" q] fresh by (simp add: write_at_def)
  with fresh flush_keeps [of f s2] flushed show ?thesis by simp
qed

lemma create_components_contents:
  "contents (snd (create_components fs cs current created s)) = contents s \<and>
   device (snd (create_components fs cs current created s)) = device s"
proof (induction cs arbitrary: current created s)
  case (Cons c cs)
  show ?case
  proof (cases c)
    case (Normal name)
    let ?p = "path_push current name"
    have "contents s' = contents s \<and> device s' = device s" if "fs_create_dir fs ?p s = (r, s')" for r s'
      using mkdir_keeps [of ?p s] mkdir_device [of ?p s] that by simp
    with Cons.IH Normal show ?thesis
      by (auto simp: Let_def with_context_def fs_op_def split: sum.splits fs_error.splits prod.splits)
  qed (simp_all add: Cons.IH)
qed simp

lemma create_directories_contents:
  "contents (snd (create_directories fs p s)) = contents s" "device (snd (create_directories fs p s)) = device s"
  by (simp_all add: create_directories_def create_components_contents)

lemma read_from_fs_contents:
  "contents s p = Some bs \<Longrightarrow> fst (read_file_from_fs io fs p s) = Inr bs"
  using open_read [of s p bs] read_to_end [of _ _ p 0 bs]
  by (fastforce simp: read_file_from_fs_def bind_op_def fs_op_def io_op_def split: prod.splits)

end

text \<open>The steps of a successful \<open>write_file\<close>.\<close>

lemma write_file_steps:
  assumes "write_file w path data sb = (Inr (), sb')"
  obtains p sb1 s where "normalize_path path = Inr p"
    "sandbox_create_parent_directories w p sb = (Inr (), sb1)"
    "write_file_to_fs (w_io w) (w_fs w) p data (sb_fs sb1) = (Inr (), s)"
    "sb' = sb1\<lparr>sb_fs := s, sb_events := emit (if is_ok (fs_metadata (w_fs w) p (sb_fs sb)) then FileModified
       else FileCreated) (event_path p) None (sb_events sb1)\<rparr>"
  using assms
  by (auto simp: write_file_def in_fs_def with_context_def Let_def split: sum.splits prod.splits)

lemma parent_directories_contents:
  assumes "file_store fs io contents device handle" "w_fs w = fs"
    "sandbox_create_parent_directories w p sb = (Inr (), sb1)"
  shows "contents (sb_fs sb1) = contents (sb_fs sb) \<and> device (sb_fs sb1) = device (sb_fs sb)"
proof (cases "path_parent p")
  case None
  with assms(3) show ?thesis by (simp add: sandbox_create_parent_directories_def)
next
  case (Some parent)
  with assms(2,3) obtain created s where "create_directories fs parent (sb_fs sb) = (Inr created, s)" "sb_fs sb1 = s"
    by (auto simp: sandbox_create_parent_directories_def in_fs_def split: prod.splits sum.splits)
  with file_store.create_directories_contents [OF assms(1), of parent "sb_fs sb"] show ?thesis by simp
qed

text \<open>
  C35. A file that was written reads back as written: on a file system whose single operations do what
  their documentation says, after a successful \<open>write_file\<close> to a path that is not a device, a \<open>read_file\<close>
  of the same path, however it is spelled, returns exactly the data, also when a longer file was there
  before, and the content of the regular file at every other path is what it was.
\<close>

theorem write_file_reads_back:
  assumes "file_store (w_fs w) (w_io w) contents device handle"
    "normalize_path path = Inr p" "normalize_path path' = Inr p" "\<not> device (sb_fs sb) p"
    "write_file w path data sb = (Inr (), sb')"
  shows "fst (read_file w path' sb') = Inr data \<and>
    (\<forall>q. canonical q \<and> q \<noteq> p \<longrightarrow> contents (sb_fs sb') q = contents (sb_fs sb) q)"
  using assms(5)
proof (rule write_file_steps)
  fix p' sb1 s
  assume "normalize_path path = Inr p'"
    and parents: "sandbox_create_parent_directories w p' sb = (Inr (), sb1)"
    and wrote: "write_file_to_fs (w_io w) (w_fs w) p' data (sb_fs sb1) = (Inr (), s)"
    and sb': "sb' = sb1\<lparr>sb_fs := s, sb_events := emit (if is_ok (fs_metadata (w_fs w) p' (sb_fs sb)) then FileModified
       else FileCreated) (event_path p') None (sb_events sb1)\<rparr>"
  with assms(2) have p': "p' = p" by simp
  note store = assms(1)
  note kept = parent_directories_contents [OF store refl parents]
  have contents: "contents s q = (if path_eq p q then Some data else contents (sb_fs sb) q)" for q
    using file_store.write_to_fs_contents [OF store wrote] kept assms(4) by (simp add: p')
  have "fst (read_file_from_fs (w_io w) (w_fs w) p s) = Inr data"
    by (rule file_store.read_from_fs_contents [OF store]) (simp add: contents)
  then have "fst (read_file w path' sb') = Inr data"
    using assms(3) by (auto simp: read_file_def sb' in_fs_def with_context_def split: prod.splits)
  moreover have "contents (sb_fs sb') q = contents (sb_fs sb) q" if "canonical q" "q \<noteq> p" for q
    using that contents [of q] canonical_normalized [OF assms(2)] by (auto simp: sb' path_eq_canonical)
  ultimately show ?thesis by blast
qed

definition mem_contents :: "mem_state \<Rightarrow> path \<Rightarrow> bytes option" where
  "mem_contents s p = (if mem_is_device p s then None else pm_get (ms_files s) p)"

definition mem_device :: "mem_state \<Rightarrow> path \<Rightarrow> bool" where
  "mem_device s p = mem_is_device p s"

definition mem_handle :: "mem_state \<Rightarrow> nat \<Rightarrow> (path \<times> nat) option" where
  "mem_handle s f = (if f < length (ms_handles s) then Some (ms_handles s ! f) else None)"

lemmas mem_store_defs = mem_contents_def mem_device_def mem_handle_def mem_fs_def mem_io_def

interpretation mem_store: file_store mem_fs mem_io mem_contents mem_device mem_handle
proof unfold_locales
  fix p q :: path and s s' :: mem_state and f c :: nat and d bs :: bytes
  show "fs_open mem_fs p write_config s = (Inr f, s') \<Longrightarrow> \<not> mem_device s p \<Longrightarrow>
      mem_handle s' f = Some (p, 0) \<and> mem_contents s' q = (if path_eq p q then Some [] else mem_contents s q)"
    using mem_is_device_cong [of p q s]
    by (auto simp: mem_store_defs mem_open_def write_config_def pm.get_ins Let_def frame
        split: option.splits if_splits)
  show "mem_contents (snd (io_flush mem_io f s)) = mem_contents s"
    by (simp add: mem_io_def)
  show "mem_contents (snd (fs_create_dir mem_fs p s)) = mem_contents s"
    "mem_device (snd (fs_create_dir mem_fs p s)) = mem_device s"
    by (simp_all add: mem_fs_create_dir mem_create_dir_def mem_contents_def mem_device_def frame fun_eq_iff)
  show "mem_contents s p = Some bs \<Longrightarrow>
      \<exists>f s'. fs_open mem_fs p read_config s = (Inr f, s') \<and> mem_contents s' = mem_contents s \<and>
        mem_handle s' f = Some (p, 0)"
    by (intro exI [of _ "length (ms_handles s)"] exI [of _ "s\<lparr>ms_handles := ms_handles s @ [(p, 0)]\<rparr>"])
      (auto simp: mem_store_defs mem_open_def read_config_def Let_def frame fun_eq_iff split: if_splits)
  show "mem_handle s f = Some (p, c) \<Longrightarrow> mem_contents s p = Some bs \<Longrightarrow>
      fst (io_read_to_end mem_io f s) = Inr (drop c bs)"
    by (auto simp: mem_store_defs mem_read_def mem_bytes_def Let_def split: if_splits)
  show "io_write_all mem_io f d s = (Inr (), s') \<Longrightarrow> mem_handle s f = Some (p, c) \<Longrightarrow>
      mem_contents s p = Some bs \<Longrightarrow>
      mem_contents s' q = (if path_eq p q then Some (write_at bs c d) else mem_contents s q)"
    using mem_is_device_cong [of p q s]
    by (auto simp: mem_store_defs mem_write_def mem_bytes_def pm.get_ins Let_def frame split: if_splits)
qed

definition device_example :: mem_state where
  "device_example = mem_example\<lparr>ms_devices := [''/etc/null'']\<rparr>"

definition sandbox_example :: "(mem_state, unit) sandbox" where
  "sandbox_example = \<lparr>sb_fs = device_example, sb_cwd = ''/etc'', sb_env = default_env, sb_catalog = catalog_example,
     sb_events = set_enabled True (the (event_bus_new 8)), sb_virtual = registry_example\<rparr>"

lemma write_example_ok: "is_ok (fst (write_file mem_world ''/etc/x/a'' [104, 105] sandbox_example))"
  by code_simp

lemma shorter_example_ok: "is_ok (fst (write_file mem_world ''/etc/hosts'' [7] sandbox_example))"
  by code_simp

lemma write_ok_state:
  assumes "is_ok (fst (write_file w path data sb))"
  obtains sb' where "write_file w path data sb = (Inr (), sb')"
  using assms by (cases "write_file w path data sb") (auto simp: is_ok_def split: sum.splits)

text \<open>A shorter file over a longer one, in a directory with a device.\<close>

theorem write_file_reads_back_witness:
  "fst (read_file mem_world ''//etc/./hosts'' (snd (write_file mem_world ''/etc/hosts'' [7] sandbox_example))) = Inr [7]"
proof -
  have paths: "normalize_path ''/etc/hosts'' = Inr ''/etc/hosts''" "normalize_path ''//etc/./hosts'' = Inr ''/etc/hosts''"
    by code_simp+
  obtain sb' where wrote: "write_file mem_world ''/etc/hosts'' [7] sandbox_example = (Inr (), sb')"
    using write_ok_state [OF shorter_example_ok] .
  have "file_store (w_fs mem_world) (w_io mem_world) mem_contents mem_device mem_handle"
    by (simp add: mem_world_def mem_store.file_store_axioms)
  moreover have "\<not> mem_device (sb_fs sandbox_example) ''/etc/hosts''" by code_simp
  ultimately show ?thesis
    using write_file_reads_back [OF _ paths _ wrote] unfolding wrote by simp
qed

section \<open>Events of the host's own writes\<close>

lemma emit_created_all:
  "list_all canonical created \<Longrightarrow>
   emit_created created b = emit_all b (map (\<lambda>q. (DirectoryCreated, to_string_lossy q, None)) created)"
  by (induction created arbitrary: b) (simp_all add: emit_all_def)

lemma canonical_render: "list_all valid_name names \<Longrightarrow> canonical (render names)"
  by (auto simp: canonical_def)

lemma canonical_chain: "list_all valid_name (base @ ns) \<Longrightarrow> list_all canonical (chain base ns)"
  by (induction ns arbitrary: base) (simp_all add: canonical_render)

text \<open>
  C36. A successful \<open>write_file\<close> reports exactly what it did: one \<open>directory_created\<close> event for every
  ancestor that did not exist, outermost first, and then one event for the file, \<open>file_created\<close> if
  the path did not exist before the call and \<open>file_modified\<close> if it did. The events name the paths
  themselves, as text: \<open>to_string_lossy\<close> is the identity on UTF-8, and \<open>path\<close> is a \<open>&str\<close>.
\<close>

theorem write_file_events:
  assumes "dir_fs (w_fs w)" "write_file w path data sb = (Inr (), sb')"
    "normalize_path path = Inr (render (ancestors @ [name]))" "list_all valid_name (ancestors @ [name])"
  shows "sb_events sb' = emit_all (sb_events sb)
    (map (\<lambda>q. (DirectoryCreated, to_string_lossy q, None))
       (filter (\<lambda>q. \<not> is_ok (fs_kind (w_fs w) (sb_fs sb) q)) (chain [] ancestors)) @
     [(if is_ok (fs_metadata (w_fs w) (render (ancestors @ [name])) (sb_fs sb)) then FileModified else FileCreated,
       to_string_lossy (render (ancestors @ [name])), None)])"
  using assms(2)
proof (rule write_file_steps)
  fix p sb1 s
  assume p: "normalize_path path = Inr p"
    and parents: "sandbox_create_parent_directories w p sb = (Inr (), sb1)"
    and sb': "sb' = sb1\<lparr>sb_fs := s, sb_events := emit (if is_ok (fs_metadata (w_fs w) p (sb_fs sb)) then FileModified
       else FileCreated) (event_path p) None (sb_events sb1)\<rparr>"
  have p_render: "p = render (ancestors @ [name])" using p assms(3) by simp
  have valid: "list_all valid_name ancestors" "canonical p"
    using assms(4) by (simp_all add: p_render canonical_render)
  have "path_parent p = Some (render ancestors)"
    using assms(4) by (simp add: p_render path_parent_render)
  then obtain created s1 where made: "create_directories (w_fs w) (render ancestors) (sb_fs sb) = (Inr created, s1)"
    and sb1: "sb_events sb1 = emit_created created (sb_events sb)"
    using parents by (auto simp: sandbox_create_parent_directories_def in_fs_def split: prod.splits sum.splits)
  have created: "created = filter (\<lambda>q. \<not> is_ok (fs_kind (w_fs w) (sb_fs sb) q)) (chain [] ancestors)"
    using dir_fs.create_directories_exact [OF assms(1) valid(1) made] by simp
  then have "list_all canonical created"
    using canonical_chain [of "[]" ancestors] valid(1) by (auto simp: list_all_iff)
  then show ?thesis
    using sb1 created valid(2) by (simp add: sb' emit_created_all emit_all_def p_render)
qed

theorem write_file_events_witness:
  "sb_events (snd (write_file mem_world ''/etc/x/a'' [104, 105] sandbox_example)) =
     emit_all (sb_events sandbox_example) [(DirectoryCreated, ''/etc/x'', None), (FileCreated, ''/etc/x/a'', None)]"
proof -
  obtain sb' where wrote: "write_file mem_world ''/etc/x/a'' [104, 105] sandbox_example = (Inr (), sb')"
    using write_ok_state [OF write_example_ok] .
  have path: "normalize_path ''/etc/x/a'' = Inr (render ([''etc'', ''x''] @ [''a'']))"
    "list_all valid_name ([''etc'', ''x''] @ [''a''])"
    "filter (\<lambda>q. \<not> is_ok (fs_kind mem_fs device_example q)) (chain [] [''etc'', ''x'']) = [''/etc/x'']"
    "\<not> is_ok (fs_metadata mem_fs (render ([''etc'', ''x''] @ [''a''])) device_example)"
    "render ([''etc'', ''x''] @ [''a'']) = ''/etc/x/a''"
    "to_string_lossy ''/etc/x'' = ''/etc/x''" "to_string_lossy ''/etc/x/a'' = ''/etc/x/a''" by code_simp+
  have fields: "w_fs mem_world = mem_fs" "sb_fs sandbox_example = device_example"
    by (simp_all add: mem_world_def sandbox_example_def)
  have "dir_fs (w_fs mem_world)" unfolding fields by (rule mem_dirs.dir_fs_axioms)
  from write_file_events [OF this wrote path(1,2)] show ?thesis
    unfolding fields path(3,5) wrote using path(4-7) by simp
qed

section \<open>Sequences of host operations\<close>

datatype host_op =
    OpRead string
  | OpWrite string bytes
  | OpMount host_mount
  | OpRegister u64 "string list" bool
  | OpUnregister u64

fun host_step :: "('s, 'f, 'm, 'h) world \<Rightarrow> ('s, 'u) sandbox \<Rightarrow> host_op \<Rightarrow> ('s, 'u) sandbox" where
  "host_step w sb (OpRead path) = snd (read_file w path sb)"
| "host_step w sb (OpWrite path data) = snd (write_file w path data sb)"
| "host_step w sb (OpMount mount) = snd (mount_host w mount sb)"
| "host_step w sb (OpRegister token paths replace) = snd (register_virtual_executable w token paths replace sb)"
| "host_step w sb (OpUnregister token) = snd (unregister_virtual_executable w token sb)"

lemma write_file_frame:
  "sb_cwd (snd (write_file w path data sb)) = sb_cwd sb"
  "sb_env (snd (write_file w path data sb)) = sb_env sb"
  "sb_catalog (snd (write_file w path data sb)) = sb_catalog sb"
  "sb_virtual (snd (write_file w path data sb)) = sb_virtual sb"
  by (auto simp: write_file_def sandbox_create_parent_directories_def in_fs_def Let_def
      split: sum.splits prod.splits option.splits)

lemma mount_host_frame: "fs_only sb (snd (mount_host w mount sb))"
  using mount_host_fs_only [of w mount sb] by (cases "mount_host w mount sb") simp

lemma register_exec_frame:
  "sb_cwd (snd (register_virtual_executable w token paths replace sb)) = sb_cwd sb"
  "sb_env (snd (register_virtual_executable w token paths replace sb)) = sb_env sb"
  "sb_catalog (snd (register_virtual_executable w token paths replace sb)) = sb_catalog sb"
  "sb_cwd (snd (unregister_virtual_executable w token sb)) = sb_cwd sb"
  "sb_env (snd (unregister_virtual_executable w token sb)) = sb_env sb"
  "sb_catalog (snd (unregister_virtual_executable w token sb)) = sb_catalog sb"
  by (simp_all add: register_virtual_executable_def unregister_virtual_executable_def case_prod_unfold)

lemma register_exec_ok:
  assumes "registry_ok (sb_virtual sb)"
  shows "registry_ok (sb_virtual (snd (register_virtual_executable w token paths replace sb)))"
    "registry_ok (sb_virtual (snd (unregister_virtual_executable w token sb)))"
  using register_ok [OF assms] unregister_ok [OF assms]
  by (auto simp: register_virtual_executable_def unregister_virtual_executable_def split: prod.splits)

definition host_inv :: "string \<Rightarrow> (string \<times> string) list \<Rightarrow> 'u catalog \<Rightarrow> ('s, 'u) sandbox \<Rightarrow> bool" where
  "host_inv cwd env cat sb \<longleftrightarrow>
     sb_cwd sb = cwd \<and> sb_env sb = env \<and> sb_catalog sb = cat \<and> registry_ok (sb_virtual sb)"

lemma host_step_inv: "host_inv cwd env cat sb \<Longrightarrow> host_inv cwd env cat (host_step w sb x)"
  using fs_only_fields [OF mount_host_frame [of sb w]]
  by (cases x)
    (auto simp: host_inv_def write_file_frame register_exec_frame register_exec_ok read_file_def split: sum.splits)

interpretation host: machine "host_step w" "host_inv cwd env cat" for w cwd env cat
  by unfold_locales (rule host_step_inv)

text \<open>
  C37. Whatever the host does to a sandbox (reads, writes, mounts, registrations and removals, failing
  or not), its working directory, environment and catalog stay what they were at construction, and
  in its registry every entry is a normalized path whose handler is told exactly that path.
\<close>

theorem host_operations_keep_configuration:
  assumes "sandbox_new w new_fs catalog files host_mounts cwd env events = Inr sb"
    "sb' = foldl (host_step w) sb ops"
  shows "sb_cwd sb' = sb_cwd sb \<and> sb_env sb' = sb_env sb \<and> sb_catalog sb' = sb_catalog sb \<and>
    (\<forall>(path, target) \<in> set (reg_paths (sb_virtual sb')). canonical path \<and> tg_path target = path)"
proof -
  have "host_inv (sb_cwd sb) (sb_env sb) (sb_catalog sb) sb"
    using assms(1) by (rule sandbox_new_fields) (simp add: host_inv_def registry_new_ok)
  from host.run_inv [OF this, of w ops] assms(2) show ?thesis
    by (auto simp: host_inv_def registry_ok_def list_all_iff)
qed

theorem host_operations_keep_configuration_witness:
  "\<exists>sb. new_example = Inr sb \<and>
     sb_cwd (foldl (host_step mem_world) sb [OpWrite ''/etc/f'' [1], OpRegister 3 [''/bin/t''] False]) = sb_cwd sb"
proof -
  obtain sb where run: "new_example = Inr sb" using new_example_ok by (auto simp: is_ok_def split: sum.splits)
  from host_operations_keep_configuration [OF run [unfolded new_example_def] refl,
      of "[OpWrite ''/etc/f'' [1], OpRegister 3 [''/bin/t''] False]"] run
  show ?thesis by blast
qed

section \<open>Listing a directory\<close>

lemma string_le_total: "string_le x y \<or> string_le y x"
proof (induction x y rule: string_le.induct)
  case (3 c cs d ds)
  have "(of_char c :: nat) = of_char d \<Longrightarrow> c = d" by simp
  with 3 show ?case by (auto simp: not_less_iff_gr_or_eq)
qed simp_all

lemma string_le_trans: "string_le x y \<Longrightarrow> string_le y z \<Longrightarrow> string_le x z"
proof (induction x y arbitrary: z rule: string_le.induct)
  case (3 c cs d ds)
  then show ?case by (cases z) (auto dest: less_trans)
qed simp_all

lemma insort_name_set: "mset (insort_name x ys) = add_mset x (mset ys)"
  by (induction ys) auto

lemma insort_name_sorted: "sorted_wrt string_le ys \<Longrightarrow> sorted_wrt string_le (insort_name x ys)"
proof (induction ys)
  case (Cons y ys)
  have members: "z = x \<or> z \<in> set ys" if "z \<in> set (insort_name x ys)" for z
    using that insort_name_set [of x ys] by (metis insertE set_mset_add_mset_insert set_mset_mset)
  show ?case
  proof (cases "string_le x y")
    case True
    with Cons.prems string_le_trans [OF True] show ?thesis by auto
  next
    case False
    with string_le_total [of x y] Cons members show ?thesis by auto
  qed
qed simp

lemma sort_names_sorted: "sorted_wrt string_le (sort_names xs)" "mset (sort_names xs) = mset xs"
  by (induction xs) (simp_all add: sort_names_def insort_name_sorted insort_name_set)

text \<open>
  A directory listing is sorted byte by byte and complete: it contains, as often as the file system
  lists them, exactly the last components of the entries that could be read.
\<close>

theorem listdir_sorted:
  assumes "listdir w path sb = Inr names"
  shows "sorted_wrt string_le names \<and>
    (\<exists>p items. normalize_path path = Inr p \<and> fs_read_dir (w_fs w) p (sb_fs sb) = Inr items \<and>
      mset names = mset (List.map_filter
        (\<lambda>item. case item of Inl _ \<Rightarrow> None | Inr entry \<Rightarrow> file_name (de_path entry)) items))"
  using assms by (auto simp: listdir_def sort_names_sorted split: sum.splits)

end
