(* ===== verification/Run.thy ===== *)
theory Run
  imports Sandbox
begin

text \<open>
  Running a command (\<open>src/core.rs\<close>): \<open>duration_from_seconds\<close>, \<open>PackageCatalog::run\<close>,
  \<open>run_with_stdio\<close>, \<open>run_virtual_command\<close>, \<open>run_package_command\<close> and \<open>normalize_process_outcome\<close>.
  Of the WASIX runtime the sources use three things, which are arguments here: how a package answers
  \<open>get_command\<close> (\<open>en_commands\<close>), whether the environment can be built (\<open>en_build\<close>), and which of the
  awaited events of the started process came first (\<open>en_observe\<close>). A failure of the task that drives the
  process is \<open>TaskFailed\<close>. What the process does to its two output streams while it runs is guest code;
  it is the argument \<open>writes\<close> of \<open>run\<close> and reaches \<open>run_with_stdio\<close> as the final state of the streams. The
  theorems hold for all arguments, so for whatever a process that behaves as observed has written.
\<close>

section \<open>Wall time\<close>

text \<open>A finite \<open>f64\<close> is a mantissa and a binary exponent. \<open>None\<close> is a panic.\<close>

datatype f64 = NotANumber | Infinite | Finite int int

definition is_finite :: "f64 \<Rightarrow> bool" where
  "is_finite x = (case x of Finite _ _ \<Rightarrow> True | _ \<Rightarrow> False)"

definition not_positive :: "f64 \<Rightarrow> bool" where
  "not_positive x = (case x of Finite m _ \<Rightarrow> m \<le> 0 | _ \<Rightarrow> False)"

definition round_half_even :: "int \<Rightarrow> int \<Rightarrow> int" where
  "round_half_even n d =
     (let q = n div d; r = n mod d in
      if 2 * r < d then q else if d < 2 * r then q + 1 else if even q then q else q + 1)"

definition nanos_of :: "int \<Rightarrow> int \<Rightarrow> int" where
  "nanos_of m e =
     (if 0 \<le> e then m * 2 ^ nat e * 1000000000 else round_half_even (m * 1000000000) (2 ^ nat (- e)))"

text \<open>\<open>Duration::from_secs_f64\<close>: nearest nanosecond, a panic if the seconds do not fit \<open>u64\<close>.\<close>

definition from_secs_f64 :: "f64 \<Rightarrow> nat option" where
  "from_secs_f64 x =
     (case x of
        Finite m e \<Rightarrow>
          if m < 0 then None
          else if nanos_of m e < 2 ^ 64 * 1000000000 then Some (nat (nanos_of m e)) else None
      | _ \<Rightarrow> None)"

datatype 'a outcome = Unfinished | Panic | Done "error + 'a"

definition duration_from_seconds :: "f64 \<Rightarrow> nat outcome" where
  "duration_from_seconds seconds =
     (if \<not> is_finite seconds \<or> not_positive seconds then Done (Inl WallTimeInvalid)
      else (case from_secs_f64 seconds of None \<Rightarrow> Panic | Some duration \<Rightarrow> Done (Inr duration)))"

section \<open>Requests and results\<close>

record limits =
  li_output_bytes :: nat
  li_wall_time_seconds :: "f64 option"

record run_request =
  rq_args :: "string list"
  rq_input :: "bytes option"
  rq_env :: "(string \<times> string) list option"
  rq_cwd :: "string option"
  rq_limits :: limits

record completed_process =
  cp_args :: "string list"
  cp_returncode :: i32
  cp_stdout :: bytes
  cp_stderr :: bytes

definition find_cwd_restore_error :: bytes where
  "find_cwd_restore_error =
     into_bytes (''(null): Failed to restore initial working directory: Not a directory'' @ [CHR 0x0A])"

definition normalize_process_outcome :: "string \<Rightarrow> i32 \<Rightarrow> bytes \<Rightarrow> i32 \<times> bytes" where
  "normalize_process_outcome command returncode stderr =
     (if command = ''find'' \<and> returncode = 1 \<and> stderr = find_cwd_restore_error then (0, [])
      else (returncode, stderr))"

section \<open>Package commands\<close>

record wasi_annotation =
  wa_exec_name :: "string option"
  wa_cwd :: "path option"
  wa_main_args :: "string list option"
  wa_env :: "string list option"

text \<open>What the environment builder is told about the process.\<close>

record 'u launch =
  la_exec_name :: string
  la_args :: "string list"
  la_env :: "(string \<times> string) list"
  la_cwd :: path
  la_files :: "'u option"
  la_wall_time :: "nat option"

definition split_env_item :: "string \<Rightarrow> string \<times> string" where
  "split_env_item item = (case split_once CHR ''='' item of Some (key, v) \<Rightarrow> (key, v) | None \<Rightarrow> (item, []))"

definition build_launch ::
  "string \<Rightarrow> wasi_annotation \<Rightarrow> string list \<Rightarrow> (string \<times> string) list \<Rightarrow> path \<Rightarrow> 'u option \<Rightarrow> nat option \<Rightarrow> 'u launch" where
  "build_launch command_name wasi args env cwd files wall_time =
     \<lparr>la_exec_name = (case wa_exec_name wasi of Some name \<Rightarrow> name | None \<Rightarrow> command_name),
      la_args = (case wa_main_args wasi of Some main_args \<Rightarrow> main_args | None \<Rightarrow> []) @ args,
      la_env = map split_env_item (case wa_env wasi of Some items \<Rightarrow> items | None \<Rightarrow> []) @ env,
      la_cwd = (case wa_cwd wasi of Some package_cwd \<Rightarrow> package_cwd | None \<Rightarrow> cwd),
      la_files = files, la_wall_time = wall_time\<rparr>"

text \<open>
  What the two \<open>select!\<close>s see: whether starting finished before a cancellation, and which of the end
  of the process, the wall time and a cancellation came first. \<open>Timeout\<close> can only be observed with a
  wall time.
\<close>

datatype spawned = TaskFailed error | SpawnFailed error | SpawnCancelled | Spawned

datatype ended = Exited i32 | WaitFailed string | Timeout | EndCancelled

text \<open>
  \<open>Duration::as_secs_f64\<close> converts the whole seconds and the nanoseconds to \<open>f64\<close>, divides the latter by
  a billion and adds; each operation rounds to the nearest number with 53 bits. \<open>{:.3}\<close> prints the exact
  value of the result rounded to three decimals. Ties go to the even neighbour.
\<close>

fun bit_count :: "nat \<Rightarrow> nat" where
  "bit_count n = (if n = 0 then 0 else Suc (bit_count (n div 2)))"

declare bit_count.simps [simp del]

definition scaled :: "int \<Rightarrow> int \<Rightarrow> int \<Rightarrow> int \<times> int" where
  "scaled n d e = (if 0 \<le> e then (n, d * 2 ^ nat e) else (n * 2 ^ nat (- e), d))"

definition f64_of_ratio :: "int \<Rightarrow> int \<Rightarrow> int \<times> int" where
  "f64_of_ratio n d =
     (if n = 0 then (0, 0)
      else let e = int (bit_count (nat n)) - int (bit_count (nat d)) - 53;
               e = (case scaled n d e of (x, y) \<Rightarrow> if y * 2 ^ 53 \<le> x then e + 1 else e)
           in (case scaled n d e of (x, y) \<Rightarrow> round_half_even x y, e))"

definition as_secs_f64 :: "nat \<Rightarrow> int \<times> int" where
  "as_secs_f64 nanos =
     (let (m1, e1) = f64_of_ratio (int (nanos div 1000000000)) 1;
          (m2, e2) = f64_of_ratio (int (nanos mod 1000000000)) 1000000000;
          e = min e1 e2;
          m = m1 * 2 ^ nat (e1 - e) + m2 * 2 ^ nat (e2 - e)
      in if 0 \<le> e then f64_of_ratio (m * 2 ^ nat e) 1 else f64_of_ratio m (2 ^ nat (- e)))"

definition show_seconds :: "nat \<Rightarrow> string" where
  "show_seconds nanos =
     (let (m, e) = as_secs_f64 nanos;
          ms = nat (if 0 \<le> e then m * 2 ^ nat e * 1000 else round_half_even (m * 1000) (2 ^ nat (- e)));
          digits = show_nat (ms mod 1000)
      in show_nat (ms div 1000) @ ''.'' @ replicate (3 - length digits) CHR ''0'' @ digits)"

definition wall_time_exceeded :: "nat \<Rightarrow> error" where
  "wall_time_exceeded timeout =
     Msg (''process exceeded wall time limit of '' @ show_seconds timeout @ '' seconds'')"

definition wait_for ::
  "nat option \<Rightarrow> spawned \<Rightarrow> ended \<Rightarrow> (error + i32) \<times> bool" where
  "wait_for wall_time spawn ended =
     (case spawn of
        TaskFailed e \<Rightarrow> (Inl e, False)
      | SpawnFailed e \<Rightarrow> (Inl (Context ''spawn failed'' e), False)
      | SpawnCancelled \<Rightarrow> (Inl ProcessCancelled, False)
      | Spawned \<Rightarrow>
          (case ended of
             Exited code \<Rightarrow> (Inr code, False)
           | WaitFailed message \<Rightarrow> (Inl (Msg message), False)
           | Timeout \<Rightarrow> (Inl (wall_time_exceeded (case wall_time of Some t \<Rightarrow> t | None \<Rightarrow> 0)), True)
           | EndCancelled \<Rightarrow> (Inl ProcessCancelled, True)))"

record ('u, 'p) engine =
  en_commands :: "'u binary_package \<Rightarrow> string \<Rightarrow> (error + wasi_annotation option) option"
  en_merge :: "'u \<Rightarrow> 'u \<Rightarrow> error + 'u"
  en_duplicate :: "'u \<Rightarrow> 'u"
  en_build :: "'u launch \<Rightarrow> error + 'p"
  en_observe :: "'p \<Rightarrow> spawned \<times> ended"

definition wasi_new :: wasi_annotation where
  "wasi_new = \<lparr>wa_exec_name = None, wa_cwd = None, wa_main_args = None, wa_env = None\<rparr>"

definition run_package_command ::
  "('u, 'p) engine \<Rightarrow> string list \<Rightarrow> (string \<times> string) list \<Rightarrow> path \<Rightarrow> string \<Rightarrow> 'u binary_package \<Rightarrow>
     'u binary_package list \<Rightarrow> nat option \<Rightarrow> error + i32" where
  "run_package_command en args env cwd command_name package injected wall_time =
     (case en_commands en package command_name of
        None \<Rightarrow> Inl (Msg (''package does not contain command '' @ command_name))
      | Some (Inl e) \<Rightarrow> Inl e
      | Some (Inr annotation) \<Rightarrow>
          let wasi = (case annotation of Some wasi \<Rightarrow> wasi | None \<Rightarrow> wasi_new) in
          (case process_package_files (en_merge en) (en_duplicate en) package injected of
             Inl e \<Rightarrow> Inl e
           | Inr files \<Rightarrow>
               (case en_build en (build_launch command_name wasi args env cwd files wall_time) of
                  Inl e \<Rightarrow> Inl e
                | Inr p \<Rightarrow> fst (wait_for wall_time (fst (en_observe en p)) (snd (en_observe en p))))))"

section \<open>Commands\<close>

definition run_virtual_command ::
  "(process_payload \<Rightarrow> error + bytes) \<Rightarrow> (bytes \<Rightarrow> string) \<Rightarrow> (bytes \<Rightarrow> nat option \<Rightarrow> bytes outcome) \<Rightarrow>
     string list \<Rightarrow> bytes \<Rightarrow> (string \<times> string) list \<Rightarrow> path \<Rightarrow> resolved_executable \<Rightarrow> nat option \<Rightarrow>
     completed_process outcome" where
  "run_virtual_command to_json b64 call args input env cwd target wall_time =
     (case to_json \<lparr>vp_handler_token = re_token target, vp_executable_path = re_path target, vp_argv = args,
             vp_cwd = cwd, vp_env = env, vp_stdin = b64 input\<rparr> of
        Inl e \<Rightarrow> Done (Inl e)
      | Inr payload \<Rightarrow>
          (case call payload wall_time of
             Unfinished \<Rightarrow> Unfinished
           | Panic \<Rightarrow> Panic
           | Done (Inl e) \<Rightarrow> Done (Inl e)
           | Done (Inr response) \<Rightarrow>
               (case decode_response response of
                  Inl e \<Rightarrow> Done (Inl (Context ''invalid virtual executable response'' e))
                | Inr r \<Rightarrow> Done (Inr \<lparr>cp_args = args, cp_returncode = rp_returncode r,
                    cp_stdout = rp_stdout r, cp_stderr = rp_stderr r\<rparr>))))"

text \<open>\<open>invoke_blocking\<close> as a call that returns, panics or is still waiting.\<close>

definition bridge_call :: "nat \<Rightarrow> observation list \<Rightarrow> u64 \<Rightarrow> bytes \<Rightarrow> nat option \<Rightarrow> bytes outcome" where
  "bridge_call start obs sequence payload wall_time =
     (case fst (invoke_blocking payload wall_time start obs sequence) of
        Running \<Rightarrow> Unfinished
      | Panicked \<Rightarrow> Panic
      | Returned r \<Rightarrow> Done r)"

text \<open>
  \<open>streams\<close> holds the two capture buffers as they are when the process has ended and \<open>stdin\<close> the outcome
  of reading the input to its end, which only a virtual command does; \<open>None\<close> while it has not ended.
\<close>

definition run_with_stdio ::
  "('s, 'f, 'm, 'h) world \<Rightarrow> ('u, 'p) engine \<Rightarrow> (process_payload \<Rightarrow> error + bytes) \<Rightarrow> (bytes \<Rightarrow> string) \<Rightarrow>
     (bytes \<Rightarrow> nat option \<Rightarrow> bytes outcome) \<Rightarrow> ('s, 'u) sandbox \<Rightarrow> run_request \<Rightarrow>
     (io_error + bytes) option \<Rightarrow> capture_state \<times> capture_state \<Rightarrow> completed_process outcome" where
  "run_with_stdio w en to_json b64 call sb request stdin streams =
     (case rq_args request of
        [] \<Rightarrow> Done (Inl ArgsEmpty)
      | command # rest \<Rightarrow>
          let args = rq_args request;
              env = (case rq_env request of Some overrides \<Rightarrow> extend_env (sb_env sb) overrides | None \<Rightarrow> sb_env sb);
              cwd = (case rq_cwd request of Some cwd \<Rightarrow> cwd | None \<Rightarrow> sb_cwd sb)
          in case normalize_path cwd of
               Inl e \<Rightarrow> Done (Inl e)
             | Inr cwd \<Rightarrow>
          (case validate_directory (w_fs w) cwd ''cwd'' (sb_fs sb) of
             Inl e \<Rightarrow> Done (Inl e)
           | Inr _ \<Rightarrow>
          (case (case li_wall_time_seconds (rq_limits request) of
                   Some seconds \<Rightarrow>
                     (case duration_from_seconds seconds of
                        Done (Inr d) \<Rightarrow> Done (Inr (Some d)) | Done (Inl e) \<Rightarrow> Done (Inl e)
                      | Panic \<Rightarrow> Panic | Unfinished \<Rightarrow> Unfinished)
                 | None \<Rightarrow> Done (Inr None)) of
             Unfinished \<Rightarrow> Unfinished
           | Panic \<Rightarrow> Panic
           | Done (Inl e) \<Rightarrow> Done (Inl e)
           | Done (Inr wall_time) \<Rightarrow>
          (case resolve_command (sb_catalog sb) (sb_virtual sb) command cwd (map_of env ''PATH'') of
             Inl e \<Rightarrow> Done (Inl e)
           | Inr (Virtual target) \<Rightarrow>
               (case stdin of
                  None \<Rightarrow> Unfinished
                | Some (Inl e) \<Rightarrow> Done (Inl (Context ''unable to read process stdin'' (IoErr e)))
                | Some (Inr input) \<Rightarrow> run_virtual_command to_json b64 call args input env cwd target wall_time)
           | Inr (Package target) \<Rightarrow>
               (case map_of (cat_packages (sb_catalog sb)) (ct_package target) of
                  None \<Rightarrow> Done (Inl (PackageNotLoaded (ct_package target)))
                | Some package \<Rightarrow>
                    let run_result = run_package_command en rest env cwd (ct_command target) package
                          (injected_packages (sb_catalog sb) (ct_package target)) wall_time
                    in (case capture ''stdout'' (fst streams) of
                          Inl e \<Rightarrow> Done (Inl e)
                        | Inr stdout \<Rightarrow>
                            (case capture ''stderr'' (snd streams) of
                               Inl e \<Rightarrow> Done (Inl e)
                             | Inr stderr \<Rightarrow>
                                 (case run_result of
                                    Inl e \<Rightarrow> Done (Inl e)
                                  | Inr returncode \<Rightarrow>
                                      (case normalize_process_outcome (ct_command target) returncode stderr of
                                         (returncode, stderr) \<Rightarrow>
                                           Done (Inr \<lparr>cp_args = args, cp_returncode = returncode,
                                             cp_stdout = stdout, cp_stderr = stderr\<rparr>))))))))))"

text \<open>
  \<open>run\<close>: the input is a static file that is read to its end at once, and the streams start empty with
  the limit of the request; \<open>writes\<close> is what the process does to them.
\<close>

definition run ::
  "('s, 'f, 'm, 'h) world \<Rightarrow> ('u, 'p) engine \<Rightarrow> (process_payload \<Rightarrow> error + bytes) \<Rightarrow> (bytes \<Rightarrow> string) \<Rightarrow>
     (bytes \<Rightarrow> nat option \<Rightarrow> bytes outcome) \<Rightarrow> (capture_state \<Rightarrow> capture_state) \<times> (capture_state \<Rightarrow> capture_state) \<Rightarrow>
     ('s, 'u) sandbox \<Rightarrow> run_request \<Rightarrow> completed_process outcome" where
  "run w en to_json b64 call writes sb request =
     (let input = (case rq_input request of Some input \<Rightarrow> input | None \<Rightarrow> []);
          new_stream = capture_new (li_output_bytes (rq_limits request))
      in run_with_stdio w en to_json b64 call sb (request\<lparr>rq_input := None\<rparr>) (Some (Inr input))
           (fst writes new_stream, snd writes new_stream))"

section \<open>Wall times\<close>

text \<open>
  Which wall times are accepted: a number that is not finite or not positive is refused with an
  error, a positive finite number below \<open>2 ^ 64\<close> seconds gives a duration, and every larger finite
  number, although positive and finite, makes the call panic.
\<close>

theorem duration_from_seconds_cases:
  "duration_from_seconds seconds =
     (case seconds of
        Finite m e \<Rightarrow>
          if m \<le> 0 then Done (Inl WallTimeInvalid)
          else if nanos_of m e < 2 ^ 64 * 1000000000 then Done (Inr (nat (nanos_of m e)))
          else Panic
      | _ \<Rightarrow> Done (Inl WallTimeInvalid))"
  by (auto simp: duration_from_seconds_def is_finite_def not_positive_def from_secs_f64_def split: f64.splits)

section \<open>Results of package commands\<close>

text \<open>
  What \<open>run_with_stdio\<close> establishes before it starts anything: arguments, environment, working
  directory, wall time and the meaning of the command.
\<close>

definition prepared ::
  "('s, 'f, 'm, 'h) world \<Rightarrow> ('s, 'u) sandbox \<Rightarrow> run_request \<Rightarrow> string list \<Rightarrow> (string \<times> string) list \<Rightarrow> path \<Rightarrow>
     nat option \<Rightarrow> resolved_command \<Rightarrow> bool" where
  "prepared w sb request rest env cwd wall_time target \<longleftrightarrow>
     (\<exists>command. rq_args request = command # rest \<and>
        env = (case rq_env request of Some overrides \<Rightarrow> extend_env (sb_env sb) overrides | None \<Rightarrow> sb_env sb) \<and>
        normalize_path (case rq_cwd request of Some cwd \<Rightarrow> cwd | None \<Rightarrow> sb_cwd sb) = Inr cwd \<and>
        validate_directory (w_fs w) cwd ''cwd'' (sb_fs sb) = Inr () \<and>
        (case li_wall_time_seconds (rq_limits request) of
           None \<Rightarrow> wall_time = None
         | Some seconds \<Rightarrow> \<exists>d. duration_from_seconds seconds = Done (Inr d) \<and> wall_time = Some d) \<and>
        resolve_command (sb_catalog sb) (sb_virtual sb) command cwd (map_of env ''PATH'') = Inr target)"

lemma run_prepared_package:
  assumes "prepared w sb request rest env cwd wall_time (Package target)"
    "map_of (cat_packages (sb_catalog sb)) (ct_package target) = Some package"
  shows "run_with_stdio w en to_json b64 call sb request stdin streams =
    (case capture ''stdout'' (fst streams) of
       Inl e \<Rightarrow> Done (Inl e)
     | Inr stdout \<Rightarrow>
         (case capture ''stderr'' (snd streams) of
            Inl e \<Rightarrow> Done (Inl e)
          | Inr stderr \<Rightarrow>
              (case run_package_command en rest env cwd (ct_command target) package
                      (injected_packages (sb_catalog sb) (ct_package target)) wall_time of
                 Inl e \<Rightarrow> Done (Inl e)
               | Inr returncode \<Rightarrow>
                   (case normalize_process_outcome (ct_command target) returncode stderr of
                      (returncode, stderr) \<Rightarrow>
                        Done (Inr \<lparr>cp_args = rq_args request, cp_returncode = returncode,
                          cp_stdout = stdout, cp_stderr = stderr\<rparr>)))))"
  using assms
  by (auto simp: prepared_def run_with_stdio_def Let_def split: option.splits sum.splits prod.splits)

lemma run_prepared_virtual:
  assumes "prepared w sb request rest env cwd wall_time (Virtual target)"
  shows "run_with_stdio w en to_json b64 call sb request stdin streams =
    (case stdin of
       None \<Rightarrow> Unfinished
     | Some (Inl e) \<Rightarrow> Done (Inl (Context ''unable to read process stdin'' (IoErr e)))
     | Some (Inr input) \<Rightarrow> run_virtual_command to_json b64 call (rq_args request) input env cwd target wall_time)"
  using assms
  by (auto simp: prepared_def run_with_stdio_def Let_def split: option.splits sum.splits prod.splits)

lemma capture_of_writes:
  "capture name (fst (write_bufs bufs (capture_new limit) cursor)) =
     (if length (concat bufs) \<le> limit then Inr (concat bufs) else Inl (OutputExceeded name limit))"
proof -
  have "captured limit ([] @ concat bufs) (fst (write_bufs bufs (capture_new limit) cursor))"
    by (rule captured_writes [OF captured_new])
  then show ?thesis by (auto simp: captured_def capture_def)
qed

lemma prepared_input [simp]:
  "prepared w sb (request\<lparr>rq_input := i\<rparr>) rest env cwd wall_time target \<longleftrightarrow>
   prepared w sb request rest env cwd wall_time target"
  by (simp add: prepared_def)

definition request_example :: "string \<Rightarrow> run_request" where
  "request_example command = \<lparr>rq_args = [command, ''-v''], rq_input = None, rq_env = None, rq_cwd = None,
     rq_limits = \<lparr>li_output_bytes = 3, li_wall_time_seconds = Some (Finite 3 (- 1))\<rparr>\<rparr>"

definition run_example :: "(mem_state, unit) sandbox" where
  "run_example = sandbox_example\<lparr>sb_catalog := catalog_example\<lparr>cat_packages :=
     [(''p'', \<lparr>bp_commands = [''tool''], bp_webc_fs = None\<rparr>)]\<rparr>\<rparr>"

definition engine_example :: "(unit, unit) engine" where
  "engine_example = \<lparr>en_commands = (\<lambda>package command. Some (Inr None)), en_merge = (\<lambda>a b. Inr a),
     en_duplicate = (\<lambda>a. a), en_build = (\<lambda>launch. Inr ()), en_observe = (\<lambda>p. (Spawned, Exited 5))\<rparr>"

lemma prepared_example_package:
  "prepared mem_world run_example (request_example ''tool'') [''-v''] default_env ''/etc'' (Some 1500000000)
     (Package \<lparr>ct_package = ''p'', ct_command = ''tool''\<rparr>)"
proof -
  have "normalize_path (sb_cwd run_example) = Inr ''/etc''"
    "validate_directory (w_fs mem_world) ''/etc'' ''cwd'' (sb_fs run_example) = Inr ()"
    "resolve_command (sb_catalog run_example) (sb_virtual run_example) ''tool'' ''/etc''
       (map_of default_env ''PATH'') = Inr (Package \<lparr>ct_package = ''p'', ct_command = ''tool''\<rparr>)"
    "sb_env run_example = default_env" by code_simp+
  then show ?thesis
    by (simp add: prepared_def request_example_def duration_from_seconds_def is_finite_def not_positive_def
        from_secs_f64_def nanos_of_def round_half_even_def)
qed

lemma prepared_example_virtual:
  "prepared mem_world run_example (request_example ''/opt/tool'') [''-v''] default_env ''/etc'' (Some 1500000000)
     (Virtual \<lparr>re_token = 7, re_path = ''/opt/tool''\<rparr>)"
proof -
  have "normalize_path (sb_cwd run_example) = Inr ''/etc''"
    "validate_directory (w_fs mem_world) ''/etc'' ''cwd'' (sb_fs run_example) = Inr ()"
    "resolve_command (sb_catalog run_example) (sb_virtual run_example) ''/opt/tool'' ''/etc''
       (map_of default_env ''PATH'') = Inr (Virtual \<lparr>re_token = 7, re_path = ''/opt/tool''\<rparr>)"
    "sb_env run_example = default_env" by code_simp+
  then show ?thesis
    by (simp add: prepared_def request_example_def duration_from_seconds_def is_finite_def not_positive_def
        from_secs_f64_def nanos_of_def round_half_even_def)
qed

text \<open>
  C21. What \<open>run\<close> returns for a package command. If the process writes the buffers \<open>out\<close> and \<open>err\<close>, the
  call fails with the limit error of stdout if \<open>out\<close> is longer than the limit, else with that of stderr
  if \<open>err\<close> is, whatever became of the process; else with the error of the process if it failed; else it
  returns the return code of the process and exactly the bytes of both streams. The one exception is
  the command \<open>find\<close> when it exits with 1 and its whole stderr is the message about the initial working
  directory: then the return code is 0 and stderr is empty.
\<close>

theorem run_package_result:
  assumes "prepared w sb request rest env cwd wall_time (Package target)"
    "map_of (cat_packages (sb_catalog sb)) (ct_package target) = Some package"
    "limit = li_output_bytes (rq_limits request)"
  shows "run w en to_json b64 call (\<lambda>st. fst (write_bufs out st c), \<lambda>st. fst (write_bufs err st d)) sb request =
    Done (if limit < length (concat out) then Inl (OutputExceeded ''stdout'' limit)
          else if limit < length (concat err) then Inl (OutputExceeded ''stderr'' limit)
          else case run_package_command en rest env cwd (ct_command target) package
                 (injected_packages (sb_catalog sb) (ct_package target)) wall_time of
            Inl e \<Rightarrow> Inl e
          | Inr code \<Rightarrow>
              if ct_command target = ''find'' \<and> code = 1 \<and> concat err =
                  into_bytes (''(null): Failed to restore initial working directory: Not a directory'' @ [CHR 0x0A])
              then Inr \<lparr>cp_args = rq_args request, cp_returncode = 0, cp_stdout = concat out, cp_stderr = []\<rparr>
              else Inr \<lparr>cp_args = rq_args request, cp_returncode = code, cp_stdout = concat out,
                        cp_stderr = concat err\<rparr>)"
  using assms
  by (auto simp: run_def Let_def run_prepared_package [where rest = rest and env = env and cwd = cwd and
        wall_time = wall_time and target = target and package = package] capture_of_writes
        normalize_process_outcome_def find_cwd_restore_error_def
      split: sum.splits prod.splits)

theorem run_package_result_witness:
  "run mem_world engine_example (\<lambda>p. Inr []) from_bytes (\<lambda>p t. Unfinished)
     (\<lambda>st. fst (write_bufs [[1], [2, 3]] st 0), \<lambda>st. fst (write_bufs [[4]] st 0)) run_example (request_example ''tool'') =
   Done (Inr \<lparr>cp_args = [''tool'', ''-v''], cp_returncode = 5, cp_stdout = [1, 2, 3], cp_stderr = [4]\<rparr>)"
  by (subst run_package_result [OF prepared_example_package, where limit = 3 and
        package = "\<lparr>bp_commands = [''tool''], bp_webc_fs = None\<rparr>"])
    (simp_all add: run_example_def request_example_def run_package_command_def engine_example_def Let_def
      process_package_files_def injected_packages_def wait_for_def)

text \<open>Wall times as they appear in the error message.\<close>

lemma show_seconds_examples:
  "show_seconds 1500000000 = ''1.500''" "show_seconds 62500000 = ''0.062''" "show_seconds 1000600000 = ''1.001''"
  by (simp_all add: show_seconds_def as_secs_f64_def f64_of_ratio_def scaled_def round_half_even_def
      bit_count.simps show_nat_def Let_def) code_simp+

section \<open>Results of virtual commands\<close>

text \<open>
  C22. A virtual command returns what its handler answered. If the input could be read, the request
  can be encoded, the host took it and answered with an encoded response before any cancellation and
  before the deadline, then the call returns exactly the handler's return code, stdout and stderr;
  the limit on output bytes plays no role.
\<close>

theorem run_virtual_result:
  assumes "prepared w sb request rest env cwd wall_time (Virtual target)"
    "to_json \<lparr>vp_handler_token = re_token target, vp_executable_path = re_path target, vp_argv = rq_args request,
       vp_cwd = cwd, vp_env = env, vp_stdin = b64 input\<rparr> = Inr payload"
    "deadline_of wall_time start = Some deadline"
    "until (\<lambda>ob. \<not> stops deadline ob \<and> ob_send ob = SendFull)
      (\<lambda>ob rest. \<not> stops deadline ob \<and> ob_send ob = SendOk \<and>
         until (\<lambda>ob. \<not> stops deadline ob \<and> ob_recv ob = RecvTimeout)
           (\<lambda>ob rest. \<not> stops deadline ob \<and> ob_recv ob = Received (encode_response r)) rest) obs"
    "length (rp_stdout r) < 2 ^ 32" "length (rp_stderr r) < 2 ^ 32"
  shows "run_with_stdio w en to_json b64 (bridge_call start obs sequence) sb request (Some (Inr input)) streams =
    Done (Inr \<lparr>cp_args = rq_args request, cp_returncode = rp_returncode r, cp_stdout = rp_stdout r,
      cp_stderr = rp_stderr r\<rparr>)"
proof -
  have "fst (invoke_blocking payload wall_time start obs sequence) = Returned (Inr (encode_response r))"
    using assms(3,4) by (simp add: invoke_blocking_fst send_success_iff)
  then have "bridge_call start obs sequence payload wall_time = Done (Inr (encode_response r))"
    by (simp add: bridge_call_def)
  with assms(2) decode_encode [of r "[]"] assms(5,6) show ?thesis
    by (simp add: run_prepared_virtual [OF assms(1)] run_virtual_command_def)
qed

text \<open>
  A virtual command waits for the end of its input without looking at the clock or at a
  cancellation: while the input has not ended the call has not returned, whatever wall time was set
  and whatever the host does.
\<close>

theorem virtual_command_waits_for_stdin:
  assumes "prepared w sb request rest env cwd wall_time (Virtual target)"
  shows "run_with_stdio w en to_json b64 call sb request None streams = Unfinished"
  by (simp add: run_prepared_virtual [OF assms])

theorem run_virtual_result_witness:
  "run_with_stdio mem_world engine_example (\<lambda>p. Inr (into_bytes (vp_executable_path p))) from_bytes
     (bridge_call 5 [quiet 6, quiet 7,
       (quiet 8)\<lparr>ob_recv := Received (encode_response \<lparr>rp_returncode = 0, rp_stdout = [1, 2, 3, 4], rp_stderr = []\<rparr>)\<rparr>] 0)
     run_example (request_example ''/opt/tool'') (Some (Inr [])) (capture_new 3, capture_new 3) =
   Done (Inr \<lparr>cp_args = [''/opt/tool'', ''-v''], cp_returncode = 0, cp_stdout = [1, 2, 3, 4], cp_stderr = []\<rparr>)"
  by (subst run_virtual_result [OF prepared_example_virtual, where deadline = "Some 1500000005" and
        r = "\<lparr>rp_returncode = 0, rp_stdout = [1, 2, 3, 4], rp_stderr = []\<rparr>"])
    (simp_all add: deadline_of_def instant_add_def quiet_def stops_def expired_def request_example_def)

theorem virtual_command_waits_for_stdin_witness:
  "run_with_stdio mem_world engine_example (\<lambda>p. Inr []) from_bytes (\<lambda>p t. Done (Inl ProcessCancelled))
     run_example (request_example ''/opt/tool'') None (capture_new 3, capture_new 3) = Unfinished"
  by (rule virtual_command_waits_for_stdin [OF prepared_example_virtual])

end
