(* ===== verification/Interactive_Stdin.thy ===== *)
theory Interactive_Stdin
  imports Errors
begin

text \<open>
  The standard input of a started process: \<open>InteractiveStdin\<close> (the host's end),
  \<open>InteractiveStdinState\<close> and \<open>InteractiveStdinFile\<close> (the guest's end) of \<open>src/core.rs\<close>.
  Both ends share the state through \<open>Arc<Mutex<..>>\<close>. A task is a number; \<open>in_waker\<close> is the task
  whose \<open>Waker\<close> is stored, and an operation that calls \<open>waker.wake()\<close> returns the task it wakes.
\<close>

record stdin_state =
  in_data :: bytes
  in_closed :: bool
  in_waker :: "nat option"
  in_poisoned :: bool

section \<open>The host's end\<close>

definition stdin_new :: stdin_state where
  "stdin_new = \<lparr>in_data = [], in_closed = False, in_waker = None, in_poisoned = False\<rparr>"

definition stdin_write ::
  "bytes \<Rightarrow> stdin_state \<Rightarrow> (error + unit) \<times> nat option \<times> stdin_state" where
  "stdin_write data st =
     (if in_poisoned st then (Inl StdinLockFailed, None, st)
      else if in_closed st then (Inl StdinClosed, None, st)
      else (Inr (), in_waker st, st\<lparr>in_data := in_data st @ data, in_waker := None\<rparr>))"

definition stdin_close :: "stdin_state \<Rightarrow> (error + unit) \<times> nat option \<times> stdin_state" where
  "stdin_close st =
     (if in_poisoned st then (Inl StdinLockFailed, None, st)
      else (Inr (), in_waker st, st\<lparr>in_closed := True, in_waker := None\<rparr>))"

definition stdin_is_closed :: "stdin_state \<Rightarrow> error + bool" where
  "stdin_is_closed st = (if in_poisoned st then Inl StdinLockFailed else Inr (in_closed st))"

section \<open>The guest's end\<close>

definition stdin_start_seek :: "io_error + unit" where
  "stdin_start_seek = Inl StdinNotSeekable"

definition stdin_poll_complete :: "(io_error + u64) poll" where
  "stdin_poll_complete = Ready (Inr 0)"

definition stdin_poll_read ::
  "nat \<Rightarrow> nat \<Rightarrow> stdin_state \<Rightarrow> (io_error + bytes) poll \<times> stdin_state" where
  "stdin_poll_read task remaining st =
     (if remaining = 0 then (Ready (Inr []), st)
      else if in_poisoned st then (Ready (Inl StdinLockFailedIo), st)
      else if in_data st = [] \<and> in_closed st then (Ready (Inr []), st)
      else if in_data st = [] then (Pending, st\<lparr>in_waker := Some task\<rparr>)
      else
        let read_len = min remaining (length (in_data st))
        in (Ready (Inr (take read_len (in_data st))), st\<lparr>in_data := drop read_len (in_data st)\<rparr>))"

definition stdin_poll_write :: "bytes \<Rightarrow> (io_error + nat) poll" where
  "stdin_poll_write buf = Ready (Inl StdinNotWritable)"

definition stdin_poll_flush :: "(io_error + unit) poll" where
  "stdin_poll_flush = Ready (Inr ())"

definition stdin_poll_shutdown :: "(io_error + unit) poll" where
  "stdin_poll_shutdown = Ready (Inr ())"

definition stdin_timestamp :: u64 where
  "stdin_timestamp = 1000000000"

definition stdin_size :: "stdin_state \<Rightarrow> u64" where
  "stdin_size st = (if in_poisoned st then 0 else of_nat (length (in_data st)))"

definition stdin_set_len :: "u64 \<Rightarrow> fs_error + unit" where
  "stdin_set_len new_size = Inl PermissionDenied"

definition stdin_unlink :: "fs_error + unit" where
  "stdin_unlink = Inl PermissionDenied"

definition stdin_poll_read_ready ::
  "nat \<Rightarrow> stdin_state \<Rightarrow> (io_error + nat) poll \<times> stdin_state" where
  "stdin_poll_read_ready task st =
     (if in_poisoned st then (Ready (Inl StdinLockFailedIo), st)
      else if in_data st \<noteq> [] then (Ready (Inr (length (in_data st))), st)
      else if in_closed st then (Ready (Inr 0), st)
      else (Pending, st\<lparr>in_waker := Some task\<rparr>))"

definition stdin_poll_write_ready :: "(io_error + nat) poll" where
  "stdin_poll_write_ready = Ready (Inl StdinNotWritable)"

section \<open>Runs\<close>

text \<open>
  Any number of reader tasks and of host calls, interleaved in the order in which they take the
  lock; a guest can poll its input from several threads, or with \<open>poll_read\<close> and \<open>poll_read_ready\<close> at
  once. The history records what the host's successful writes handed over, what successful reads
  received, and which tasks are asleep: their last poll was \<open>Pending\<close> and they have not been woken
  since. The state has room for one waker, and \<open>hs_displaced\<close> are the sleeping tasks whose waker was
  in that place when a \<open>Pending\<close> poll of another task put its own there.
\<close>

datatype stdin_op =
    HostWrite bytes
  | HostClose
  | GuestRead nat nat
  | GuestReadReady nat

record stdin_history =
  hs_state :: stdin_state
  hs_accepted :: bytes
  hs_delivered :: bytes
  hs_asleep :: "nat set"
  hs_displaced :: "nat set"

definition stdin_start :: stdin_history where
  "stdin_start = \<lparr>hs_state = stdin_new, hs_accepted = [], hs_delivered = [], hs_asleep = {}, hs_displaced = {}\<rparr>"

definition sleeps :: "nat \<Rightarrow> stdin_state \<Rightarrow> stdin_history \<Rightarrow> stdin_history" where
  "sleeps task st h =
     h\<lparr>hs_state := st, hs_asleep := insert task (hs_asleep h),
       hs_displaced := (hs_displaced h \<union> (set_option (in_waker (hs_state h)) \<inter> hs_asleep h)) - {task}\<rparr>"

definition awake :: "nat \<Rightarrow> stdin_state \<Rightarrow> stdin_history \<Rightarrow> stdin_history" where
  "awake task st h =
     h\<lparr>hs_state := st, hs_asleep := hs_asleep h - {task}, hs_displaced := hs_displaced h - {task}\<rparr>"

fun stdin_step :: "stdin_history \<Rightarrow> stdin_op \<Rightarrow> stdin_history" where
  "stdin_step h (HostWrite data) =
     (case stdin_write data (hs_state h) of (r, woken, st) \<Rightarrow>
        h\<lparr>hs_state := st,
          hs_accepted := hs_accepted h @ (case r of Inr _ \<Rightarrow> data | Inl _ \<Rightarrow> []),
          hs_asleep := hs_asleep h - set_option woken\<rparr>)"
| "stdin_step h HostClose =
     (case stdin_close (hs_state h) of (r, woken, st) \<Rightarrow>
        h\<lparr>hs_state := st, hs_asleep := hs_asleep h - set_option woken\<rparr>)"
| "stdin_step h (GuestRead task remaining) =
     (case stdin_poll_read task remaining (hs_state h) of
        (Pending, st) \<Rightarrow> sleeps task st h
      | (Ready r, st) \<Rightarrow>
          (awake task st h)\<lparr>hs_delivered := hs_delivered h @ (case r of Inr bs \<Rightarrow> bs | Inl _ \<Rightarrow> [])\<rparr>)"
| "stdin_step h (GuestReadReady task) =
     (case stdin_poll_read_ready task (hs_state h) of
        (Pending, st) \<Rightarrow> sleeps task st h
      | (Ready r, st) \<Rightarrow> awake task st h)"

text \<open>
  The invariant: nothing is lost, duplicated or reordered between the two ends; a stored waker
  means there is nothing to read and the stream is open; the waker of a sleeping task is stored
  unless it was displaced.
\<close>

definition stdin_inv :: "stdin_history \<Rightarrow> bool" where
  "stdin_inv h \<longleftrightarrow>
     hs_accepted h = hs_delivered h @ in_data (hs_state h) \<and>
     (in_waker (hs_state h) \<noteq> None \<longrightarrow> in_data (hs_state h) = [] \<and> \<not> in_closed (hs_state h)) \<and>
     hs_asleep h \<subseteq> hs_displaced h \<union> set_option (in_waker (hs_state h)) \<and>
     hs_displaced h \<inter> set_option (in_waker (hs_state h)) = {} \<and>
     \<not> in_poisoned (hs_state h)"

lemma stdin_inv_start [simp]: "stdin_inv stdin_start"
  by (simp add: stdin_inv_def stdin_start_def stdin_new_def)

lemmas stdin_defs = stdin_write_def stdin_close_def stdin_poll_read_def stdin_poll_read_ready_def

lemma stdin_step_inv: "stdin_inv h \<Longrightarrow> stdin_inv (stdin_step h x)"
  by (cases x) (auto simp: stdin_inv_def stdin_defs sleeps_def awake_def Let_def)

interpretation stdin: machine stdin_step stdin_inv
  by unfold_locales (rule stdin_step_inv)

lemma stdin_run_inv: "stdin_inv (foldl stdin_step stdin_start ops)"
  by (rule stdin.run_inv) simp

text \<open>
  C27. In every interleaving of host writes, a close and the reads of any guest tasks, the guest has
  received a prefix of the accepted input, in order and without gaps or repetitions, and the rest is
  what the buffer still holds.
\<close>

theorem stdin_fifo:
  "hs_accepted (foldl stdin_step stdin_start ops) =
     hs_delivered (foldl stdin_step stdin_start ops) @
     in_data (hs_state (foldl stdin_step stdin_start ops))"
  using stdin_run_inv [of ops] by (simp add: stdin_inv_def)

text \<open>
  C28. End of file is never premature and never ambiguous: when a read with room in its buffer
  returns no bytes, the host has closed the stream, everything the host wrote has been received,
  and every later write is refused.
\<close>

theorem stdin_eof:
  assumes "h = foldl stdin_step stdin_start ops" and "0 < remaining"
    and "fst (stdin_poll_read task remaining (hs_state h)) = Ready (Inr [])"
  shows "in_closed (hs_state h) \<and> hs_delivered h = hs_accepted h \<and>
         fst (stdin_write data (hs_state h)) = Inl StdinClosed"
proof -
  have "stdin_inv h" using stdin_run_inv assms(1) by simp
  with assms(2,3) show ?thesis
    by (auto simp: stdin_inv_def stdin_defs Let_def min_def split: if_splits)
qed

theorem stdin_eof_witness:
  "let h = foldl stdin_step stdin_start [HostWrite [1, 2], GuestRead 0 5, HostClose] in
     fst (stdin_poll_read 0 5 (hs_state h)) = Ready (Inr []) \<and> hs_delivered h = hs_accepted h \<and>
     fst (stdin_write [3] (hs_state h)) = Inl StdinClosed"
proof -
  let ?h = "foldl stdin_step stdin_start [HostWrite [1, 2], GuestRead 0 5, HostClose]"
  have eof: "fst (stdin_poll_read 0 5 (hs_state ?h)) = Ready (Inr [])"
    by (simp add: stdin_defs stdin_start_def stdin_new_def awake_def)
  with stdin_eof [OF refl _ eof, of "[3]"] show ?thesis by simp
qed

text \<open>The task that polls in a step, if it is a poll.\<close>

fun poller :: "stdin_op \<Rightarrow> nat option" where
  "poller (GuestRead task remaining) = Some task"
| "poller (GuestReadReady task) = Some task"
| "poller _ = None"

lemma sole_step:
  assumes "poller x \<in> {None, Some t}" "hs_displaced h = {}" "hs_asleep h \<subseteq> {t}"
  shows "hs_displaced (stdin_step h x) = {} \<and> hs_asleep (stdin_step h x) \<subseteq> {t}"
  using assms
  by (cases x) (auto simp: stdin_defs sleeps_def awake_def Let_def split: if_splits)

lemma sole_run:
  assumes "list_all (\<lambda>x. poller x \<in> {None, Some t}) ops" "hs_displaced h = {}" "hs_asleep h \<subseteq> {t}"
  shows "hs_displaced (foldl stdin_step h ops) = {}"
  using assms
proof (induction ops arbitrary: h)
  case (Cons x ops)
  then show ?case using sole_step [of x t h] by simp
qed simp

text \<open>
  C29. Who is woken, with any number of reader tasks. A task that sleeps and whose waker was not displaced
  by the poll of another task has nothing to read, the stream is open, and the next host write or close
  wakes exactly that task: it loses no wake-up. A task whose waker was displaced is not woken by the
  next write or close, even though it sleeps: the state keeps one waker only. If one task alone polls the
  stream, its waker is never displaced.
\<close>

theorem stdin_no_lost_wakeup:
  assumes "h = foldl stdin_step stdin_start ops" and "t \<in> hs_asleep h"
  shows "(if t \<in> hs_displaced h
          then fst (snd (stdin_write data (hs_state h))) \<noteq> Some t \<and> fst (snd (stdin_close (hs_state h))) \<noteq> Some t
          else in_data (hs_state h) = [] \<and> \<not> in_closed (hs_state h) \<and>
               fst (snd (stdin_write data (hs_state h))) = Some t \<and> fst (snd (stdin_close (hs_state h))) = Some t) \<and>
         (list_all (\<lambda>x. poller x \<in> {None, Some t}) ops \<longrightarrow> t \<notin> hs_displaced h)"
proof
  have "stdin_inv h" using stdin_run_inv assms(1) by simp
  with assms(2) show "if t \<in> hs_displaced h
      then fst (snd (stdin_write data (hs_state h))) \<noteq> Some t \<and> fst (snd (stdin_close (hs_state h))) \<noteq> Some t
      else in_data (hs_state h) = [] \<and> \<not> in_closed (hs_state h) \<and>
           fst (snd (stdin_write data (hs_state h))) = Some t \<and> fst (snd (stdin_close (hs_state h))) = Some t"
    by (auto simp: stdin_inv_def stdin_write_def stdin_close_def)
  show "list_all (\<lambda>x. poller x \<in> {None, Some t}) ops \<longrightarrow> t \<notin> hs_displaced h"
    using sole_run [of t ops stdin_start] assms(1) by (simp add: stdin_start_def)
qed

text \<open>A sole reader, and the reader of a pair whose waker the other one displaced.\<close>

theorem stdin_no_lost_wakeup_witness:
  "(let h = foldl stdin_step stdin_start [HostWrite [1], GuestRead 3 4, GuestRead 3 4] in
      3 \<in> hs_asleep h \<and> fst (snd (stdin_write [9] (hs_state h))) = Some 3) \<and>
   (let h = foldl stdin_step stdin_start [GuestRead 3 4, GuestReadReady 5] in
      3 \<in> hs_asleep h \<and> fst (snd (stdin_write [9] (hs_state h))) \<noteq> Some 3)"
proof
  let ?h = "foldl stdin_step stdin_start [HostWrite [1], GuestRead 3 4, GuestRead 3 4]"
  have "3 \<in> hs_asleep ?h" "3 \<notin> hs_displaced ?h"
    by (simp_all add: stdin_defs stdin_start_def stdin_new_def sleeps_def awake_def)
  with stdin_no_lost_wakeup [OF refl this(1), of "[9]"]
  show "let h = ?h in 3 \<in> hs_asleep h \<and> fst (snd (stdin_write [9] (hs_state h))) = Some 3" by (simp del: foldl.simps)
next
  let ?h = "foldl stdin_step stdin_start [GuestRead 3 4, GuestReadReady 5]"
  have "3 \<in> hs_asleep ?h" "3 \<in> hs_displaced ?h"
    by (simp_all add: stdin_defs stdin_start_def stdin_new_def sleeps_def)
  with stdin_no_lost_wakeup [OF refl this(1), of "[9]"]
  show "let h = ?h in 3 \<in> hs_asleep h \<and> fst (snd (stdin_write [9] (hs_state h))) \<noteq> Some 3" by (simp del: foldl.simps)
qed

section \<open>Reading to the end\<close>

text \<open>
  \<open>PackageCatalog::read_stdin_to_end\<close>, which a virtual command uses: poll, append what was read, and stop
  at an empty read. The list gives the polls of the loop, each with its task and the room in its buffer, and
  what the host does in between; \<open>None\<close> is a loop that still waits.
\<close>

fun read_stdin_to_end :: "stdin_op list \<Rightarrow> bytes \<Rightarrow> stdin_state \<Rightarrow> (error + bytes) option" where
  "read_stdin_to_end [] input st = None"
| "read_stdin_to_end (HostWrite data # ops) input st =
     read_stdin_to_end ops input (snd (snd (stdin_write data st)))"
| "read_stdin_to_end (HostClose # ops) input st =
     read_stdin_to_end ops input (snd (snd (stdin_close st)))"
| "read_stdin_to_end (GuestReadReady task # ops) input st = read_stdin_to_end ops input st"
| "read_stdin_to_end (GuestRead task remaining # ops) input st =
     (case stdin_poll_read task remaining st of
        (Pending, st') \<Rightarrow> read_stdin_to_end ops input st'
      | (Ready (Inl e), st') \<Rightarrow> Some (Inl (Context ''unable to read process stdin'' (IoErr e)))
      | (Ready (Inr bs), st') \<Rightarrow>
          if bs = [] then Some (Inr input) else read_stdin_to_end ops (input @ bs) st')"

fun accepted_input :: "stdin_op list \<Rightarrow> bytes" where
  "accepted_input [] = []"
| "accepted_input (HostWrite data # ops) = data @ accepted_input ops"
| "accepted_input (HostClose # ops) = []"
| "accepted_input (_ # ops) = accepted_input ops"

fun polls :: "stdin_op list \<Rightarrow> nat" where
  "polls [] = 0"
| "polls (GuestRead task remaining # ops) = Suc (polls ops)"
| "polls (_ # ops) = polls ops"

definition room :: "stdin_op \<Rightarrow> bool" where
  "room x = (case x of GuestRead task remaining \<Rightarrow> 0 < remaining | _ \<Rightarrow> True)"

lemma min_length_0: "0 < n \<Longrightarrow> min n (length xs) = 0 \<longleftrightarrow> xs = []"
  by (auto simp: min_def)

lemma read_closed:
  assumes "in_closed st" "\<not> in_poisoned st" "list_all room ops"
  shows "read_stdin_to_end ops input st \<in> {None, Some (Inr (input @ in_data st))} \<and>
    (length (in_data st) < polls ops \<longrightarrow> read_stdin_to_end ops input st = Some (Inr (input @ in_data st)))"
  using assms
proof (induction ops arbitrary: input st)
  case (Cons x ops)
  show ?case
  proof (cases x)
    case (GuestRead task n)
    have "length (drop (min n (length (in_data st))) (in_data st)) < polls ops"
      if "length (in_data st) < Suc (polls ops)" "in_data st \<noteq> []"
      using that Cons.prems(3) GuestRead by (cases "in_data st") (auto simp: room_def min_def)
    then show ?thesis
      using Cons.prems GuestRead Cons.IH [of "st\<lparr>in_data := drop (min n (length (in_data st))) (in_data st)\<rparr>"
          "input @ take (min n (length (in_data st))) (in_data st)"]
      by (auto simp: stdin_poll_read_def Let_def room_def min_length_0)
  next
    case HostClose
    then show ?thesis using Cons.prems Cons.IH [of "snd (snd (stdin_close st))" input]
      by (auto simp: stdin_close_def)
  qed (use Cons in \<open>auto simp: stdin_write_def\<close>)
qed simp

definition after_close :: "stdin_op list \<Rightarrow> stdin_op list" where
  "after_close ops = tl (dropWhile (\<lambda>x. x \<noteq> HostClose) ops)"

lemma read_open:
  assumes "\<not> in_closed st" "\<not> in_poisoned st" "list_all room ops"
  shows "read_stdin_to_end ops input st \<in> {None, Some (Inr (input @ in_data st @ accepted_input ops))} \<and>
    (length (in_data st) + length (accepted_input ops) < polls (after_close ops) \<longrightarrow>
       read_stdin_to_end ops input st = Some (Inr (input @ in_data st @ accepted_input ops)))"
  using assms
proof (induction ops arbitrary: input st)
  case Nil
  then show ?case by (simp add: after_close_def)
next
  case (Cons x ops)
  show ?case
  proof (cases x)
    case HostClose
    then show ?thesis using Cons.prems read_closed [of "snd (snd (stdin_close st))" ops input]
      by (auto simp: stdin_close_def after_close_def)
  next
    case (HostWrite data)
    then show ?thesis using Cons.prems Cons.IH [of "snd (snd (stdin_write data st))" input]
      by (auto simp: stdin_write_def after_close_def)
  next
    case (GuestRead task n)
    then show ?thesis
      using Cons.prems Cons.IH [of "st\<lparr>in_waker := Some task\<rparr>" input]
        Cons.IH [of "st\<lparr>in_data := drop (min n (length (in_data st))) (in_data st)\<rparr>"
          "input @ take (min n (length (in_data st))) (in_data st)"]
      by (auto simp: stdin_poll_read_def Let_def room_def min_length_0 after_close_def)
  qed (use Cons in \<open>auto simp: after_close_def\<close>)
qed

text \<open>
  C30. A virtual command gets exactly the input the host wrote before it closed the stream: reading to the end
  can only return those bytes, and it does return once the stream is closed and the loop has polled more
  often than there are bytes.
\<close>

theorem read_stdin_to_end_exact:
  assumes "list_all room ops"
  shows "read_stdin_to_end ops [] stdin_new \<in> {None, Some (Inr (accepted_input ops))} \<and>
    (length (accepted_input ops) < polls (after_close ops) \<longrightarrow>
       read_stdin_to_end ops [] stdin_new = Some (Inr (accepted_input ops)))"
  using read_open [of stdin_new ops "[]"] assms by (simp add: stdin_new_def)

theorem read_stdin_to_end_exact_witness:
  "read_stdin_to_end [GuestRead 0 4, HostWrite [1, 2, 3], GuestRead 0 2, HostClose, HostWrite [9],
     GuestRead 0 2, GuestRead 0 2, GuestRead 0 2, GuestRead 0 2] [] stdin_new = Some (Inr [1, 2, 3])"
  using read_stdin_to_end_exact [of "[GuestRead 0 4, HostWrite [1, 2, 3], GuestRead 0 2, HostClose, HostWrite [9],
     GuestRead 0 2, GuestRead 0 2, GuestRead 0 2, GuestRead 0 2]"]
  by (simp add: room_def after_close_def)

end
