(* ===== verification/Process_Table.thy ===== *)
theory Process_Table
  imports Run Interactive_Stdin
begin

text \<open>
  The processes a host starts through \<open>src/py_api.rs\<close>: \<open>StartedProcess\<close>, \<open>RunningProcessGuard\<close>,
  \<open>cancel_process\<close>, \<open>Sandbox::start\<close> and \<open>Sandbox::run\<close>, and how errors become messages.

  The system is all processes of a sandbox and the table of running processes. A process is executed by
  a blocking task, its result is published by a second task, and the host calls the methods of its
  handle meanwhile; one step of the system is one critical section of one of them. The source of a
  process's cancellation token lives in the table and nowhere else; the table holds the position of the
  process it belongs to, and \<open>p_sender\<close> tells whether the source still exists.
\<close>

section \<open>Error messages\<close>

text \<open>
  \<open>error.chain()\<close>: the message of every context and of the root cause. How errors of other crates print,
  with their own causes, is the argument \<open>show_foreign\<close>.
\<close>

fun error_chain :: "(error \<Rightarrow> string list) \<Rightarrow> error \<Rightarrow> string list" where
  "error_chain show_foreign (Msg message) = [message]"
| "error_chain show_foreign (Context message e) = message # error_chain show_foreign e"
| "error_chain show_foreign e = show_foreign e"

definition error_message :: "(error \<Rightarrow> string list) \<Rightarrow> error \<Rightarrow> string" where
  "error_message show_foreign e = join_with '': '' (error_chain show_foreign e)"

definition py_error :: "(error \<Rightarrow> string list) \<Rightarrow> error + 'a \<Rightarrow> string + 'a" where
  "py_error show_foreign r = (case r of Inl e \<Rightarrow> Inl (error_message show_foreign e) | Inr v \<Rightarrow> Inr v)"

section \<open>Processes\<close>

datatype process_outcome = Completed completed_process | Failed string

text \<open>
  Where the tasks of a process are: executing it, after its run returned, after the guard of the table
  finished, after the standard input was closed, after a panic unwound the task, and at the end.
\<close>

datatype phase =
    Executing
  | Returned "error + completed_process"
  | GuardFinished "error + completed_process"
  | InputClosed "error + completed_process"
  | Unwound string
  | Ended

text \<open>
  \<open>p_is_run\<close> distinguishes the two ways to execute a process: \<open>run\<close>, whose handle is the awaited
  future, and \<open>start\<close>. \<open>p_receivers\<close> counts the receivers of the result channel.
\<close>

record process =
  p_is_run :: bool
  p_id :: u64
  p_args :: "string list"
  p_stdin :: stdin_state
  p_stdout :: capture_state
  p_stderr :: capture_state
  p_token :: cancellation_source
  p_sender :: bool
  p_active :: bool
  p_phase :: phase
  p_handle :: bool
  p_receivers :: nat
  p_result :: "process_outcome option"

record system =
  sy_procs :: "process list"
  sy_running :: "(u64 \<times> nat) list"
  sy_poisoned :: bool

definition upd :: "nat \<Rightarrow> (process \<Rightarrow> process) \<Rightarrow> system \<Rightarrow> system" where
  "upd i f s = s\<lparr>sy_procs := (sy_procs s)[i := f (sy_procs s ! i)]\<rparr>"

section \<open>The table of running processes\<close>

definition drop_source :: "process \<Rightarrow> process" where
  "drop_source p = p\<lparr>p_sender := False\<rparr>"

definition cancel_source :: "process \<Rightarrow> process" where
  "cancel_source p = drop_source (p\<lparr>p_token := source_cancel (p_token p)\<rparr>)"

definition cancel_process :: "u64 \<Rightarrow> system \<Rightarrow> system" where
  "cancel_process pid s =
     (if sy_poisoned s then s
      else (case map_of (sy_running s) pid of
        None \<Rightarrow> s
      | Some i \<Rightarrow> upd i cancel_source (s\<lparr>sy_running := AList.delete pid (sy_running s)\<rparr>)))"

definition drop_entry :: "u64 \<Rightarrow> system \<Rightarrow> system" where
  "drop_entry pid s = (case map_of (sy_running s) pid of None \<Rightarrow> s | Some i \<Rightarrow> upd i drop_source s)"

definition guard_new :: "u64 \<Rightarrow> nat \<Rightarrow> system \<Rightarrow> (error + unit) \<times> system" where
  "guard_new pid i s =
     (if sy_poisoned s then (Inl CancellationLockFailed, s)
      else (Inr (), (drop_entry pid s)\<lparr>sy_running := AList.update pid i (sy_running s)\<rparr>))"

definition guard_finish :: "nat \<Rightarrow> system \<Rightarrow> system" where
  "guard_finish i s =
     (if sy_poisoned s then s
      else let pid = p_id (sy_procs s ! i) in
        upd i (\<lambda>p. p\<lparr>p_active := False\<rparr>) ((drop_entry pid s)\<lparr>sy_running := AList.delete pid (sy_running s)\<rparr>))"

definition guard_drop :: "nat \<Rightarrow> system \<Rightarrow> system" where
  "guard_drop i s = (if p_active (sy_procs s ! i) then cancel_process (p_id (sy_procs s ! i)) s else s)"

section \<open>Starting\<close>

definition new_process :: "bool \<Rightarrow> u64 \<Rightarrow> string list \<Rightarrow> nat \<Rightarrow> process" where
  "new_process is_run pid args output_limit =
     \<lparr>p_is_run = is_run, p_id = pid, p_args = args, p_stdin = stdin_new, p_stdout = capture_new output_limit,
      p_stderr = capture_new output_limit, p_token = source_token cancellation_source_new, p_sender = True,
      p_active = True, p_phase = Executing, p_handle = True, p_receivers = 1, p_result = None\<rparr>"

definition begin_process :: "bool \<Rightarrow> u64 \<Rightarrow> string list \<Rightarrow> nat \<Rightarrow> system \<Rightarrow> (error + nat) \<times> system" where
  "begin_process is_run pid args output_limit s =
     (let i = length (sy_procs s) in
      case guard_new pid i s of
        (Inl e, s) \<Rightarrow> (Inl e, s)
      | (Inr _, s) \<Rightarrow> (Inr i, s\<lparr>sy_procs := sy_procs s @ [new_process is_run pid args output_limit]\<rparr>))"

section \<open>The tasks\<close>

definition outcome_of :: "(error \<Rightarrow> string list) \<Rightarrow> error + completed_process \<Rightarrow> process_outcome" where
  "outcome_of show_foreign r =
     (case r of Inr process \<Rightarrow> Completed process | Inl e \<Rightarrow> Failed (error_message show_foreign e))"

text \<open>\<open>result_sender.send\<close>: without a receiver the value stays as it is.\<close>

definition publish :: "process_outcome \<Rightarrow> process \<Rightarrow> process" where
  "publish result p =
     p\<lparr>p_result := (if 0 < p_receivers p then Some result else p_result p), p_phase := Ended\<rparr>"

definition task_returns :: "nat \<Rightarrow> error + completed_process \<Rightarrow> system \<Rightarrow> system" where
  "task_returns i r s = upd i (\<lambda>p. p\<lparr>p_token := drop_token (p_token p), p_phase := Returned r\<rparr>) s"

definition task_panics :: "nat \<Rightarrow> string \<Rightarrow> system \<Rightarrow> system" where
  "task_panics i message s =
     (let s = (if p_is_run (sy_procs s ! i) then s else guard_drop i s) in
      upd i (\<lambda>p. p\<lparr>p_token := drop_token (p_token p), p_phase := Unwound message\<rparr>) s)"

definition start_continues :: "(error \<Rightarrow> string list) \<Rightarrow> nat \<Rightarrow> system \<Rightarrow> system" where
  "start_continues show_foreign i s =
     (case p_phase (sy_procs s ! i) of
        Returned r \<Rightarrow> upd i (\<lambda>p. p\<lparr>p_phase := GuardFinished r\<rparr>) (guard_finish i s)
      | GuardFinished r \<Rightarrow>
          upd i (\<lambda>p. p\<lparr>p_stdin := snd (snd (stdin_close (p_stdin p))), p_phase := InputClosed r\<rparr>) s
      | InputClosed r \<Rightarrow> upd i (publish (outcome_of show_foreign r)) (guard_drop i s)
      | Unwound message \<Rightarrow> upd i (publish (Failed message)) s
      | _ \<Rightarrow> s)"

definition run_continues :: "(error \<Rightarrow> string list) \<Rightarrow> nat \<Rightarrow> system \<Rightarrow> system" where
  "run_continues show_foreign i s =
     (case p_phase (sy_procs s ! i) of
        Returned r \<Rightarrow> upd i (publish (outcome_of show_foreign r)) (guard_finish i s)
      | Unwound message \<Rightarrow> upd i (publish (Failed message)) (guard_drop i s)
      | _ \<Rightarrow> s)"

section \<open>The handle\<close>

definition returncode :: "process \<Rightarrow> i32 option" where
  "returncode p =
     (case p_result p of Some (Completed process) \<Rightarrow> Some (cp_returncode process) | _ \<Rightarrow> None)"

definition is_running :: "process \<Rightarrow> bool" where
  "is_running p = (p_result p = None)"

definition stdin_closed :: "(error \<Rightarrow> string list) \<Rightarrow> process \<Rightarrow> string + bool" where
  "stdin_closed show_foreign p = py_error show_foreign (stdin_is_closed (p_stdin p))"

definition stdout :: "(error \<Rightarrow> string list) \<Rightarrow> process \<Rightarrow> string + bytes" where
  "stdout show_foreign p = py_error show_foreign (capture ''stdout'' (p_stdout p))"

definition stderr :: "(error \<Rightarrow> string list) \<Rightarrow> process \<Rightarrow> string + bytes" where
  "stderr show_foreign p = py_error show_foreign (capture ''stderr'' (p_stderr p))"

definition write_stdin :: "(error \<Rightarrow> string list) \<Rightarrow> nat \<Rightarrow> bytes \<Rightarrow> system \<Rightarrow> (string + unit) \<times> system" where
  "write_stdin show_foreign i data s =
     (case stdin_write data (p_stdin (sy_procs s ! i)) of
        (r, _, st) \<Rightarrow> (py_error show_foreign r, upd i (\<lambda>p. p\<lparr>p_stdin := st\<rparr>) s))"

definition close_stdin :: "(error \<Rightarrow> string list) \<Rightarrow> nat \<Rightarrow> system \<Rightarrow> (string + unit) \<times> system" where
  "close_stdin show_foreign i s =
     (case stdin_close (p_stdin (sy_procs s ! i)) of
        (r, _, st) \<Rightarrow> (py_error show_foreign r, upd i (\<lambda>p. p\<lparr>p_stdin := st\<rparr>) s))"

definition cancel :: "nat \<Rightarrow> system \<Rightarrow> system" where
  "cancel i s =
     (let s = upd i (\<lambda>p. p\<lparr>p_stdin := snd (snd (stdin_close (p_stdin p)))\<rparr>) s
      in cancel_process (p_id (sy_procs s ! i)) s)"

text \<open>Dropping a handle drops its receiver as well.\<close>

definition drop_handle :: "nat \<Rightarrow> system \<Rightarrow> system" where
  "drop_handle i s =
     upd i (\<lambda>p. p\<lparr>p_handle := False, p_receivers := p_receivers p - 1\<rparr>)
       (if p_result (sy_procs s ! i) \<noteq> None then s else cancel i s)"

text \<open>Dropping the future of \<open>run\<close> before its end drops the guard.\<close>

definition drop_future :: "nat \<Rightarrow> system \<Rightarrow> system" where
  "drop_future i s = upd i (\<lambda>p. p\<lparr>p_handle := False\<rparr>) (guard_drop i s)"

definition process_outcome_result :: "process_outcome \<Rightarrow> string + completed_process" where
  "process_outcome_result result = (case result of Completed process \<Rightarrow> Inr process | Failed message \<Rightarrow> Inl message)"

text \<open>
  \<open>wait\<close> and \<open>wait_blocking\<close>: each iteration reads the channel and, while it holds no result, awaits
  \<open>changed()\<close>, which fails when the sender is gone. The argument lists what the iterations see.
\<close>

fun wait_process_outcome ::
  "(error \<Rightarrow> string list) \<Rightarrow> (process_outcome option \<times> bool) list \<Rightarrow> (string + completed_process) poll" where
  "wait_process_outcome show_foreign [] = Pending"
| "wait_process_outcome show_foreign ((Some result, _) # seen) = Ready (process_outcome_result result)"
| "wait_process_outcome show_foreign ((None, changed) # seen) =
     (if changed then wait_process_outcome show_foreign seen
      else Ready (Inl (error_message show_foreign WaitChannelClosed)))"

section \<open>The system\<close>

datatype actor = Task nat | Host

text \<open>
  \<open>begin_process\<close> accepts any number, as \<open>run\<close> and \<open>start\<close> do, and an entry with the same number is
  replaced. In the step relation the number is a new one: the only caller, the Python front end, takes it
  from a counter. The theorems about reachable states rest on that.
\<close>

inductive py_step :: "(error \<Rightarrow> string list) \<Rightarrow> system \<Rightarrow> actor \<Rightarrow> system \<Rightarrow> bool" for show_foreign where
  Begin: "pid \<notin> p_id ` set (sy_procs s) \<Longrightarrow>
    py_step show_foreign s Host (snd (begin_process is_run pid args output_limit s))"
| Returns: "i < length (sy_procs s) \<Longrightarrow> p_phase (sy_procs s ! i) = Executing \<Longrightarrow>
    py_step show_foreign s Host (task_returns i r s)"
| Panics: "i < length (sy_procs s) \<Longrightarrow> p_phase (sy_procs s ! i) = Executing \<Longrightarrow>
    py_step show_foreign s Host (task_panics i message s)"
| Start_Continues: "i < length (sy_procs s) \<Longrightarrow> \<not> p_is_run (sy_procs s ! i) \<Longrightarrow>
    py_step show_foreign s (Task i) (start_continues show_foreign i s)"
| Run_Continues: "i < length (sy_procs s) \<Longrightarrow> p_is_run (sy_procs s ! i) \<Longrightarrow> p_handle (sy_procs s ! i) \<Longrightarrow>
    py_step show_foreign s (Task i) (run_continues show_foreign i s)"
| Input: "i < length (sy_procs s) \<Longrightarrow> \<not> p_is_run (sy_procs s ! i) \<Longrightarrow> p_handle (sy_procs s ! i) \<Longrightarrow>
    py_step show_foreign s Host (snd (write_stdin show_foreign i data s))"
| Close: "i < length (sy_procs s) \<Longrightarrow> \<not> p_is_run (sy_procs s ! i) \<Longrightarrow> p_handle (sy_procs s ! i) \<Longrightarrow>
    py_step show_foreign s Host (snd (close_stdin show_foreign i s))"
| Cancel_Handle: "i < length (sy_procs s) \<Longrightarrow> \<not> p_is_run (sy_procs s ! i) \<Longrightarrow> p_handle (sy_procs s ! i) \<Longrightarrow>
    py_step show_foreign s Host (cancel i s)"
| Drop_Handle: "i < length (sy_procs s) \<Longrightarrow> \<not> p_is_run (sy_procs s ! i) \<Longrightarrow> p_handle (sy_procs s ! i) \<Longrightarrow>
    py_step show_foreign s Host (drop_handle i s)"
| Drop_Future: "i < length (sy_procs s) \<Longrightarrow> p_is_run (sy_procs s ! i) \<Longrightarrow> p_handle (sy_procs s ! i) \<Longrightarrow>
    py_step show_foreign s Host (drop_future i s)"
| Cancel_Id: "py_step show_foreign s Host (cancel_process pid s)"
| Guest_Reads: "i < length (sy_procs s) \<Longrightarrow> p_phase (sy_procs s ! i) = Executing \<Longrightarrow>
    py_step show_foreign s Host
      (upd i (\<lambda>p. p\<lparr>p_stdin := snd (stdin_poll_read task remaining (p_stdin p))\<rparr>) s)"
| Guest_Writes: "i < length (sy_procs s) \<Longrightarrow> p_phase (sy_procs s ! i) = Executing \<Longrightarrow>
    py_step show_foreign s Host (upd i (\<lambda>p. p\<lparr>p_stdout := out, p_stderr := err\<rparr>) s)"
| Waits: "i < length (sy_procs s) \<Longrightarrow> \<not> p_is_run (sy_procs s ! i) \<Longrightarrow> p_handle (sy_procs s ! i) \<Longrightarrow>
    py_step show_foreign s Host (upd i (\<lambda>p. p\<lparr>p_receivers := Suc (p_receivers p)\<rparr>) s)"
| Stops_Waiting: "i < length (sy_procs s) \<Longrightarrow> \<not> p_is_run (sy_procs s ! i) \<Longrightarrow>
    (if p_handle (sy_procs s ! i) then 1 else 0) < p_receivers (sy_procs s ! i) \<Longrightarrow>
    py_step show_foreign s Host (upd i (\<lambda>p. p\<lparr>p_receivers := p_receivers p - 1\<rparr>) s)"

definition system_new :: system where
  "system_new = \<lparr>sy_procs = [], sy_running = [], sy_poisoned = False\<rparr>"

inductive py_steps :: "(error \<Rightarrow> string list) \<Rightarrow> system \<Rightarrow> actor list \<Rightarrow> system \<Rightarrow> bool" for show_foreign where
  Stay: "py_steps show_foreign s [] s"
| Move: "py_step show_foreign s a s' \<Longrightarrow> py_steps show_foreign s' as s'' \<Longrightarrow> py_steps show_foreign s (a # as) s''"

definition reachable :: "(error \<Rightarrow> string list) \<Rightarrow> system \<Rightarrow> bool" where
  "reachable show_foreign s \<longleftrightarrow> (\<exists>as. py_steps show_foreign system_new as s)"

section \<open>The invariant\<close>

text \<open>
  The table and the processes agree: an entry is the position of the process with that number whose
  source still exists. A source disappears only by a cancellation or when the guard finishes, so a
  process that still executes is in the table or its token is set.
\<close>

definition table_ok :: "process list \<Rightarrow> (u64 \<times> nat) list \<Rightarrow> bool" where
  "table_ok procs running \<longleftrightarrow>
     distinct (map p_id procs) \<and>
     (\<forall>pid i. map_of running pid = Some i \<longleftrightarrow> i < length procs \<and> p_id (procs ! i) = pid \<and> p_sender (procs ! i))"

fun may_hold_source :: "bool \<Rightarrow> phase \<Rightarrow> bool" where
  "may_hold_source is_run Executing = True"
| "may_hold_source is_run (Returned _) = True"
| "may_hold_source is_run (Unwound _) = is_run"
| "may_hold_source is_run _ = False"

definition process_ok :: "process \<Rightarrow> bool" where
  "process_ok p \<longleftrightarrow>
     (p_sender p \<longrightarrow> p_active p \<and> may_hold_source (p_is_run p) (p_phase p) \<and> \<not> is_cancelled (p_token p)) \<and>
     (p_phase p = Executing \<longrightarrow> 0 < cs_receivers (p_token p) \<and> (p_sender p \<or> is_cancelled (p_token p))) \<and>
     (p_result p \<noteq> None \<longrightarrow> p_phase p = Ended) \<and>
     \<not> in_poisoned (p_stdin p) \<and>
     (\<forall>r. \<not> p_is_run p \<longrightarrow> p_phase p = InputClosed r \<longrightarrow> in_closed (p_stdin p)) \<and>
     (\<forall>r. \<not> p_is_run p \<longrightarrow> p_result p = Some (Completed r) \<longrightarrow> in_closed (p_stdin p)) \<and>
     (p_handle p \<longrightarrow> 0 < p_receivers p) \<and> (p_is_run p \<longrightarrow> p_handle p \<or> \<not> p_sender p)"

definition system_ok :: "system \<Rightarrow> bool" where
  "system_ok s \<longleftrightarrow> \<not> sy_poisoned s \<and> table_ok (sy_procs s) (sy_running s) \<and> list_all process_ok (sy_procs s)"

lemma upd_simps [simp]:
  "sy_procs (upd i f s) = (sy_procs s)[i := f (sy_procs s ! i)]"
  "sy_running (upd i f s) = sy_running s" "sy_poisoned (upd i f s) = sy_poisoned s"
  by (simp_all add: upd_def)

lemma upd_upd: "i < length (sy_procs s) \<Longrightarrow> upd i f (upd i g s) = upd i (f \<circ> g) s"
  by (simp add: upd_def)

lemma map_p_id_update: "p_id q = p_id (procs ! i) \<Longrightarrow> map p_id (procs[i := q]) = map p_id procs"
  by (cases "i < length procs") (simp_all add: map_update list_update_beyond list_update_same_conv)

lemma table_ok_same:
  assumes "table_ok procs running" "p_id q = p_id (procs ! i)" "p_sender q = p_sender (procs ! i)"
  shows "table_ok (procs[i := q]) running"
proof -
  have "p_id (procs[i := q] ! j) = p_id (procs ! j) \<and> p_sender (procs[i := q] ! j) = p_sender (procs ! j)"
    if "j < length procs" for j
    using that assms(2,3) by (cases "j = i") simp_all
  then show ?thesis using assms by (auto simp: table_ok_def map_p_id_update)
qed

lemma table_ok_id_inj:
  "table_ok procs running \<Longrightarrow> i < length procs \<Longrightarrow> j < length procs \<Longrightarrow> p_id (procs ! i) = p_id (procs ! j) \<Longrightarrow> i = j"
  by (auto simp: table_ok_def distinct_conv_nth)

lemma table_ok_remove:
  assumes "table_ok procs running" "i < length procs" "p_id q = p_id (procs ! i)" "\<not> p_sender q"
  shows "table_ok (procs[i := q]) (AList.delete (p_id q) running)"
proof -
  have "map_of (AList.delete (p_id q) running) pid = Some j \<longleftrightarrow>
      j < length procs \<and> p_id (procs[i := q] ! j) = pid \<and> p_sender (procs[i := q] ! j)" for pid j
  proof (cases "j = i")
    case True
    then show ?thesis using assms by (auto simp: AList.delete_conv' table_ok_def)
  next
    case False
    then have "j < length procs \<Longrightarrow> p_id (procs ! j) \<noteq> p_id q"
      using table_ok_id_inj [OF assms(1,2)] assms(3) by metis
    then show ?thesis using False assms(1) by (auto simp: AList.delete_conv' table_ok_def)
  qed
  then show ?thesis using assms(1,3) by (simp add: table_ok_def map_p_id_update)
qed

lemma table_ok_insert:
  assumes "table_ok procs running" "p_id p \<notin> p_id ` set procs" "p_sender p"
  shows "table_ok (procs @ [p]) (AList.update (p_id p) (length procs) running)"
proof -
  have "map_of (AList.update (p_id p) (length procs) running) pid = Some j \<longleftrightarrow>
      j < length (procs @ [p]) \<and> p_id ((procs @ [p]) ! j) = pid \<and> p_sender ((procs @ [p]) ! j)" for pid j
  proof (cases "j < length procs")
    case True
    then have "p_id (procs ! j) \<noteq> p_id p" using assms(2) by (metis image_eqI nth_mem)
    with True show ?thesis using assms(1) by (auto simp: AList.update_conv' table_ok_def nth_append)
  next
    case False
    then show ?thesis using assms(1,3) by (auto simp: AList.update_conv' table_ok_def nth_append)
  qed
  then show ?thesis using assms(1,2) by (simp add: table_ok_def)
qed

text \<open>With the invariant, the operations on the table concern one process.\<close>

lemma lookup_own:
  assumes "system_ok s" "i < length (sy_procs s)"
  shows "map_of (sy_running s) (p_id (sy_procs s ! i)) = (if p_sender (sy_procs s ! i) then Some i else None)"
proof -
  have "map_of (sy_running s) (p_id (sy_procs s ! i)) = Some j \<longleftrightarrow> j = i \<and> p_sender (sy_procs s ! i)" for j
    using assms table_ok_id_inj [of "sy_procs s" "sy_running s" _ i] by (auto simp: system_ok_def table_ok_def)
  then show ?thesis by (metis option.exhaust)
qed

lemma delete_absent: "map_of xs k = None \<Longrightarrow> AList.delete k xs = xs"
  by (simp add: map_of_eq_None_iff AList.delete_idem)

definition take_source :: "(process \<Rightarrow> process) \<Rightarrow> nat \<Rightarrow> system \<Rightarrow> system" where
  "take_source f i s = upd i f (s\<lparr>sy_running := AList.delete (p_id (sy_procs s ! i)) (sy_running s)\<rparr>)"

lemma cancel_own:
  assumes "system_ok s" "i < length (sy_procs s)"
  shows "cancel_process (p_id (sy_procs s ! i)) s = take_source (\<lambda>p. if p_sender p then cancel_source p else p) i s"
  using lookup_own [OF assms] assms
  by (simp add: cancel_process_def take_source_def delete_absent system_ok_def upd_def)

lemma no_source: "\<not> p_sender p \<Longrightarrow> p\<lparr>p_sender := False, p_active := a\<rparr> = p\<lparr>p_active := a\<rparr>"
  by (cases p) simp

lemma finish_own:
  assumes "system_ok s" "i < length (sy_procs s)"
  shows "guard_finish i s = take_source (\<lambda>p. p\<lparr>p_sender := False, p_active := False\<rparr>) i s"
  using lookup_own [OF assms] assms
  by (simp add: guard_finish_def take_source_def delete_absent system_ok_def upd_def drop_entry_def drop_source_def no_source)

lemma upd_take_source: "i < length (sy_procs s) \<Longrightarrow> upd i g (take_source f i s) = take_source (g \<circ> f) i s"
  by (simp add: take_source_def upd_def)

lemma system_ok_nth: "system_ok s \<Longrightarrow> i < length (sy_procs s) \<Longrightarrow> process_ok (sy_procs s ! i)"
  by (simp add: system_ok_def list_all_length)

lemma system_ok_upd:
  assumes "system_ok s" "process_ok (f (sy_procs s ! i))"
    "p_id (f (sy_procs s ! i)) = p_id (sy_procs s ! i)" "p_sender (f (sy_procs s ! i)) = p_sender (sy_procs s ! i)"
  shows "system_ok (upd i f s)"
  using assms by (simp add: system_ok_def table_ok_same list_all_update)

lemma system_ok_take_source:
  assumes "system_ok s" "i < length (sy_procs s)" "process_ok (f (sy_procs s ! i))"
    "p_id (f (sy_procs s ! i)) = p_id (sy_procs s ! i)" "\<not> p_sender (f (sy_procs s ! i))"
  shows "system_ok (take_source f i s)"
  using assms table_ok_remove [of "sy_procs s" "sy_running s" i "f (sy_procs s ! i)"]
  by (simp add: system_ok_def take_source_def list_all_update)

lemma source_cancel_sets: "0 < cs_receivers c \<Longrightarrow> is_cancelled (source_cancel c)"
  by (simp add: source_cancel_def is_cancelled_def)

lemma token_value [simp]: "is_cancelled (drop_token c) = is_cancelled c"
  by (simp add: is_cancelled_def drop_token_def)

lemmas process_defs = process_ok_def cancel_source_def drop_source_def publish_def stdin_close_def

text \<open>What cancelling does to a process that keeps the invariant.\<close>

lemma process_ok_cancel: "process_ok p \<Longrightarrow> process_ok (cancel_source p)"
  by (auto simp: process_defs source_cancel_def is_cancelled_def)

lemma process_ok_close:
  "process_ok p \<Longrightarrow> process_ok (p\<lparr>p_stdin := snd (snd (stdin_close (p_stdin p)))\<rparr>)"
  by (auto simp: process_defs)

lemma cancel_process_ok:
  assumes "system_ok s"
  shows "system_ok (cancel_process pid s)"
proof (cases "map_of (sy_running s) pid")
  case None
  then show ?thesis using assms by (simp add: cancel_process_def)
next
  case (Some i)
  then have i: "i < length (sy_procs s)" "p_id (sy_procs s ! i) = pid" "p_sender (sy_procs s ! i)"
    using assms by (auto simp: system_ok_def table_ok_def)
  have "system_ok (take_source (\<lambda>p. if p_sender p then cancel_source p else p) i s)"
    using assms i by (intro system_ok_take_source)
      (simp_all add: process_ok_cancel system_ok_nth, simp_all add: cancel_source_def drop_source_def)
  then show ?thesis using cancel_own [OF assms i(1)] i(2) by simp
qed

definition cancel_if_held :: "process \<Rightarrow> process" where
  "cancel_if_held p = (if p_sender p then cancel_source p else p)"

lemma cancel_if_held_frame [simp]:
  "p_is_run (cancel_if_held p) = p_is_run p" "p_id (cancel_if_held p) = p_id p"
  "p_stdin (cancel_if_held p) = p_stdin p" "p_phase (cancel_if_held p) = p_phase p"
  "p_active (cancel_if_held p) = p_active p" "p_handle (cancel_if_held p) = p_handle p"
  "p_receivers (cancel_if_held p) = p_receivers p" "p_result (cancel_if_held p) = p_result p"
  "\<not> p_sender (cancel_if_held p)"
  by (simp_all add: cancel_if_held_def cancel_source_def drop_source_def)

lemma process_ok_cancel_if_held: "process_ok p \<Longrightarrow> process_ok (cancel_if_held p)"
  by (simp add: cancel_if_held_def process_ok_cancel)

lemma cancel_own': 
  "system_ok s \<Longrightarrow> i < length (sy_procs s) \<Longrightarrow>
   cancel_process (p_id (sy_procs s ! i)) s = take_source cancel_if_held i s"
  by (simp add: cancel_own) (simp add: take_source_def upd_def cancel_if_held_def)

lemma guard_drop_own:
  assumes "system_ok s" "i < length (sy_procs s)"
  shows "guard_drop i s = take_source cancel_if_held i s"
proof (cases "p_active (sy_procs s ! i)")
  case False
  then have "\<not> p_sender (sy_procs s ! i)" using system_ok_nth [OF assms] by (simp add: process_ok_def)
  then show ?thesis using False lookup_own [OF assms]
    by (simp add: guard_drop_def take_source_def upd_def cancel_if_held_def delete_absent)
qed (simp add: guard_drop_def cancel_own' [OF assms])

lemmas own = finish_own guard_drop_own cancel_own' upd_take_source

lemma begin_process_eq:
  assumes "system_ok s" "pid \<notin> p_id ` set (sy_procs s)"
  shows "begin_process is_run pid args output_limit s =
    (Inr (length (sy_procs s)),
     s\<lparr>sy_procs := sy_procs s @ [new_process is_run pid args output_limit],
       sy_running := AList.update pid (length (sy_procs s)) (sy_running s)\<rparr>)"
proof -
  have "map_of (sy_running s) pid \<noteq> Some i" for i
    using assms by (auto simp: system_ok_def table_ok_def)
  then have "map_of (sy_running s) pid = None" by blast
  then show ?thesis
    using assms(1) by (simp add: begin_process_def guard_new_def drop_entry_def system_ok_def Let_def)
qed

lemma process_ok_new: "process_ok (new_process is_run pid args output_limit)"
  by (simp add: process_ok_def new_process_def source_token_def cancellation_source_new_def is_cancelled_def stdin_new_def)

lemma begin_process_ok:
  assumes "system_ok s" "pid \<notin> p_id ` set (sy_procs s)"
  shows "system_ok (snd (begin_process is_run pid args output_limit s))"
  using assms table_ok_insert [of "sy_procs s" "sy_running s" "new_process is_run pid args output_limit"]
  by (simp add: begin_process_eq [OF assms] system_ok_def process_ok_new)
    (simp add: new_process_def)

lemma start_continues_ok:
  assumes "system_ok s" "i < length (sy_procs s)" "\<not> p_is_run (sy_procs s ! i)"
  shows "system_ok (start_continues show_foreign i s)"
proof -
  note ok = system_ok_nth [OF assms(1,2)]
  show ?thesis
  proof (cases "p_phase (sy_procs s ! i)")
    case (Returned r)
    then show ?thesis using assms ok
      by (auto simp: start_continues_def own process_defs intro!: system_ok_take_source)
  next
    case (GuardFinished r)
    then show ?thesis using assms ok
      by (auto simp: start_continues_def process_defs intro!: system_ok_upd)
  next
    case (InputClosed r)
    then show ?thesis using assms process_ok_cancel_if_held [OF ok]
      by (auto simp: start_continues_def own process_defs intro!: system_ok_take_source)
  next
    case (Unwound message)
    then show ?thesis using assms ok
      by (auto simp: start_continues_def process_defs intro!: system_ok_upd)
  qed (use assms in \<open>simp_all add: start_continues_def\<close>)
qed

lemma run_continues_ok:
  assumes "system_ok s" "i < length (sy_procs s)" "p_is_run (sy_procs s ! i)"
  shows "system_ok (run_continues show_foreign i s)"
proof -
  note ok = system_ok_nth [OF assms(1,2)]
  show ?thesis
  proof (cases "p_phase (sy_procs s ! i)")
    case (Returned r)
    then show ?thesis using assms ok
      by (auto simp: run_continues_def own process_defs intro!: system_ok_take_source)
  next
    case (Unwound message)
    then show ?thesis using assms process_ok_cancel_if_held [OF ok]
      by (auto simp: run_continues_def own process_defs intro!: system_ok_take_source)
  qed (use assms in \<open>simp_all add: run_continues_def\<close>)
qed

lemma task_ends_ok:
  assumes "system_ok s" "i < length (sy_procs s)" "p_phase (sy_procs s ! i) = Executing"
  shows "system_ok (task_returns i r s)" "system_ok (task_panics i message s)"
proof -
  note ok = system_ok_nth [OF assms(1,2)]
  show "system_ok (task_returns i r s)"
    using assms ok by (auto simp: task_returns_def process_defs intro!: system_ok_upd)
  show "system_ok (task_panics i message s)"
  proof (cases "p_is_run (sy_procs s ! i)")
    case True
    then show ?thesis using assms ok by (auto simp: task_panics_def process_defs intro!: system_ok_upd)
  next
    case False
    then show ?thesis using assms process_ok_cancel_if_held [OF ok]
      by (auto simp: task_panics_def own process_defs intro!: system_ok_take_source)
  qed
qed

lemma cancel_eq:
  assumes "system_ok s" "i < length (sy_procs s)"
  shows "cancel i s = take_source (\<lambda>p. cancel_if_held (p\<lparr>p_stdin := snd (snd (stdin_close (p_stdin p)))\<rparr>)) i s"
proof -
  let ?s = "upd i (\<lambda>p. p\<lparr>p_stdin := snd (snd (stdin_close (p_stdin p)))\<rparr>) s"
  have "system_ok ?s" using assms by (intro system_ok_upd) (simp_all add: process_ok_close system_ok_nth)
  then have "cancel_process (p_id (sy_procs ?s ! i)) ?s = take_source cancel_if_held i ?s"
    using assms(2) by (intro cancel_own') simp_all
  then show ?thesis using assms(2) by (simp add: cancel_def take_source_def upd_def)
qed

lemma handle_ok:
  assumes "system_ok s" "i < length (sy_procs s)" "\<not> p_is_run (sy_procs s ! i)"
  shows "system_ok (cancel i s)" "system_ok (drop_handle i s)"
    "system_ok (snd (write_stdin show_foreign i data s))" "system_ok (snd (close_stdin show_foreign i s))"
proof -
  note ok = system_ok_nth [OF assms(1,2)]
  show c: "system_ok (cancel i s)"
    using assms ok
    by (auto simp: cancel_eq process_ok_cancel_if_held process_ok_close intro!: system_ok_take_source)
  let ?q = "cancel_if_held ((sy_procs s ! i)\<lparr>p_stdin := snd (snd (stdin_close (p_stdin (sy_procs s ! i))))\<rparr>)"
  have drop: "process_ok (p\<lparr>p_handle := False, p_receivers := p_receivers p - 1\<rparr>)"
    if "process_ok p" "\<not> p_is_run p" for p
    using that by (auto simp: process_ok_def)
  have "process_ok ?q" using ok by (intro process_ok_cancel_if_held process_ok_close)
  from drop [OF this] drop [OF ok] show "system_ok (drop_handle i s)"
    using assms
    by (auto simp: drop_handle_def cancel_eq own intro!: system_ok_upd system_ok_take_source)
  show "system_ok (snd (write_stdin show_foreign i data s))"
    using assms ok by (auto simp: write_stdin_def stdin_write_def process_ok_def intro!: system_ok_upd)
  show "system_ok (snd (close_stdin show_foreign i s))"
    using assms ok by (auto simp: close_stdin_def process_defs intro!: system_ok_upd)
qed

lemma drop_future_ok:
  assumes "system_ok s" "i < length (sy_procs s)" "p_is_run (sy_procs s ! i)"
  shows "system_ok (drop_future i s)"
  using assms process_ok_cancel_if_held [OF system_ok_nth [OF assms(1,2)]]
  by (auto simp: drop_future_def own process_ok_def intro!: system_ok_take_source)

lemma py_step_ok: "py_step show_foreign s a s' \<Longrightarrow> system_ok s \<Longrightarrow> system_ok s'"
proof (induction rule: py_step.induct)
  case (Guest_Reads i s task remaining)
  then show ?case using system_ok_nth [of s i]
    by (auto simp: stdin_poll_read_def process_ok_def Let_def intro!: system_ok_upd)
next
  case (Guest_Writes i s out err)
  then show ?case using system_ok_nth [of s i] by (auto simp: process_ok_def intro!: system_ok_upd)
next
  case (Waits i s)
  then show ?case using system_ok_nth [of s i] by (auto simp: process_ok_def intro!: system_ok_upd)
next
  case (Stops_Waiting i s)
  then show ?case using system_ok_nth [of s i] by (auto simp: process_ok_def intro!: system_ok_upd)
qed (simp_all add: begin_process_ok task_ends_ok start_continues_ok run_continues_ok handle_ok drop_future_ok cancel_process_ok)

lemma py_steps_ok: "py_steps show_foreign s as s' \<Longrightarrow> system_ok s \<Longrightarrow> system_ok s'"
  by (induction rule: py_steps.induct) (auto intro: py_step_ok)

lemma reachable_ok: "reachable show_foreign s \<Longrightarrow> system_ok s"
proof -
  have "system_ok system_new" by (simp add: system_ok_def system_new_def table_ok_def)
  then show "reachable show_foreign s \<Longrightarrow> system_ok s" by (auto simp: reachable_def intro: py_steps_ok)
qed

section \<open>What a step changes\<close>

definition host_change :: "process \<Rightarrow> process \<Rightarrow> bool" where
  "host_change p q \<longleftrightarrow>
     p_is_run q = p_is_run p \<and> p_id q = p_id p \<and> p_result q = p_result p \<and>
     (p_phase q = p_phase p \<or> p_phase p = Executing) \<and> (p_handle q \<longrightarrow> p_handle p)"

lemma host_change_refl [simp]: "host_change p p"
  by (simp add: host_change_def)

lemma procs_take_source [simp]: "sy_procs (take_source f i s) = (sy_procs s)[i := f (sy_procs s ! i)]"
  by (simp add: take_source_def)

lemma cancel_process_local:
  assumes "system_ok s"
  shows "cancel_process pid s = s \<or> (\<exists>i<length (sy_procs s). cancel_process pid s = take_source cancel_if_held i s)"
proof (cases "map_of (sy_running s) pid")
  case None
  then show ?thesis by (simp add: cancel_process_def)
next
  case (Some i)
  then have "i < length (sy_procs s)" "p_id (sy_procs s ! i) = pid"
    using assms by (auto simp: system_ok_def table_ok_def)
  then show ?thesis using cancel_own' [OF assms] by blast
qed

lemma host_step_change:
  "py_step show_foreign s Host s' \<Longrightarrow> system_ok s \<Longrightarrow> j < length (sy_procs s) \<Longrightarrow>
   j < length (sy_procs s') \<and> host_change (sy_procs s ! j) (sy_procs s' ! j)"
proof (induction s "Host" s' rule: py_step.induct)
  case (Cancel_Id s pid)
  then show ?case using cancel_process_local [of s pid]
    by (auto simp: host_change_def nth_list_update split: if_splits)
next
  case (Begin pid s is_run args output_limit)
  then show ?case by (simp add: begin_process_eq nth_append)
next
  case (Drop_Handle i s)
  then show ?case by (auto simp: drop_handle_def cancel_eq own host_change_def nth_list_update split: if_splits)
qed (auto simp: task_returns_def task_panics_def own cancel_eq drop_future_def write_stdin_def close_stdin_def
      host_change_def case_prod_beta nth_list_update split: if_splits)

inductive_cases task_stepE: "py_step show_foreign s (Task i) s'"

lemma task_step_local:
  assumes "py_step show_foreign s (Task i) s'" "system_ok s"
  shows "length (sy_procs s') = length (sy_procs s) \<and> (\<forall>j. j \<noteq> i \<longrightarrow> sy_procs s' ! j = sy_procs s ! j) \<and>
    p_id (sy_procs s' ! i) = p_id (sy_procs s ! i) \<and> p_is_run (sy_procs s' ! i) = p_is_run (sy_procs s ! i) \<and>
    (p_result (sy_procs s ! i) \<noteq> None \<longrightarrow> sy_procs s' ! i = sy_procs s ! i)"
  using assms(1)
  by (rule task_stepE)
    (use assms(2) system_ok_nth [of s i] in
      \<open>auto simp: start_continues_def run_continues_def own publish_def process_ok_def split: phase.splits\<close>)

text \<open>A result, once published, is never changed.\<close>

lemma result_final_step:
  assumes "py_step show_foreign s a s'" "system_ok s" "j < length (sy_procs s)"
    "p_result (sy_procs s ! j) = Some result"
  shows "j < length (sy_procs s') \<and> p_result (sy_procs s' ! j) = Some result"
proof (cases a)
  case (Task i)
  with assms(1) have step: "py_step show_foreign s (Task i) s'" by simp
  show ?thesis using task_step_local [OF step assms(2)] assms(3,4) by (cases "i = j") auto
next
  case Host
  then show ?thesis using host_step_change [of show_foreign s s' j] assms by (simp add: host_change_def)
qed

lemma result_final:
  "py_steps show_foreign s as s' \<Longrightarrow> system_ok s \<Longrightarrow> j < length (sy_procs s) \<Longrightarrow>
   p_result (sy_procs s ! j) = Some result \<Longrightarrow> p_result (sy_procs s' ! j) = Some result"
  by (induction rule: py_steps.induct) (use py_step_ok result_final_step in blast)+

text \<open>How far a started process has come after \<open>n\<close> steps of its tasks since its run returned \<open>r\<close>.\<close>

fun stage :: "(error \<Rightarrow> string list) \<Rightarrow> error + completed_process \<Rightarrow> nat \<Rightarrow> process \<Rightarrow> bool" where
  "stage show_foreign r 0 p = (\<not> p_is_run p \<and> p_phase p = Returned r)"
| "stage show_foreign r (Suc 0) p = (\<not> p_is_run p \<and> p_phase p = GuardFinished r)"
| "stage show_foreign r (Suc (Suc 0)) p = (\<not> p_is_run p \<and> p_phase p = InputClosed r)"
| "stage show_foreign r _ p =
     (\<not> p_is_run p \<and> p_phase p = Ended \<and> (p_handle p \<longrightarrow> p_result p = Some (outcome_of show_foreign r)))"

lemma stage_host: "host_change p q \<Longrightarrow> stage show_foreign r n p \<Longrightarrow> stage show_foreign r n q"
  by (cases "(show_foreign, r, n, p)" rule: stage.cases) (auto simp: host_change_def)

lemma stage_task:
  assumes "system_ok s" "i < length (sy_procs s)" "stage show_foreign r n (sy_procs s ! i)"
  shows "stage show_foreign r (Suc n) (sy_procs (start_continues show_foreign i s) ! i)"
  using assms system_ok_nth [OF assms(1,2)]
  by (cases "(show_foreign, r, n, sy_procs s ! i)" rule: stage.cases)
    (auto simp: start_continues_def own publish_def process_ok_def)

lemma stage_step:
  assumes "py_step show_foreign s a s'" "system_ok s" "i < length (sy_procs s)" "stage show_foreign r n (sy_procs s ! i)"
  shows "i < length (sy_procs s') \<and> stage show_foreign r (if a = Task i then Suc n else n) (sy_procs s' ! i)"
proof (cases a)
  case (Task j)
  with assms(1) have step: "py_step show_foreign s (Task j) s'" by simp
  show ?thesis
  proof (cases "j = i")
    case True
    have "\<not> p_is_run (sy_procs s ! i)"
      using assms(4) by (cases "(show_foreign, r, n, sy_procs s ! i)" rule: stage.cases) auto
    with step True have "s' = start_continues show_foreign i s" by (auto elim: task_stepE)
    then show ?thesis using Task True stage_task [OF assms(2-4)] task_step_local [OF step assms(2)] assms(3)
      by simp
  next
    case False
    then show ?thesis using Task task_step_local [OF step assms(2)] assms(3,4) by simp
  qed
next
  case Host
  then show ?thesis using host_step_change [of show_foreign s s' i] assms stage_host by auto
qed

lemma stage_steps:
  "py_steps show_foreign s as s' \<Longrightarrow> system_ok s \<Longrightarrow> i < length (sy_procs s) \<Longrightarrow>
   stage show_foreign r n (sy_procs s ! i) \<Longrightarrow>
   stage show_foreign r (n + count_list as (Task i)) (sy_procs s' ! i)"
proof (induction arbitrary: n rule: py_steps.induct)
  case (Move s a s' as s'')
  from stage_step [OF Move.hyps(1) Move.prems]
  have "i < length (sy_procs s')" "stage show_foreign r (if a = Task i then Suc n else n) (sy_procs s' ! i)" by auto
  from Move.IH [OF py_step_ok [OF Move.hyps(1) Move.prems(1)] this] show ?case by (simp split: if_splits)
qed simp

section \<open>What a host can rely on\<close>

text \<open>
  C10. The table of running processes is exact. Every entry is a process of that number which has no result
  yet; a process that executes is in the table unless its token is set; a process whose tasks have ended
  is not in it.
\<close>

theorem running_table_exact:
  assumes "reachable show_foreign s"
  shows "(\<forall>pid i. map_of (sy_running s) pid = Some i \<longrightarrow>
      i < length (sy_procs s) \<and> p_id (sy_procs s ! i) = pid \<and> p_result (sy_procs s ! i) = None) \<and>
    (\<forall>i<length (sy_procs s). p_phase (sy_procs s ! i) = Executing \<longrightarrow>
      (map_of (sy_running s) (p_id (sy_procs s ! i)) = Some i \<longleftrightarrow> \<not> is_cancelled (p_token (sy_procs s ! i)))) \<and>
    (\<forall>i<length (sy_procs s). p_phase (sy_procs s ! i) = Ended \<longrightarrow>
      map_of (sy_running s) (p_id (sy_procs s ! i)) = None)"
proof -
  note ok = reachable_ok [OF assms]
  have "i < length (sy_procs s) \<and> p_id (sy_procs s ! i) = pid \<and> p_result (sy_procs s ! i) = None"
    if "map_of (sy_running s) pid = Some i" for pid i
    using that ok system_ok_nth [OF ok, of i] by (auto simp: system_ok_def table_ok_def process_ok_def)
  moreover have "p_sender (sy_procs s ! i) \<longleftrightarrow> \<not> is_cancelled (p_token (sy_procs s ! i))"
    if "i < length (sy_procs s)" "p_phase (sy_procs s ! i) = Executing" for i
    using system_ok_nth [OF ok that(1)] that(2) by (auto simp: process_ok_def)
  moreover have "\<not> p_sender (sy_procs s ! i)" if "i < length (sy_procs s)" "p_phase (sy_procs s ! i) = Ended" for i
    using system_ok_nth [OF ok that(1)] that(2) by (auto simp: process_ok_def)
  ultimately show ?thesis using lookup_own [OF ok] by auto
qed

text \<open>
  C11. Cancelling a process reaches it and no other: by its number, by its handle, by dropping the handle, and
  by dropping the future of \<open>run\<close>. In all four cases the token of the process is set afterwards, so that the
  process sees the cancellation, its entry has left the table, and no other process has changed. The two
  ways through the handle also close the standard input of the process; cancelling by number and
  dropping the future leave it as it is.
\<close>

theorem cancel_reaches_process:
  assumes "reachable show_foreign s" "i < length (sy_procs s)" "p_phase (sy_procs s ! i) = Executing"
  shows "(\<forall>s' \<in> {cancel_process (p_id (sy_procs s ! i)) s, cancel i s, drop_handle i s, drop_future i s}.
      is_cancelled (p_token (sy_procs s' ! i)) \<and> (\<forall>j. j \<noteq> i \<longrightarrow> sy_procs s' ! j = sy_procs s ! j) \<and>
      map_of (sy_running s') (p_id (sy_procs s ! i)) = None) \<and>
    in_closed (p_stdin (sy_procs (cancel i s) ! i)) \<and> in_closed (p_stdin (sy_procs (drop_handle i s) ! i)) \<and>
    p_stdin (sy_procs (cancel_process (p_id (sy_procs s ! i)) s) ! i) = p_stdin (sy_procs s ! i) \<and>
    p_stdin (sy_procs (drop_future i s) ! i) = p_stdin (sy_procs s ! i)"
proof -
  let ?p = "sy_procs s ! i"
  note ok = reachable_ok [OF assms(1)]
  note p = system_ok_nth [OF ok assms(2), unfolded process_ok_def]
  have cancelled: "is_cancelled (p_token (cancel_if_held ?p))" and none: "p_result ?p = None"
    using p assms(3) by (auto simp: cancel_if_held_def cancel_source_def drop_source_def source_cancel_sets)
  have close: "is_cancelled (p_token (cancel_if_held (?p\<lparr>p_stdin := st\<rparr>)))" for st
    using cancelled by (simp add: cancel_if_held_def cancel_source_def drop_source_def split: if_splits)
  have gone: "map_of (sy_running (take_source f i s)) (p_id ?p) = None" for f
    by (simp add: take_source_def AList.delete_conv')
  note eqs = guard_drop_own [OF ok assms(2)] cancel_own' [OF ok assms(2)] upd_take_source [OF assms(2)] cancel_eq [OF ok assms(2)] drop_handle_def drop_future_def none
  have "\<forall>s' \<in> {cancel_process (p_id ?p) s, cancel i s, drop_handle i s, drop_future i s}.
      is_cancelled (p_token (sy_procs s' ! i)) \<and> (\<forall>j. j \<noteq> i \<longrightarrow> sy_procs s' ! j = sy_procs s ! j) \<and>
      map_of (sy_running s') (p_id ?p) = None"
    using assms(2) cancelled close gone by (simp add: eqs)
  moreover have "in_closed (p_stdin (sy_procs (cancel i s) ! i))" "in_closed (p_stdin (sy_procs (drop_handle i s) ! i))"
    using assms(2) p by (simp_all add: eqs stdin_close_def)
  moreover have "p_stdin (cancel_if_held ?p) = p_stdin ?p"
    by (simp add: cancel_if_held_def cancel_source_def drop_source_def)
  then have "p_stdin (sy_procs (cancel_process (p_id ?p) s) ! i) = p_stdin ?p"
    "p_stdin (sy_procs (drop_future i s) ! i) = p_stdin ?p"
    using assms(2) by (simp_all add: eqs)
  ultimately show ?thesis by blast
qed

text \<open>
  C31. A started process that completed is quiet: it is no longer in the table, its standard input is closed so
  that writing to it fails, and its result stays the same whatever happens later.
\<close>

theorem completed_process_quiet:
  assumes "reachable show_foreign s" "i < length (sy_procs s)" "\<not> p_is_run (sy_procs s ! i)"
    "p_result (sy_procs s ! i) = Some (Completed c)" "py_steps show_foreign s as s'"
  shows "\<not> is_running (sy_procs s ! i) \<and> returncode (sy_procs s ! i) = Some (cp_returncode c) \<and>
    map_of (sy_running s) (p_id (sy_procs s ! i)) = None \<and>
    fst (write_stdin show_foreign i data s) = Inl (error_message show_foreign StdinClosed) \<and>
    p_result (sy_procs s' ! i) = Some (Completed c)"
proof -
  note ok = reachable_ok [OF assms(1)]
  note p = system_ok_nth [OF ok assms(2)]
  have "\<not> p_sender (sy_procs s ! i)" "in_closed (p_stdin (sy_procs s ! i))" "\<not> in_poisoned (p_stdin (sy_procs s ! i))"
    using p assms(3,4) by (auto simp: process_ok_def)
  then show ?thesis
    using lookup_own [OF ok assms(2)] result_final [OF assms(5) ok assms(2,4)] assms(4)
    by (simp add: is_running_def returncode_def write_stdin_def stdin_write_def py_error_def)
qed

text \<open>
  C12. The result of a started process reaches its handle: once the run has returned, any three steps of its
  tasks, however they are interleaved with other processes and with calls of the host, publish exactly
  what it returned, unless the handle was dropped.
\<close>

theorem process_result_reported:
  assumes "reachable show_foreign s" "i < length (sy_procs s)" "\<not> p_is_run (sy_procs s ! i)"
    "p_phase (sy_procs s ! i) = Returned r" "py_steps show_foreign s as s'" "3 \<le> count_list as (Task i)"
    "p_handle (sy_procs s' ! i)"
  shows "wait_process_outcome show_foreign [(p_result (sy_procs s' ! i), changed)] =
    Ready (case r of Inr process \<Rightarrow> Inr process | Inl e \<Rightarrow> Inl (error_message show_foreign e))"
proof -
  obtain k where k: "count_list as (Task i) = Suc (Suc (Suc k))"
    using assms(6) by (metis Suc_diff_le add_Suc add_diff_inverse_nat numeral_3_eq_3 not_le plus_nat.add_0)
  have "stage show_foreign r (0 + count_list as (Task i)) (sy_procs s' ! i)"
    using assms(3,4) by (intro stage_steps [OF assms(5) reachable_ok [OF assms(1)] assms(2)]) simp
  then have "p_result (sy_procs s' ! i) = Some (outcome_of show_foreign r)" using k assms(7) by simp
  then show ?thesis by (simp add: outcome_of_def process_outcome_result_def split: sum.split)
qed

section \<open>Examples\<close>

definition example_running :: system where
  "example_running = snd (begin_process False 7 [''cat''] 10 system_new)"

definition example_process :: completed_process where
  "example_process = \<lparr>cp_args = [''cat''], cp_returncode = 2, cp_stdout = [104], cp_stderr = []\<rparr>"

definition example_returned :: system where
  "example_returned = task_returns 0 (Inr example_process) example_running"

definition example_done :: "(error \<Rightarrow> string list) \<Rightarrow> system" where
  "example_done show_foreign = ((start_continues show_foreign 0) ^^ 3) example_returned"

lemma py_steps_append: "py_steps show_foreign s as s' \<Longrightarrow> py_steps show_foreign s' bs s'' \<Longrightarrow> py_steps show_foreign s (as @ bs) s''"
  by (induction rule: py_steps.induct) (auto intro: py_steps.intros)

lemma reachable_steps: "reachable show_foreign s \<Longrightarrow> py_steps show_foreign s as s' \<Longrightarrow> reachable show_foreign s'"
  by (auto simp: reachable_def intro: py_steps_append)

lemma example_facts:
  "length (sy_procs example_running) = 1" "p_phase (sy_procs example_running ! 0) = Executing"
  "\<not> p_is_run (sy_procs example_running ! 0)" "p_handle (sy_procs example_running ! 0)"
  "p_id (sy_procs example_running ! 0) = 7" "map_of (sy_running example_running) 7 = Some 0"
  by (simp_all add: example_running_def begin_process_def guard_new_def drop_entry_def system_new_def new_process_def
      Let_def)

lemma example_reachable: "reachable show_foreign example_running"
proof -
  have "py_step show_foreign system_new Host example_running"
    unfolding example_running_def by (rule Begin) (simp add: system_new_def)
  then show ?thesis by (auto simp: reachable_def intro: py_steps.intros)
qed

lemma example_returned_reachable: "reachable show_foreign example_returned"
proof -
  have "py_step show_foreign example_running Host example_returned"
    unfolding example_returned_def using example_facts by (intro Returns) simp_all
  from reachable_steps [OF example_reachable Move [OF this Stay]] show ?thesis .
qed

lemma example_returned_facts:
  "length (sy_procs example_returned) = 1" "p_phase (sy_procs example_returned ! 0) = Returned (Inr example_process)"
  "\<not> p_is_run (sy_procs example_returned ! 0)" "p_handle (sy_procs example_returned ! 0)"
  using example_facts by (simp_all add: example_returned_def task_returns_def)

lemma start_continues_kind:
  assumes "system_ok s" "i < length (sy_procs s)" "\<not> p_is_run (sy_procs s ! i)"
  shows "length (sy_procs (start_continues show_foreign i s)) = length (sy_procs s)"
    "\<not> p_is_run (sy_procs (start_continues show_foreign i s) ! i)"
    "p_handle (sy_procs (start_continues show_foreign i s) ! i) = p_handle (sy_procs s ! i)"
    "p_id (sy_procs (start_continues show_foreign i s) ! i) = p_id (sy_procs s ! i)"
  using assms by (auto simp: start_continues_def own publish_def split: phase.splits)

lemma example_done_steps:
  "py_steps show_foreign example_returned [Task 0, Task 0, Task 0] (example_done show_foreign)"
  "length (sy_procs (example_done show_foreign)) = 1" "\<not> p_is_run (sy_procs (example_done show_foreign) ! 0)"
  "p_handle (sy_procs (example_done show_foreign) ! 0)"
proof -
  let ?f = "start_continues show_foreign 0"
  have ok: "system_ok example_returned" by (rule reachable_ok [OF example_returned_reachable])
  note f = start_continues_kind [where i = 0 and show_foreign = show_foreign] start_continues_ok
  have step: "py_step show_foreign s (Task 0) (?f s)" if "0 < length (sy_procs s)" "\<not> p_is_run (sy_procs s ! 0)" for s
    using that by (rule Start_Continues)
  have three: "example_done show_foreign = ?f (?f (?f example_returned))"
    by (simp add: example_done_def numeral_3_eq_3)
  show "py_steps show_foreign example_returned [Task 0, Task 0, Task 0] (example_done show_foreign)"
    unfolding three using ok example_returned_facts
    by (intro Move [OF step Move [OF step Move [OF step Stay]]]) (simp_all add: f)
  show "length (sy_procs (example_done show_foreign)) = 1" "\<not> p_is_run (sy_procs (example_done show_foreign) ! 0)"
    "p_handle (sy_procs (example_done show_foreign) ! 0)"
    unfolding three using ok example_returned_facts by (simp_all add: f)
qed

theorem running_table_exact_witness:
  "map_of (sy_running example_running) 7 = Some 0 \<and> \<not> is_cancelled (p_token (sy_procs example_running ! 0))"
  using running_table_exact [OF example_reachable [of "\<lambda>_. []"]] example_facts by auto

theorem cancel_reaches_process_witness:
  "is_cancelled (p_token (sy_procs (cancel_process 7 example_running) ! 0)) \<and>
   in_closed (p_stdin (sy_procs (drop_handle 0 example_running) ! 0))"
  using cancel_reaches_process [OF example_reachable [of "\<lambda>_. []"], of 0] example_facts by simp

theorem process_result_reported_witness:
  "wait_process_outcome (\<lambda>_. []) [(p_result (sy_procs (example_done (\<lambda>_. [])) ! 0), True)] = Ready (Inr example_process)"
  using process_result_reported [OF example_returned_reachable [of "\<lambda>_. []"], of 0 "Inr example_process"
      "[Task 0, Task 0, Task 0]" "example_done (\<lambda>_. [])" True]
    example_returned_facts example_done_steps by simp

lemma example_done_result: "p_result (sy_procs (example_done show_foreign) ! 0) = Some (Completed example_process)"
  using stage_steps [OF example_done_steps(1) reachable_ok [OF example_returned_reachable],
      of 0 show_foreign "Inr example_process" 0] example_returned_facts example_done_steps(4)
  by (simp add: outcome_of_def)

theorem completed_process_quiet_witness:
  "returncode (sy_procs (example_done (\<lambda>_. [])) ! 0) = Some 2 \<and>
   fst (write_stdin (\<lambda>_. []) 0 [1] (example_done (\<lambda>_. []))) = Inl ''process stdin is closed''"
  using completed_process_quiet [OF reachable_steps [OF example_returned_reachable example_done_steps(1)] _ _
      example_done_result Stay, of "\<lambda>_. []" "[1]"] example_done_steps
  by (simp add: example_process_def error_message_def StdinClosed_def)

end
