(* ===== verification/Py_Api.thy ===== *)
theory Py_Api
  imports Process_Table
begin

text \<open>
  The \<open>Sandbox\<close> class of \<open>src/py_api.rs\<close>: construction, the operations that lock the state of the sandbox,
  and the dispatcher of virtual processes, which hands the requests of guests to the host
  (\<open>next_virtual_process\<close>) and the responses of the host back (\<open>complete_virtual_process\<close>). Processes are
  in \<open>Process_Table\<close>, events in \<open>Events\<close>. An exception of Python is the left side of a sum with its message.
\<close>

section \<open>Requests of guests\<close>

text \<open>
  A guest that calls \<open>invoke_blocking\<close> is a \<open>call\<close>: the request with its number, its response channel
  and the token with which it tells the host that it no longer waits. The bounded request channel and the
  table of pending requests hold positions of calls.
\<close>

record call =
  ca_request :: process_request
  ca_channel :: response_channel
  ca_cancel :: cancellation_source
  ca_sent :: bool

record dispatcher =
  dp_calls :: "call list"
  dp_capacity :: nat
  dp_queue :: "nat list"
  dp_open :: bool
  dp_pending :: "(u64 \<times> nat) list"
  dp_poisoned :: bool

definition dispatcher_new :: "nat \<Rightarrow> dispatcher option" where
  "dispatcher_new capacity =
     (if capacity = 0 then None
      else Some \<lparr>dp_calls = [], dp_capacity = capacity, dp_queue = [], dp_open = True, dp_pending = [],
             dp_poisoned = False\<rparr>)"

definition upd_call :: "nat \<Rightarrow> (call \<Rightarrow> call) \<Rightarrow> dispatcher \<Rightarrow> dispatcher" where
  "upd_call c f d = d\<lparr>dp_calls := (dp_calls d)[c := f (dp_calls d ! c)]\<rparr>"

definition next_virtual_process ::
  "(error \<Rightarrow> string list) \<Rightarrow> dispatcher \<Rightarrow> (string + u64 \<times> bytes) poll \<times> dispatcher" where
  "next_virtual_process show_foreign d =
     (case dp_queue d of
        [] \<Rightarrow> (if dp_open d then Pending else Ready (Inl (error_message show_foreign VirtualStreamClosed)), d)
      | c # rest \<Rightarrow>
          let request = ca_request (dp_calls d ! c); d = d\<lparr>dp_queue := rest\<rparr> in
          if dp_poisoned d then (Ready (Inl (error_message show_foreign VirtualProcessLockFailed)), d)
          else (Ready (Inr (pr_id request, pr_payload request)),
                d\<lparr>dp_pending := AList.update (pr_id request) c (dp_pending d)\<rparr>))"

definition complete_virtual_process ::
  "(error \<Rightarrow> string list) \<Rightarrow> u64 \<Rightarrow> bytes \<Rightarrow> dispatcher \<Rightarrow> (string + unit) \<times> dispatcher" where
  "complete_virtual_process show_foreign rid response d =
     (if dp_poisoned d then (Inl (error_message show_foreign VirtualProcessLockFailed), d)
      else (case map_of (dp_pending d) rid of
        None \<Rightarrow> (Inl (error_message show_foreign VirtualProcessNotFound), d)
      | Some c \<Rightarrow>
          (case respond response (ca_channel (dp_calls d ! c)) of (r, ch) \<Rightarrow>
            (py_error show_foreign r,
             upd_call c (\<lambda>ca. ca\<lparr>ca_channel := ch\<rparr>) (d\<lparr>dp_pending := AList.delete rid (dp_pending d)\<rparr>)))))"

text \<open>\<open>changes\<close> is what the token of the request reports after the call.\<close>

definition wait_virtual_process_cancelled ::
  "(error \<Rightarrow> string list) \<Rightarrow> u64 \<Rightarrow> watch_change list \<Rightarrow> dispatcher \<Rightarrow> string + unit poll" where
  "wait_virtual_process_cancelled show_foreign rid changes d =
     (if dp_poisoned d then Inl (error_message show_foreign VirtualProcessLockFailed)
      else (case map_of (dp_pending d) rid of
        None \<Rightarrow> Inl (error_message show_foreign VirtualProcessNotFound)
      | Some c \<Rightarrow> Inr (cancelled (is_cancelled (ca_cancel (dp_calls d ! c))) changes)))"

section \<open>What guests do\<close>

text \<open>
  The effects of \<open>invoke_blocking\<close> on the dispatcher: a call takes the next number, tries to send its
  request, and ends by taking a response or by giving up; either way it cancels the token of its request
  and drops the receiver of its response channel.
\<close>

definition call_begins :: "bytes \<Rightarrow> dispatcher \<Rightarrow> dispatcher" where
  "call_begins payload d =
     d\<lparr>dp_calls := dp_calls d @
         [\<lparr>ca_request = \<lparr>pr_id = of_nat (length (dp_calls d)) + 1, pr_payload = payload\<rparr>,
           ca_channel = \<lparr>rc_open = True, rc_queue = []\<rparr>,
           ca_cancel = source_token cancellation_source_new, ca_sent = False\<rparr>]\<rparr>"

definition call_sends :: "nat \<Rightarrow> dispatcher \<Rightarrow> dispatcher" where
  "call_sends c d =
     (if c < length (dp_calls d) \<and> \<not> ca_sent (dp_calls d ! c) \<and> dp_open d \<and> length (dp_queue d) < dp_capacity d
      then upd_call c (\<lambda>ca. ca\<lparr>ca_sent := True\<rparr>) (d\<lparr>dp_queue := dp_queue d @ [c]\<rparr>)
      else d)"

definition call_ends :: "nat \<Rightarrow> dispatcher \<Rightarrow> dispatcher" where
  "call_ends c d =
     upd_call c (\<lambda>ca. ca\<lparr>ca_channel := (ca_channel ca)\<lparr>rc_open := False\<rparr>, ca_cancel := source_cancel (ca_cancel ca)\<rparr>) d"

datatype dispatch_op =
    CallBegins bytes
  | CallSends nat
  | CallEnds nat
  | NextProcess
  | CompleteProcess u64 bytes

fun dispatch_step :: "(error \<Rightarrow> string list) \<Rightarrow> dispatcher \<Rightarrow> dispatch_op \<Rightarrow> dispatcher" where
  "dispatch_step show_foreign d (CallBegins payload) = call_begins payload d"
| "dispatch_step show_foreign d (CallSends c) = call_sends c d"
| "dispatch_step show_foreign d (CallEnds c) = call_ends c d"
| "dispatch_step show_foreign d NextProcess = snd (next_virtual_process show_foreign d)"
| "dispatch_step show_foreign d (CompleteProcess rid response) = snd (complete_virtual_process show_foreign rid response d)"

section \<open>The invariant of the dispatcher\<close>

definition unanswered :: "dispatcher \<Rightarrow> nat \<Rightarrow> bool" where
  "unanswered d c \<longleftrightarrow> c < length (dp_calls d) \<and> ca_sent (dp_calls d ! c) \<and> rc_queue (ca_channel (dp_calls d ! c)) = []"

definition dispatch_inv :: "dispatcher \<Rightarrow> bool" where
  "dispatch_inv d \<longleftrightarrow>
     distinct (dp_queue d) \<and> (\<forall>c\<in>set (dp_queue d). unanswered d c) \<and>
     (\<forall>rid c. map_of (dp_pending d) rid = Some c \<longrightarrow>
        unanswered d c \<and> c \<notin> set (dp_queue d) \<and> pr_id (ca_request (dp_calls d ! c)) = rid) \<and>
     (\<forall>c<length (dp_calls d). length (rc_queue (ca_channel (dp_calls d ! c))) \<le> 1 \<and>
        (\<not> ca_sent (dp_calls d ! c) \<longrightarrow> rc_queue (ca_channel (dp_calls d ! c)) = [])) \<and>
     length (dp_queue d) \<le> dp_capacity d \<and> \<not> dp_poisoned d"

lemma upd_call_simps [simp]:
  "dp_calls (upd_call c f d) = (dp_calls d)[c := f (dp_calls d ! c)]"
  "dp_queue (upd_call c f d) = dp_queue d" "dp_pending (upd_call c f d) = dp_pending d"
  "dp_poisoned (upd_call c f d) = dp_poisoned d" "dp_capacity (upd_call c f d) = dp_capacity d"
  "dp_open (upd_call c f d) = dp_open d"
  by (simp_all add: upd_call_def)

lemma nth_update_field: "g y = g (xs ! i) \<Longrightarrow> g (xs[i := y] ! j) = g (xs ! j)"
  by (cases "i < length xs"; cases "i = j") (simp_all add: list_update_beyond)

lemma call_begins_inv: "dispatch_inv d \<Longrightarrow> dispatch_inv (call_begins payload d)"
  by (auto simp: dispatch_inv_def unanswered_def call_begins_def nth_append less_Suc_eq)

lemma call_sends_inv:
  assumes "dispatch_inv d"
  shows "dispatch_inv (call_sends c d)"
proof (cases "call_sends c d = d")
  case False
  then have c: "c < length (dp_calls d)" "\<not> ca_sent (dp_calls d ! c)" "length (dp_queue d) < dp_capacity d"
    and sends: "call_sends c d = upd_call c (\<lambda>ca. ca\<lparr>ca_sent := True\<rparr>) (d\<lparr>dp_queue := dp_queue d @ [c]\<rparr>)"
    by (auto simp: call_sends_def split: if_splits)
  have fresh: "c \<notin> set (dp_queue d)" "map_of (dp_pending d) rid \<noteq> Some c" for rid
    using assms c(2) by (auto simp: dispatch_inv_def unanswered_def)
  have same: "unanswered (upd_call c (\<lambda>ca. ca\<lparr>ca_sent := True\<rparr>) (d\<lparr>dp_queue := q\<rparr>)) x \<longleftrightarrow> unanswered d x" if "x \<noteq> c" for x q
    using that by (simp add: unanswered_def)
  have "unanswered (upd_call c (\<lambda>ca. ca\<lparr>ca_sent := True\<rparr>) (d\<lparr>dp_queue := q\<rparr>)) c" for q
    using assms c by (simp add: unanswered_def dispatch_inv_def)
  moreover have "\<forall>x\<in>set (dp_queue d).
      unanswered (upd_call c (\<lambda>ca. ca\<lparr>ca_sent := True\<rparr>) (d\<lparr>dp_queue := q\<rparr>)) x" for q
    using assms fresh(1) same by (metis dispatch_inv_def)
  ultimately show ?thesis
    unfolding sends using assms c fresh same by (auto simp: dispatch_inv_def nth_list_update)
qed (simp add: assms)

lemma call_ends_inv: "dispatch_inv d \<Longrightarrow> dispatch_inv (call_ends c d)"
proof -
  have "ca_sent (dp_calls (call_ends c d) ! x) = ca_sent (dp_calls d ! x)"
    "ca_request (dp_calls (call_ends c d) ! x) = ca_request (dp_calls d ! x)"
    "rc_queue (ca_channel (dp_calls (call_ends c d) ! x)) = rc_queue (ca_channel (dp_calls d ! x))" for x
    by (simp_all add: call_ends_def nth_update_field [where g = ca_sent] nth_update_field [where g = ca_request]
        nth_update_field [where g = "\<lambda>ca. rc_queue (ca_channel ca)"])
  moreover have "length (dp_calls (call_ends c d)) = length (dp_calls d)" "dp_queue (call_ends c d) = dp_queue d"
    "dp_pending (call_ends c d) = dp_pending d" "dp_capacity (call_ends c d) = dp_capacity d"
    "dp_poisoned (call_ends c d) = dp_poisoned d"
    by (simp_all add: call_ends_def)
  ultimately show "dispatch_inv d \<Longrightarrow> dispatch_inv (call_ends c d)"
    by (simp add: dispatch_inv_def unanswered_def)
qed

lemma next_inv: "dispatch_inv d \<Longrightarrow> dispatch_inv (snd (next_virtual_process show_foreign d))"
  by (auto simp: dispatch_inv_def unanswered_def next_virtual_process_def Let_def AList.update_conv' split: list.split)

lemma complete_inv:
  assumes "dispatch_inv d"
  shows "dispatch_inv (snd (complete_virtual_process show_foreign rid response d))"
proof (cases "map_of (dp_pending d) rid")
  case None
  then show ?thesis using assms by (simp add: complete_virtual_process_def)
next
  case (Some c)
  let ?d = "snd (complete_virtual_process show_foreign rid response d)"
  have c: "unanswered d c" "c \<notin> set (dp_queue d)" "pr_id (ca_request (dp_calls d ! c)) = rid" "\<not> dp_poisoned d"
    using assms Some by (auto simp: dispatch_inv_def)
  have d: "?d = upd_call c (\<lambda>ca. ca\<lparr>ca_channel := snd (respond response (ca_channel (dp_calls d ! c)))\<rparr>)
      (d\<lparr>dp_pending := AList.delete rid (dp_pending d)\<rparr>)"
    using Some c(4) by (simp add: complete_virtual_process_def case_prod_beta)
  have len: "length (rc_queue (snd (respond response (ca_channel (dp_calls d ! c))))) \<le> 1"
    using c(1) by (simp add: respond_def unanswered_def)
  have same: "unanswered ?d x \<longleftrightarrow> unanswered d x" if "x \<noteq> c" for x
    using that by (simp add: d unanswered_def)
  have "x \<noteq> c" if "map_of (AList.delete rid (dp_pending d)) rid' = Some x" for x rid'
    using that assms c(3) by (auto simp: AList.delete_conv' dispatch_inv_def split: if_splits)
  then show ?thesis
    using assms c len same
    by (auto simp: dispatch_inv_def d nth_list_update AList.delete_conv' unanswered_def split: if_splits)
qed

interpretation dispatch: machine "dispatch_step show_foreign" dispatch_inv for show_foreign
proof
  show "dispatch_inv d \<Longrightarrow> dispatch_inv (dispatch_step show_foreign d x)" for d x
    by (cases x) (simp_all add: call_begins_inv call_sends_inv call_ends_inv next_inv complete_inv)
qed

text \<open>
  C13. Every request of a guest is answered at most once, whatever the host, the guests and the scheduler do;
  never more requests wait than the channel holds; and the answer to a request that the host has taken
  goes to the guest that made it and to no other guest. A second answer to the same request is refused and
  changes nothing.
\<close>

theorem virtual_request_answered_once:
  fixes ops :: "dispatch_op list" and show_foreign :: "error \<Rightarrow> string list"
  assumes "dispatcher_new capacity = Some d0"
  defines "d \<equiv> foldl (dispatch_step show_foreign) d0 ops"
  shows "(\<forall>c<length (dp_calls d). length (rc_queue (ca_channel (dp_calls d ! c))) \<le> 1) \<and>
    length (dp_queue d) \<le> dp_capacity d \<and>
    (\<forall>rid c. map_of (dp_pending d) rid = Some c \<longrightarrow>
       (let d' = snd (complete_virtual_process show_foreign rid response d) in
        pr_id (ca_request (dp_calls d ! c)) = rid \<and>
        rc_queue (ca_channel (dp_calls d' ! c)) = (if rc_open (ca_channel (dp_calls d ! c)) then [response] else []) \<and>
        (\<forall>x. x \<noteq> c \<longrightarrow> dp_calls d' ! x = dp_calls d ! x) \<and>
        complete_virtual_process show_foreign rid other d' =
          (Inl (error_message show_foreign VirtualProcessNotFound), d')))"
proof -
  have "dispatch_inv d0" using assms(1) by (auto simp: dispatcher_new_def dispatch_inv_def split: if_splits)
  then have inv: "dispatch_inv d" unfolding d_def by (rule dispatch.run_inv)
  have "pr_id (ca_request (dp_calls d ! c)) = rid \<and>
      rc_queue (ca_channel (dp_calls d' ! c)) = (if rc_open (ca_channel (dp_calls d ! c)) then [response] else []) \<and>
      (\<forall>x. x \<noteq> c \<longrightarrow> dp_calls d' ! x = dp_calls d ! x) \<and>
      complete_virtual_process show_foreign rid other d' =
        (Inl (error_message show_foreign VirtualProcessNotFound), d')"
    if pending: "map_of (dp_pending d) rid = Some c"
      and d': "d' = snd (complete_virtual_process show_foreign rid response d)" for rid c d'
  proof -
    have c: "unanswered d c" "pr_id (ca_request (dp_calls d ! c)) = rid" "\<not> dp_poisoned d"
      using inv pending by (auto simp: dispatch_inv_def)
    then show ?thesis unfolding d' using pending
      by (simp add: complete_virtual_process_def case_prod_beta respond_def unanswered_def AList.delete_conv')
  qed
  then show ?thesis using inv by (simp add: dispatch_inv_def Let_def)
qed

text \<open>A guest asks, the host takes the request and answers it; then the request is gone.\<close>

definition dispatch_example :: dispatcher where
  "dispatch_example =
     foldl (dispatch_step (\<lambda>_. [])) (the (dispatcher_new 2)) [CallBegins [7], CallBegins [8], CallSends 1, NextProcess]"

theorem virtual_request_answered_once_witness:
  "map_of (dp_pending dispatch_example) 2 = Some 1 \<and>
   (let d = snd (complete_virtual_process (\<lambda>_. []) 2 [42] dispatch_example) in
    rc_queue (ca_channel (dp_calls d ! 1)) = [[42]] \<and>
    complete_virtual_process (\<lambda>_. []) 2 [43] d = (Inl ''virtual process request not found'', d))"
proof -
  have new: "dispatcher_new 2 = Some (the (dispatcher_new 2))" by (simp add: dispatcher_new_def)
  have "map_of (dp_pending dispatch_example) 2 = Some 1" "rc_open (ca_channel (dp_calls dispatch_example ! 1))"
    by (simp_all add: dispatch_example_def dispatcher_new_def call_begins_def call_sends_def upd_call_def
        next_virtual_process_def)
  with virtual_request_answered_once [OF new, of "\<lambda>_. []"
      "[CallBegins [7], CallBegins [8], CallSends 1, NextProcess]" "[42]" "[43]",
      folded dispatch_example_def]
  show ?thesis by (simp add: Let_def error_message_def VirtualProcessNotFound_def)
qed

section \<open>The sandbox object\<close>

text \<open>
  The state of a sandbox is behind a mutex; \<open>ps_poisoned\<close> tells that a thread panicked while it held the
  lock, and then every operation fails. \<open>read_file\<close> and \<open>write_file\<close> copy the state out of the lock, which
  copies handles to the same file system and the same tables.
\<close>

record ('s, 'u) py_sandbox =
  ps_state :: "('s, 'u) sandbox"
  ps_poisoned :: bool
  ps_dispatcher :: dispatcher
  ps_system :: system

definition read_locked ::
  "(error \<Rightarrow> string list) \<Rightarrow> (('s, 'u) sandbox \<Rightarrow> error + 'a) \<Rightarrow> ('s, 'u) py_sandbox \<Rightarrow> string + 'a" where
  "read_locked show_foreign f ps =
     (if ps_poisoned ps then Inl (error_message show_foreign StateLockFailed) else py_error show_foreign (f (ps_state ps)))"

definition locked ::
  "(error \<Rightarrow> string list) \<Rightarrow> (('s, 'u) sandbox \<Rightarrow> (error + 'a) \<times> ('s, 'u) sandbox) \<Rightarrow> ('s, 'u) py_sandbox \<Rightarrow>
     (string + 'a) \<times> ('s, 'u) py_sandbox" where
  "locked show_foreign f ps =
     (if ps_poisoned ps then (Inl (error_message show_foreign StateLockFailed), ps)
      else (case f (ps_state ps) of (r, sb) \<Rightarrow> (py_error show_foreign r, ps\<lparr>ps_state := sb\<rparr>)))"

definition py_exists ::
  "(error \<Rightarrow> string list) \<Rightarrow> ('s, 'f, 'm, 'h) world \<Rightarrow> string \<Rightarrow> ('s, 'u) py_sandbox \<Rightarrow> string + bool" where
  "py_exists show_foreign w path = read_locked show_foreign (sandbox_exists w path)"

definition py_listdir ::
  "(error \<Rightarrow> string list) \<Rightarrow> ('s, 'f, 'm, 'h) world \<Rightarrow> string \<Rightarrow> ('s, 'u) py_sandbox \<Rightarrow> string + string list" where
  "py_listdir show_foreign w path = read_locked show_foreign (listdir w path)"

definition py_read_file ::
  "(error \<Rightarrow> string list) \<Rightarrow> ('s, 'f, 'm, 'h) world \<Rightarrow> string \<Rightarrow> ('s, 'u) py_sandbox \<Rightarrow>
     (string + bytes) \<times> ('s, 'u) py_sandbox" where
  "py_read_file show_foreign w path = locked show_foreign (read_file w path)"

definition py_write_file ::
  "(error \<Rightarrow> string list) \<Rightarrow> ('s, 'f, 'm, 'h) world \<Rightarrow> string \<Rightarrow> bytes \<Rightarrow> ('s, 'u) py_sandbox \<Rightarrow>
     (string + unit) \<times> ('s, 'u) py_sandbox" where
  "py_write_file show_foreign w path data = locked show_foreign (write_file w path data)"

definition py_register_virtual_executable ::
  "(error \<Rightarrow> string list) \<Rightarrow> ('s, 'f, 'm, 'h) world \<Rightarrow> u64 \<Rightarrow> string list \<Rightarrow> bool \<Rightarrow> ('s, 'u) py_sandbox \<Rightarrow>
     (string + unit) \<times> ('s, 'u) py_sandbox" where
  "py_register_virtual_executable show_foreign w token paths replace =
     locked show_foreign (register_virtual_executable w token paths replace)"

definition py_unregister_virtual_executable ::
  "(error \<Rightarrow> string list) \<Rightarrow> ('s, 'f, 'm, 'h) world \<Rightarrow> u64 \<Rightarrow> ('s, 'u) py_sandbox \<Rightarrow>
     (string + unit) \<times> ('s, 'u) py_sandbox" where
  "py_unregister_virtual_executable show_foreign w token = locked show_foreign (unregister_virtual_executable w token)"

text \<open>\<open>Sandbox::new\<close>: the conversion of the arguments, the two channels, and the state.\<close>

definition to_host_mount :: "string \<times> string \<times> bool \<Rightarrow> host_mount" where
  "to_host_mount m = (case m of (source, target, read_only) \<Rightarrow>
     \<lparr>hm_source = source, hm_target = target, hm_read_only = read_only\<rparr>)"

definition to_package_spec :: "string \<times> string \<times> string \<times> (string \<times> string) list \<Rightarrow> package_spec" where
  "to_package_spec p = (case p of (name, webc_path, content_sha256, command_aliases) \<Rightarrow>
     \<lparr>ps_name = name, ps_webc_path = webc_path, ps_content_sha256 = content_sha256,
      ps_command_aliases = map (\<lambda>(from, command). \<lparr>al_alias = from, al_command = command\<rparr>) command_aliases\<rparr>)"

datatype 'a construction = NewPanics | NewRaises string | NewReturns 'a

definition py_new ::
  "(error \<Rightarrow> string list) \<Rightarrow> ('s, 'f, 'm, 'h) world \<Rightarrow> 's \<Rightarrow> (package_spec list \<Rightarrow> error + 'u catalog) \<Rightarrow>
     (string \<times> bytes option) list \<Rightarrow> (string \<times> string \<times> bool) list \<Rightarrow>
     (string \<times> string \<times> string \<times> (string \<times> string) list) list \<Rightarrow> string \<Rightarrow> (string \<times> string) list \<Rightarrow> nat \<Rightarrow>
     ('s, 'u) py_sandbox construction" where
  "py_new show_foreign w new_fs catalogs files host_mounts packages cwd env event_queue_size =
     (case event_bus_new event_queue_size of
        None \<Rightarrow> NewPanics
      | Some events \<Rightarrow>
     (case dispatcher_new event_queue_size of
        None \<Rightarrow> NewPanics
      | Some virtual_processes \<Rightarrow>
     (case py_error show_foreign (sandbox_new w new_fs (catalogs (map to_package_spec packages)) files
             (map to_host_mount host_mounts) cwd env events) of
        Inl message \<Rightarrow> NewRaises message
      | Inr state \<Rightarrow> NewReturns \<lparr>ps_state = state, ps_poisoned = False, ps_dispatcher = virtual_processes,
          ps_system = system_new\<rparr>)))"

text \<open>
  Construction panics exactly for an event queue of size zero, raises exactly when the state cannot be
  built, and otherwise gives an object without processes and without requests, over the state that
  \<open>SandboxState::new\<close> built from the converted arguments.
\<close>

theorem py_new_cases:
  "py_new show_foreign w new_fs catalogs files host_mounts packages cwd env event_queue_size =
     (if event_queue_size = 0 then NewPanics
      else (case sandbox_new w new_fs (catalogs (map to_package_spec packages)) files (map to_host_mount host_mounts)
              cwd env (the (event_bus_new event_queue_size)) of
        Inl e \<Rightarrow> NewRaises (error_message show_foreign e)
      | Inr state \<Rightarrow> NewReturns \<lparr>ps_state = state, ps_poisoned = False,
          ps_dispatcher = the (dispatcher_new event_queue_size), ps_system = system_new\<rparr>))"
  by (simp add: py_new_def event_bus_new_def dispatcher_new_def py_error_def split: sum.split)

end
