(* ===== verification/Package_Loading.thy ===== *)
theory Package_Loading
  imports Catalog
begin

text \<open>
  Reading the packages of an image (\<open>src/core.rs\<close>): \<open>package_source\<close>, \<open>load_package\<close> and
  \<open>module_cache_dir\<close>. What the operating system and the \<open>webc\<close> and \<open>wasmer_wasix\<close> crates do with a file
  is the argument \<open>io\<close>: indexing it, reading it, parsing its bytes and building a package.
\<close>

record ('c, 'u) package_io =
  pk_add_webc :: "path \<Rightarrow> error + unit"
  pk_read :: "path \<Rightarrow> error + bytes"
  pk_parse :: "bytes \<Rightarrow> error + 'c"
  pk_from_webc :: "'c \<Rightarrow> error + 'u binary_package"

fun package_source :: "('c, 'u) package_io \<Rightarrow> resolved_package_spec list \<Rightarrow> error + unit" where
  "package_source io [] = Inr ()"
| "package_source io (spec # package_specs) =
     (case pk_add_webc io (rs_webc_path spec) of
        Inl e \<Rightarrow> Inl (Context (''unable to index package '' @ rs_name spec) e)
      | Inr _ \<Rightarrow> package_source io package_specs)"

definition load_package :: "('c, 'u) package_io \<Rightarrow> path \<Rightarrow> error + 'u binary_package" where
  "load_package io path =
     (case pk_read io path of
        Inl e \<Rightarrow> Inl (Context (''unable to read '' @ path) e)
      | Inr data \<Rightarrow>
          (case pk_parse io data of
             Inl e \<Rightarrow> Inl (Context (''unable to parse '' @ path) e)
           | Inr container \<Rightarrow> map_sum (Context (''unable to load '' @ path)) id (pk_from_webc io container)))"

text \<open>The directory of compiled modules; the arguments are the two environment variables and \<open>temp_dir\<close>.\<close>

definition module_cache_dir :: "string option \<Rightarrow> string option \<Rightarrow> path \<Rightarrow> path" where
  "module_cache_dir xdg_cache_home home temp_dir =
     (if xdg_cache_home \<noteq> None \<and> the xdg_cache_home \<noteq> []
      then path_push (path_push (the xdg_cache_home) ''unix-wasm-sandbox'') ''modules''
      else if home \<noteq> None \<and> the home \<noteq> []
      then path_push (path_push (path_push (the home) ''.cache'') ''unix-wasm-sandbox'') ''modules''
      else path_push (path_push temp_dir ''unix-wasm-sandbox'') ''modules'')"

section \<open>What a loaded image consists of\<close>

lemma load_package_InrD:
  "load_package io path = Inr p \<Longrightarrow>
   \<exists>data container. pk_read io path = Inr data \<and> pk_parse io data = Inr container \<and> pk_from_webc io container = Inr p"
  by (auto simp: load_package_def map_sum_def split: sum.splits)

lemma package_source_InrD:
  "package_source io specs = Inr u \<Longrightarrow> spec \<in> set specs \<Longrightarrow> pk_add_webc io (rs_webc_path spec) = Inr ()"
  by (induction specs) (auto split: sum.splits)

lemma load_packages_other:
  "load_packages lp specs cat = Inr cat' \<Longrightarrow> name \<notin> rs_name ` set specs \<Longrightarrow>
   map_of (cat_packages cat') name = map_of (cat_packages cat) name"
  by (induction specs arbitrary: cat) (auto simp: AList.update_conv' split: sum.splits prod.splits)

lemma load_packages_packages:
  "load_packages lp specs cat = Inr cat' \<Longrightarrow> distinct (map rs_name specs) \<Longrightarrow> spec \<in> set specs \<Longrightarrow>
   \<exists>p. lp (rs_webc_path spec) = Inr p \<and> map_of (cat_packages cat') (rs_name spec) = Some p"
proof (induction specs arbitrary: cat)
  case (Cons s specs)
  from Cons.prems(1) obtain p cat1 where p: "lp (rs_webc_path s) = Inr p"
    and rest: "load_packages lp specs cat1 = Inr cat'" and cat1: "map_of (cat_packages cat1) (rs_name s) = Some p"
    by (auto simp: AList.update_conv' split: sum.splits prod.splits)
  show ?case
  proof (cases "spec = s")
    case True
    then show ?thesis using p cat1 load_packages_other [OF rest, of "rs_name s"] Cons.prems(2) by auto
  next
    case False
    then show ?thesis using Cons.IH [OF rest] Cons.prems(2,3) by simp
  qed
qed simp

text \<open>
  An image that loads consists of what its files contain: every package was indexed, read from the
  canonical path of its file, parsed and built, and the catalog holds the result under the name of the
  package.
\<close>

theorem loaded_image_packages:
  assumes "resolve_package_specs canonicalize packages = Inr specs"
    and "catalog_for canonicalize runtime (package_source io) (load_package io) packages = Inr cat"
    and "spec \<in> set specs"
  shows "\<exists>data container package.
    pk_add_webc io (rs_webc_path spec) = Inr () \<and> pk_read io (rs_webc_path spec) = Inr data \<and>
    pk_parse io data = Inr container \<and> pk_from_webc io container = Inr package \<and>
    map_of (cat_packages cat) (rs_name spec) = Some package"
proof -
  have load: "load_packages (load_package io) specs \<lparr>cat_packages = [], cat_command_paths = []\<rparr> = Inr cat"
    "package_source io specs = Inr ()"
    using assms(1,2) by (auto simp: catalog_for_def catalog_load_def split: sum.splits)
  have "distinct (map rs_name specs)"
    using assms(1) resolve_specs_names by (auto simp: resolve_package_specs_def)
  from load_packages_packages [OF load(1) this assms(3)] package_source_InrD [OF load(2) assms(3)]
  show ?thesis using load_package_InrD by blast
qed

end
