(* ===== verification/Spec2Isabelle.thy ===== *)
theory Spec2Isabelle
  imports Launcher Py_Api Package_Loading
begin

text \<open>
  \<^bold>\<open>Verification of the native core of unix-wasm-sandbox.\<close>

  The program runs WebAssembly packages as Unix commands inside a virtual file system, on behalf of a
  Python host. Its own implementation is \<open>src/src/core.rs\<close> and \<open>src/src/py_api.rs\<close>; everything else of
  the repository is the Python front end, tests, and vendored crates.

  \<^bold>\<open>The parts and how they interact.\<close> A host creates a sandbox: an in-memory file system with
  host directories mounted into it, an image of packages whose commands appear in \<open>/bin\<close> and
  \<open>/usr/bin\<close>, and a registry of virtual executables, which are functions of the host. It then reads and
  writes files, registers virtual executables, and runs or starts processes. A process sees the file
  system through layers: one makes mounts read-only, one reports changes as events to the host, one adds
  the device \<open>/dev/unix-sandbox-virtual-exec\<close>. The file of a virtual executable is a small WebAssembly
  program, the launcher, which writes its arguments and environment as a request to that device, reads
  the response and passes it on. The device hands the request to the registry, the registry to the
  bridge, and the bridge to the host, which answers it through the Python interface.

  \<^bold>\<open>Theories\<close>, in the order of their dependencies, with the code they model:
  \<^item> \<open>Prelude\<close>: words, bytes, strings, UTF-8, lists; the locales \<open>machine\<close> (an invariant that every operation
    keeps) and \<open>growing_machine\<close> (an order that every operation respects), whose client lemmas lift
    both to all sequences of operations. \<open>Errors\<close>: every error value of the sources.
  \<^item> \<open>Captured_Output\<close>: \<open>CapturedOutput\<close>, \<open>LimitedCaptureFile\<close>. The limit is never exceeded, and \<open>capture\<close>
    returns all bytes or the limit error.
  \<^item> \<open>Interactive_Stdin\<close>: \<open>InteractiveStdin\<close>, \<open>InteractiveStdinFile\<close>. Order, end of file, which of any
    number of reader tasks a write wakes, and \<open>read_stdin_to_end\<close>, which returns exactly the input.
  \<^item> \<open>Paths\<close>: the part of \<open>std::path\<close> the code uses, \<open>normalize_path\<close>, \<open>normalize_command_path\<close>,
    \<open>command_path_from_path_entry\<close>. \<open>Path_Map\<close>: a \<open>HashMap\<close> with paths as keys (locale \<open>path_table\<close>).
  \<^item> \<open>Events\<close>: \<open>EventBus\<close>, as a sequential object and as concurrent threads of atomic operations.
  \<^item> \<open>Wire\<close>: \<open>BinaryCursor\<close>, the request parser, the response encoder and decoder.
  \<^item> \<open>File_Systems\<close>: \<open>ReadOnlyFileSystem\<close>, \<open>ObservableFileSystem\<close> and their files, over an arbitrary inner
    file system (locale \<open>read_safe_fs\<close>, interpreted on an in-memory file system with cursors and devices).
    A read-only mount never changes, and a session through the observing layer behaves as without it and
    reports exactly its changes; that \<open>would_mutate\<close> of \<open>virtual_fs\<close> tells the options that can change a
    file from those that only read is a hypothesis.
  \<^item> \<open>Exec_Layer\<close>: \<open>VirtualExecutableFileSystem\<close>, the bridge device, \<open>RelativeOrAbsolutePathHack\<close>,
    \<open>process_filesystem\<close>. An open device makes one exchange and then reads like a file that holds the response.
  \<^item> \<open>Bridge\<close>: \<open>CancellationSource\<close>, \<open>CancellationToken\<close>, \<open>VirtualExecutableBridge::invoke_blocking\<close>.
  \<^item> \<open>Host_Files\<close>: directory creation, reading and writing for the host (locale \<open>dir_fs\<close>).
  \<^item> \<open>Registry\<close>: \<open>VirtualExecutableRegistry\<close>, requests of guests, the launcher text.
  \<^item> \<open>Launcher\<close>: the WebAssembly program itself, on its linear memory, with the WASI calls that fill it.
  \<^item> \<open>Catalog\<close>: package specifications, the command table, command resolution, merging of package files
    in the order of the packages. \<open>Package_Loading\<close>: reading the package files.
  \<^item> \<open>Sandbox\<close>: \<open>SandboxState\<close>, construction and host operations. The locale \<open>file_store\<close> states, for
    regular files, what opening, writing at a cursor and reading from a cursor do.
  \<^item> \<open>Run\<close>: \<open>PackageCatalog::run\<close>, \<open>run_with_stdio\<close>, virtual and package commands, wall times. What a
    package process writes to its streams is arbitrary.
  \<^item> \<open>Process_Table\<close>: \<open>StartedProcess\<close>, \<open>RunningProcessGuard\<close>, \<open>start\<close>, \<open>run\<close>, \<open>cancel_process\<close>, \<open>wait\<close> of
    \<open>py_api.rs\<close>, as a step relation over all processes and their tasks. A new process has a new number, as
    the Python front end's counter gives it; \<open>begin_process\<close> itself accepts any.
  \<^item> \<open>Py_Api\<close>: the \<open>Sandbox\<close> class, its lock, and the dispatcher of virtual processes.
  This theory composes them: the last theorem follows one execution of a virtual executable by a guest
  through launcher, device, registry and back.

  \<^bold>\<open>Conventions.\<close> Structs are records, enums datatypes, \<open>u8\<close>, \<open>u32\<close>, \<open>i32\<close> and \<open>u64\<close> words, \<open>usize\<close> a
  natural number with its maximum where the code checks it; strings are lists of bytes (as \<open>char\<close>), a
  \<open>HashMap\<close> is an association list in its iteration order. A \<open>Result\<close> is a sum with the error on the
  left, a poll of a future is \<open>Pending\<close> or \<open>Ready\<close>, a panic or a trap is a value of its own. A mutex is a
  flag that tells whether it is poisoned. Code that is not part of the repository is an argument: the
  inner file systems, base64 and JSON, the WASIX runtime (\<open>engine\<close>), the clock and the channels (as the
  list of what each iteration of a loop observes). There is no fuel: loops that wait consume that list and
  are \<open>Running\<close> or \<open>Pending\<close> when it ends, all other loops are total functions with termination proofs
  (\<open>$strlen\<close> ends because memory does, the loops over arguments because a counter below \<open>2 ^ 32\<close> grows).

  \<^bold>\<open>Bounds.\<close> \<open>launcher_fits\<close> states what the areas of the launcher's memory can hold: 896 bytes of path,
  16128 arguments of 196608 bytes in total, 65536 variables of 1572864 bytes in total, no null bytes.
  \<open>launcher_long_path_clobbered\<close> shows that the first bound is needed.

  \<^bold>\<open>Not modelled.\<close> \<open>sandbox_engine\<close>, the settings of the runtime and \<open>NonInteractiveTty\<close> only hand constants
  to the wasmer crates. The registration of the Python classes and \<open>lib.rs\<close> have no state. The Python
  package is another language. The vendored crates are third-party code, except for the argument and
  environment passing that the launcher depends on. The scheduler of a guest process, its system calls
  and the compilation of modules belong to that runtime: of a package process the model has what the
  sources observe of it.
\<close>

section \<open>A guest executes a virtual executable\<close>

text \<open>
  The descriptors of the launcher's process: descriptor 4 is the bridge device once it has been opened,
  with the offset of the descriptor, and what is written to the other descriptors is recorded. As in the
  vendored runtime (\<open>fd_write\<close>, \<open>fd_read\<close>), every write and read of the device first seeks to the
  descriptor's offset and then advances it. \<open>invoke\<close> is the call of the device into the registry.
\<close>

definition device_seek :: "u64 \<Rightarrow> bridge_file \<Rightarrow> bridge_file" where
  "device_seek offset device = snd (bridge_start_seek (SeekStart offset) device)"

definition bridge_wasi ::
  "(bytes \<Rightarrow> 'e \<Rightarrow> bytes \<times> 'e) \<Rightarrow> ((bridge_file \<times> u64) option \<times> 'e \<times> (nat \<times> bytes) list) wasi" where
  "bridge_wasi invoke =
     \<lparr>ws_fd_fdstat_set_flags = (\<lambda>_ _ w. w),
      ws_path_open = (\<lambda>name (f, e, out).
        if name = into_bytes (tl bridge_path) then (Some 4, Some (bridge_new, 0), e, out) else (None, f, e, out)),
      ws_fd_write = (\<lambda>fd buf (f, e, out).
        case f of
          Some (device, offset) \<Rightarrow>
            if fd = 4 then
              (Some (length buf),
               Some (snd (bridge_poll_write buf (device_seek offset device)), offset + of_nat (length buf)), e, out)
            else (Some (length buf), f, e, out @ [(fd, buf)])
        | None \<Rightarrow> (None, f, e, out)),
      ws_fd_read = (\<lambda>fd n (f, e, out).
        case f of
          Some (device, offset) \<Rightarrow>
            if fd = 4 then
              (case bridge_poll_read invoke n (device_seek offset device) e of
                 (Ready (Inr data), device', e') \<Rightarrow>
                   (Some data, Some (device', offset + of_nat (length data)), e', out)
               | (_, device', e') \<Rightarrow> (None, Some (device', offset), e', out))
            else (None, f, e, out)
        | None \<Rightarrow> (None, f, e, out))\<rparr>"

lemma device_name: "tl bridge_path = ''dev/unix-sandbox-virtual-exec''"
  by (simp add: bridge_path_def)

lemma device_seek_fields [simp]:
  "bf_request (device_seek offset device) = bf_request device"
  "bf_response (device_seek offset device) = bf_response device"
  by (simp_all add: device_seek_def frame)

lemma bridge_read_response:
  assumes "invoke (bf_request f) e = (response, e')" "bf_response f = None" "response \<noteq> []" "length response \<le> n"
  shows "bridge_poll_read invoke n f e =
    (Ready (Inr response), f\<lparr>bf_response := Some response, bf_cursor := length response\<rparr>, e')"
  using assms by (simp add: bridge_poll_read_def Let_def)

text \<open>
  C9. A guest that executes a registered path reaches the handler registered for it, and the handler's answer
  is what the guest process does. The host is called once, with the token of the handler and exactly the
  path, the arguments, the environment and the working directory of the guest process; the process then
  writes the output and the error output of the response and exits with its return code.
\<close>

theorem guest_executes_handler:
  fixes to_json :: "process_payload \<Rightarrow> error + bytes" and call :: "bytes \<Rightarrow> 'e \<Rightarrow> (error + bytes) \<times> 'e"
  assumes "launcher_fits path args envs" "wire_request path args envs []"
    and "normalize_path path = Inr path'" "resolve_path reg path' = Inr (Some target)"
    and "to_json \<lparr>vp_handler_token = re_token target, vp_executable_path = re_path target, vp_argv = args,
           vp_cwd = gp_cwd (payload_of b64 path args envs []), vp_env = env_of_items envs, vp_stdin = b64 []\<rparr> = Inr json"
    and "call json e = (Inr (encode_response response), e')" "length (encode_response response) \<le> response_cap"
  shows "\<exists>device. start (bridge_wasi (invoke_guest show_foreign b64 to_json call reg)) path args envs (None, e, []) =
    Some (Exits (unat (rp_returncode response)), device, e', [(1, rp_stdout response), (2, rp_stderr response)])"
proof -
  let ?L = "request_layout path args envs []" and ?r = "encode_response response"
  let ?invoke = "invoke_guest show_foreign b64 to_json call reg"
  have "parse_guest_payload b64 (?L @ []) = Inr (payload_of b64 path args envs [])"
    using request_length [OF assms(1)]
    by (intro parse_layout assms(2)) (simp add: usize_max_def request_buf_def mem_size_def)
  then have invoke: "?invoke ?L e = (?r, e')"
    using assms(3-6) by (simp add: invoke_guest_def invoke_guest_result_def payload_of_def)
  have "?r \<noteq> []" by (simp add: encode_response_def response_magic_def into_bytes_def)
  let ?f = "device_seek (of_nat (length ?L)) (snd (bridge_poll_write ?L (device_seek 0 bridge_new)))"
  have "bf_request ?f = ?L" "bf_response ?f = None" by (simp_all add: bridge_poll_write_def bridge_new_def)
  from bridge_read_response [of ?invoke ?f e ?r e' response_cap] this invoke \<open>?r \<noteq> []\<close> assms(7)
  have "bridge_poll_read ?invoke response_cap ?f e =
    (Ready (Inr ?r), ?f\<lparr>bf_response := Some ?r, bf_cursor := length ?r\<rparr>, e')" by simp
  then show ?thesis
    using launcher_forwards [of path args envs "bridge_wasi ?invoke" "(None, e, [])" 4] assms(1,7)
    by (simp add: bridge_wasi_def device_name)
qed

text \<open>
  The registered tool \<open>/opt/tool\<close>, executed as \<open>//opt/./tool -v\<close>; the world is the list of the calls of
  the host.
\<close>

definition json_example :: "process_payload \<Rightarrow> error + bytes" where
  "json_example p = Inr (into_bytes (vp_executable_path p @ concat (vp_argv p) @ vp_cwd p))"

definition answer_example :: response_payload where
  "answer_example = \<lparr>rp_returncode = 5, rp_stdout = [104, 105], rp_stderr = [33]\<rparr>"

definition call_example :: "bytes \<Rightarrow> bytes list \<Rightarrow> (error + bytes) \<times> bytes list" where
  "call_example json e = (Inr (encode_response answer_example), e @ [json])"

theorem guest_executes_handler_witness:
  "\<exists>device. start (bridge_wasi (invoke_guest (\<lambda>_. []) (\<lambda>_. []) json_example call_example registry_example))
      ''//opt/./tool'' [''tool'', ''-v''] [''PWD=/w''] (None, [], []) =
    Some (Exits 5, device, [into_bytes ''/opt/tooltool-v/w''], [(1, [104, 105]), (2, [33])])"
proof -
  have resolved: "normalize_path ''//opt/./tool'' = Inr ''/opt/tool''"
    "resolve_path registry_example ''/opt/tool'' = Inr (Some \<lparr>re_token = 7, re_path = ''/opt/tool''\<rparr>)" by code_simp+
  have fits: "launcher_fits ''//opt/./tool'' [''tool'', ''-v''] [''PWD=/w'']" by (simp add: launcher_fits_def)
  have wire: "wire_request ''//opt/./tool'' [''tool'', ''-v''] [''PWD=/w''] []"
    by (simp add: wire_request_def wire_string_def into_bytes_def byte_of_char_def)
  have cwd: "gp_cwd (payload_of (\<lambda>_. []) ''//opt/./tool'' [''tool'', ''-v''] [''PWD=/w''] []) = ''/w''" by code_simp
  have len: "length (encode_response answer_example) \<le> response_cap"
    by (simp add: encode_response_def response_magic_def response_cap_def answer_example_def)
  show ?thesis
    using guest_executes_handler [OF fits wire resolved, of json_example "\<lambda>_. []" "into_bytes ''/opt/tooltool-v/w''"
        call_example "[]" answer_example "[into_bytes ''/opt/tooltool-v/w'']" "\<lambda>_. []"] cwd len
    by (simp add: json_example_def call_example_def answer_example_def)
qed

end
